(* ===== verification/Prelude.thy ===== *)
theory Prelude
  imports Main "HOL-Library.Multiset" "HOL-Library.List_Lexorder" "HOL-Library.Char_ord"
begin

text \<open>
  Shared ground of the development: the collections the component proofs use, Go's \<open>int\<close>
  (64 bits, wrapping), iteration over a Go map, the sorting routine of package \<open>sort\<close>, and
  the generic lemmas on lists and maps that several components need.

  The named collections:
  \<^item> \<open>go_eval\<close>: rewrite rules that evaluate a closed term of the model (used by witnesses);
  \<^item> \<open>go_defs\<close>: the definitions of small wrappers that proofs always unfold.
\<close>

named_theorems go_eval \<open>rules that evaluate closed terms of the model\<close>
named_theorems go_defs \<open>definitions of thin wrappers\<close>

section \<open>Go integers\<close>

text \<open>
  A Go \<open>int\<close> is a 64-bit two's complement value on the platforms the program is built for
  (deploy/Dockerfile: linux). The model keeps the value as an \<open>int\<close> and writes the wrap-around
  of an arithmetic operation out with \<open>wrap64\<close>. Division truncates towards zero.
\<close>

definition wrap64 :: "int \<Rightarrow> int" where
  "wrap64 i = (i + 2 ^ 63) mod 2 ^ 64 - 2 ^ 63"

definition int64_ok :: "int \<Rightarrow> bool" where
  "int64_ok i \<longleftrightarrow> - (2 ^ 63) \<le> i \<and> i < 2 ^ 63"

definition go_div :: "int \<Rightarrow> int \<Rightarrow> int" where
  "go_div a b = sgn a * sgn b * (\<bar>a\<bar> div \<bar>b\<bar>)"

definition go_mod :: "int \<Rightarrow> int \<Rightarrow> int" where
  "go_mod a b = a - b * go_div a b"

lemma wrap64_ok [simp]: "int64_ok (wrap64 i)"
  by (simp add: wrap64_def int64_ok_def)

lemma wrap64_id [simp]: "int64_ok i \<Longrightarrow> wrap64 i = i"
  by (simp add: wrap64_def int64_ok_def)

lemma go_div_nonneg: "0 \<le> a \<Longrightarrow> 0 < b \<Longrightarrow> go_div a b = a div b"
  by (cases "a = 0") (simp_all add: go_div_def)

lemma go_mod_nonneg: "0 \<le> a \<Longrightarrow> 0 < b \<Longrightarrow> go_mod a b = a mod b"
  by (simp add: go_mod_def go_div_nonneg minus_mult_div_eq_mod)

text \<open>A saturating conversion into the \<open>int64\<close> range, as \<open>time.Time.Sub\<close> performs it.\<close>

definition sat64 :: "int \<Rightarrow> int" where
  "sat64 i = (if i < - (2 ^ 63) then - (2 ^ 63) else if 2 ^ 63 \<le> i then 2 ^ 63 - 1 else i)"

lemma sat64_ok [simp]: "int64_ok (sat64 i)"
  by (simp add: sat64_def int64_ok_def)

lemma sat64_id: "int64_ok i \<Longrightarrow> sat64 i = i"
  by (simp add: sat64_def int64_ok_def)

lemma sat64_le_iff: "int64_ok d \<Longrightarrow> d < 2 ^ 63 - 1 \<Longrightarrow> sat64 i \<le> d \<longleftrightarrow> i \<le> d"
  by (auto simp: sat64_def int64_ok_def)

lemma sat64_nonneg_iff: "0 \<le> sat64 i \<longleftrightarrow> 0 \<le> i"
  by (auto simp: sat64_def)

section \<open>Iterating over a Go map\<close>

text \<open>
  \<open>for k, v := range m\<close> visits every entry of \<open>m\<close> once, in an order the language does not
  specify and which may differ from one loop to the next. A Go map is a HOL map; a loop over it
  takes the visiting order as an argument, a list of keys \<open>ks\<close> with \<open>range_order m ks\<close>, and
  a theorem about the loop holds for every such list.
\<close>

definition range_order :: "('k \<rightharpoonup> 'v) \<Rightarrow> 'k list \<Rightarrow> bool" where
  "range_order m ks \<longleftrightarrow> distinct ks \<and> set ks = dom m"

definition range_vals :: "('k \<rightharpoonup> 'v) \<Rightarrow> 'k list \<Rightarrow> 'v list" where
  "range_vals m ks = List.map_filter m ks"

lemma range_vals_Nil [simp, go_eval]: "range_vals m [] = []"
  by (simp add: range_vals_def List.map_filter_def)

lemma range_vals_Cons [simp, go_eval]:
  "range_vals m (k # ks) = (case m k of None \<Rightarrow> range_vals m ks | Some v \<Rightarrow> v # range_vals m ks)"
  by (simp add: range_vals_def List.map_filter_def split: option.split)

lemma set_range_vals: "range_order m ks \<Longrightarrow> set (range_vals m ks) = ran m"
  by (force simp: range_order_def range_vals_def List.map_filter_def ran_def dom_def)

lemma range_order_Map_empty [simp]: "range_order Map.empty ks \<longleftrightarrow> ks = []"
  by (auto simp: range_order_def)

text \<open>Two loops over the same map see the same values, up to their order.\<close>

lemma mset_range_vals_eq:
  assumes "range_order m ks" "range_order m ks'"
  shows "mset (range_vals m ks) = mset (range_vals m ks')"
proof -
  have "mset ks = mset ks'"
    using assms by (auto simp: range_order_def set_eq_iff_mset_eq_distinct [symmetric])
  then show ?thesis
    by (simp add: range_vals_def List.map_filter_def)
qed

text \<open>The keys of a loop that satisfy a condition on their value.\<close>

lemma range_vals_filter:
  "filter P (range_vals m ks) = range_vals m (filter (\<lambda>k. \<exists>v. m k = Some v \<and> P v) ks)"
  by (induction ks) (auto split: option.split)

lemma range_vals_cong: "(\<And>k. k \<in> set ks \<Longrightarrow> m k = m' k) \<Longrightarrow> range_vals m ks = range_vals m' ks"
  by (induction ks) (auto split: option.split)

section \<open>Lists\<close>

text \<open>Keeping the newest entries of a history: \<open>s = append([]T{x}, s...)\<close>, cut at a length.\<close>

definition push_front_capped :: "nat \<Rightarrow> 'a \<Rightarrow> 'a list \<Rightarrow> 'a list" where
  "push_front_capped n x xs = (let ys = x # xs in if length ys > n then take n ys else ys)"

definition capped :: "nat \<Rightarrow> 'a list \<Rightarrow> 'a list" where
  "capped n xs = (if length xs > n then take n xs else xs)"

lemma capped_take: "capped n xs = take n xs"
  by (simp add: capped_def)

lemma push_front_capped_take: "push_front_capped n x xs = take n (x # xs)"
  by (simp add: push_front_capped_def Let_def)

lemma length_capped [simp]: "length (capped n xs) = min n (length xs)"
  by (simp add: capped_take)

lemma length_push_front_capped [simp]: "length (push_front_capped n x xs) = min n (Suc (length xs))"
  by (simp add: push_front_capped_take)

text \<open>Updating the first element that satisfies a condition, as a loop with an early return does.\<close>

fun update_first :: "('a \<Rightarrow> bool) \<Rightarrow> ('a \<Rightarrow> 'a) \<Rightarrow> 'a list \<Rightarrow> 'a list" where
  "update_first P f [] = []"
| "update_first P f (x # xs) = (if P x then f x # xs else x # update_first P f xs)"

lemma length_update_first [simp]: "length (update_first P f xs) = length xs"
  by (induction xs) auto

lemma update_first_none: "\<forall>x \<in> set xs. \<not> P x \<Longrightarrow> update_first P f xs = xs"
  by (induction xs) auto

lemma update_first_split:
  "\<forall>x \<in> set xs. \<not> P x \<Longrightarrow> P y \<Longrightarrow> update_first P f (xs @ y # ys) = xs @ f y # ys"
  by (induction xs) auto

lemma update_first_idem:
  "(\<And>x. P x \<Longrightarrow> P (f x) \<and> f (f x) = f x) \<Longrightarrow> update_first P f (update_first P f xs) = update_first P f xs"
  by (induction xs) auto

lemma map_update_first_same: "(\<And>x. g (f x) = g x) \<Longrightarrow> map g (update_first P f xs) = map g xs"
  by (induction xs) auto

lemma map_update_first:
  "(\<And>x. P' (g x) = P x) \<Longrightarrow> (\<And>x. g (f x) = f' (g x)) \<Longrightarrow> map g (update_first P f xs) = update_first P' f' (map g xs)"
  by (induction xs) auto

text \<open>Updating the entry of a keyed list is updating its map.\<close>

lemma map_of_update_first:
  assumes "map_of (map (\<lambda>x. (key x, x)) xs) i = Some x" "distinct (map key xs)"
    and "\<And>y. P y \<Longrightarrow> key y = i" "P x" "key (f x) = i"
  shows "map_of (map (\<lambda>x. (key x, x)) (update_first P f xs)) = (map_of (map (\<lambda>x. (key x, x)) xs))(i \<mapsto> f x)"
  using assms
proof (induction xs)
  case (Cons y ys)
  show ?case
  proof (cases "key y = i")
    case True
    with Cons.prems show ?thesis by (auto simp: fun_eq_iff)
  next
    case False
    with Cons show ?thesis by (auto simp: fun_eq_iff)
  qed
qed simp

lemma distinct_set_singleton: "distinct xs \<Longrightarrow> set xs = {x} \<Longrightarrow> xs = [x]"
  by (cases xs) (auto simp: set_eq_iff, metis list.set_intros(1) neq_Nil_conv)

text \<open>The values a loop sees are different when no value is filed twice.\<close>

lemma distinct_range_vals:
  assumes "range_order m ks" "\<And>k k' v. m k = Some v \<Longrightarrow> m k' = Some v \<Longrightarrow> k = k'"
  shows "distinct (range_vals m ks)"
proof -
  have "distinct ks" using assms(1) by (simp add: range_order_def)
  then show ?thesis
  proof (induction ks)
    case (Cons k ks)
    have "v \<notin> set (range_vals m ks)" if "m k = Some v" for v
      using that Cons.prems
      by (clarsimp simp: range_vals_def List.map_filter_def) (metis assms(2))
    with Cons show ?case by (simp split: option.split)
  qed simp
qed

section \<open>Sorting\<close>

text \<open>
  \<open>sort.Slice(xs, less)\<close> and \<open>sort.Strings\<close> leave the slice in an order in which no element is
  less than an earlier one; where two elements are not less than one another their order is
  unspecified. The model sorts by insertion. Every use in the program sorts by a key that is
  different for different elements, and \<open>sort_Slice_unique\<close> shows that the result is then the
  only one any sorting routine can produce.
\<close>

fun insert_by :: "('a \<Rightarrow> 'a \<Rightarrow> bool) \<Rightarrow> 'a \<Rightarrow> 'a list \<Rightarrow> 'a list" where
  "insert_by lt x [] = [x]"
| "insert_by lt x (y # ys) = (if lt y x then y # insert_by lt x ys else x # y # ys)"

fun sort_Slice :: "('a \<Rightarrow> 'a \<Rightarrow> bool) \<Rightarrow> 'a list \<Rightarrow> 'a list" where
  "sort_Slice lt [] = []"
| "sort_Slice lt (x # xs) = insert_by lt x (sort_Slice lt xs)"

abbreviation less_on :: "('a \<Rightarrow> 'k::linorder) \<Rightarrow> 'a \<Rightarrow> 'a \<Rightarrow> bool" where
  "less_on f x y \<equiv> f x < f y"

lemma mset_insert_by [simp]: "mset (insert_by lt x xs) = add_mset x (mset xs)"
  by (induction xs) auto

lemma mset_sort_Slice [simp]: "mset (sort_Slice lt xs) = mset xs"
  by (induction xs) auto

lemma set_sort_Slice [simp]: "set (sort_Slice lt xs) = set xs"
  by (metis mset_sort_Slice set_mset_mset)

lemma length_sort_Slice [simp]: "length (sort_Slice lt xs) = length xs"
  by (metis mset_sort_Slice size_mset)

lemma sorted_insert_by:
  "sorted (map f xs) \<Longrightarrow> sorted (map f (insert_by (less_on f) x xs))"
proof (induction xs)
  case (Cons y ys)
  have "set (insert_by (less_on f) x ys) = insert x (set ys)"
    by (metis mset_insert_by set_mset_add_mset_insert set_mset_mset)
  with Cons show ?case by auto
qed simp

lemma sorted_sort_Slice: "sorted (map f (sort_Slice (less_on f) xs))"
  by (induction xs) (simp_all add: sorted_insert_by)

lemma sort_Slice_unique:
  assumes "mset ys = mset xs" "sorted (map f ys)" "inj_on f (set xs)"
  shows "ys = sort_Slice (less_on f) xs"
proof (rule map_inj_on)
  have "mset (map f ys) = mset (map f (sort_Slice (less_on f) xs))" using assms(1) by simp
  from properties_for_sort [OF this assms(2), symmetric] sorted_sort_id [OF sorted_sort_Slice]
  show "map f ys = map f (sort_Slice (less_on f) xs)" by (rule trans)
  have "set ys = set xs" using assms(1) by (metis set_mset_mset)
  then show "inj_on f (set ys \<union> set (sort_Slice (less_on f) xs))" using assms(3) by simp
qed

lemma sort_Slice_perm:
  assumes "mset xs = mset ys" "inj_on f (set xs)"
  shows "sort_Slice (less_on f) xs = sort_Slice (less_on f) ys"
  using assms by (intro sort_Slice_unique) (auto simp: sorted_sort_Slice dest: mset_eq_setD)

text \<open>A phase that cannot last for \<open>N\<close> steps gives way, once and for all, to the one that follows it.\<close>

lemma phase_ends:
  fixes P D :: "nat \<Rightarrow> bool"
  assumes "P 0" "\<And>k. P k \<Longrightarrow> P (Suc k) \<or> D (Suc k)" "\<And>k. D k \<Longrightarrow> D (Suc k)" "\<not> P N"
  shows "\<exists>n \<le> N. (\<forall>k < n. P k) \<and> (\<forall>k \<ge> n. D k)"
proof -
  let ?n = "LEAST n. \<not> P n"
  have n: "\<not> P ?n" "?n \<le> N" "\<forall>k < ?n. P k"
    using assms(4) LeastI [of "\<lambda>n. \<not> P n" N] by (auto intro: Least_le dest: not_less_Least)
  with assms(1) obtain m where m: "?n = Suc m" by (cases ?n) auto
  with n assms(2) [of m] have d: "D ?n" by simp
  have "D k" if "?n \<le> k" for k using that d by (induction rule: dec_induct) (auto intro: assms(3))
  with n show ?thesis by blast
qed

section \<open>Invariants of step relations\<close>

text \<open>The interface every component's step relation satisfies for each of its invariants.\<close>

locale keeps_invariant =
  fixes step :: "'s \<Rightarrow> 's \<Rightarrow> bool" and inv :: "'s \<Rightarrow> bool"
  assumes inv_step: "inv s \<Longrightarrow> step s s' \<Longrightarrow> inv s'"
begin

lemma inv_steps: "step\<^sup>*\<^sup>* s s' \<Longrightarrow> inv s \<Longrightarrow> inv s'"
  by (induction rule: rtranclp_induct) (auto intro: inv_step)

end

end
