(* ===== verification/Go_Float.thy ===== *)
theory Go_Float
  imports Prelude Complex_Main "HOL-Library.Log_Nat"
begin

text \<open>
  Go's \<open>float64\<close>: IEEE 754 binary64 with rounding to nearest, ties to even, one rounding per
  operation (the compiler fuses no operations on amd64). A value is a NaN, an infinity, the
  negative zero, or \<open>Fin q\<close> with \<open>q\<close> its exact rational value (\<open>Fin 0\<close> is the positive
  zero). Arithmetic computes exactly on rationals and rounds once with \<open>round64\<close>, which
  handles subnormal numbers and overflow; comparisons follow IEEE (every comparison with a NaN
  is false, the two zeros are equal).

  The lemmas: rounding is monotone and fixes the representable values, so the order facts of
  exact arithmetic that the components need carry over (\<open>f_le_add_right\<close>, \<open>f_sub_nonneg\<close>,
  \<open>f_mul_nonneg\<close>, \<open>f_div_nonneg\<close>); the predicate \<open>is_f64\<close> says that a value is one of the
  machine's, and every operation returns such a value. The collection \<open>f64_eval\<close> evaluates
  closed terms.
\<close>

named_theorems f64_eval \<open>evaluation of rounding on dyadic numerals\<close>

section \<open>Rationals with infinities\<close>

text \<open>The order of the values that are not a NaN.\<close>

datatype xrat = NegI | Q rat | PosI

instantiation xrat :: linorder
begin

fun less_eq_xrat :: "xrat \<Rightarrow> xrat \<Rightarrow> bool" where
  "less_eq_xrat NegI _ = True"
| "less_eq_xrat (Q a) (Q b) = (a \<le> b)"
| "less_eq_xrat _ PosI = True"
| "less_eq_xrat _ _ = False"

definition less_xrat :: "xrat \<Rightarrow> xrat \<Rightarrow> bool" where
  "less_xrat x y \<longleftrightarrow> x \<le> y \<and> \<not> y \<le> x"

instance
proof
  fix x y z :: xrat
  show "(x < y) = (x \<le> y \<and> \<not> y \<le> x)" by (simp add: less_xrat_def)
  show "x \<le> x" by (cases x) auto
  show "x \<le> y \<Longrightarrow> y \<le> z \<Longrightarrow> x \<le> z" by (cases x; cases y; cases z) auto
  show "x \<le> y \<Longrightarrow> y \<le> x \<Longrightarrow> x = y" by (cases x; cases y) auto
  show "x \<le> y \<or> y \<le> x" by (cases x; cases y) auto
qed

end

lemma xrat_less_simps [simp]:
  "Q a < Q b \<longleftrightarrow> a < b"
  "Q a < PosI" "NegI < Q a" "NegI < PosI" "\<not> x < NegI" "\<not> PosI < x" "x \<le> PosI"
  "PosI \<le> x \<longleftrightarrow> x = PosI" "x \<le> NegI \<longleftrightarrow> x = NegI"
  by (auto simp: less_xrat_def) (cases x; simp)+

section \<open>Rounding to 53 bits\<close>

text \<open>Rounding to the nearest integer, ties to even.\<close>

definition rne :: "rat \<Rightarrow> int" where
  "rne q = (let k = \<lfloor>q\<rfloor>; r = q - of_int k in
     if r < 1/2 \<or> (r = 1/2 \<and> even k) then k else k + 1)"

abbreviation pow2 :: "int \<Rightarrow> rat" where
  "pow2 e \<equiv> 2 powi e"

text \<open>The exponent of the leading bit.\<close>

definition ilog2 :: "rat \<Rightarrow> int" where
  "ilog2 q = (let (n, d) = quotient_of q; e = bitlen n - bitlen d
     in if pow2 e \<le> q then e else e - 1)"

text \<open>
  The exponent of the unit in the last place of a positive value: 52 below its leading bit, but
  never below that of the subnormal numbers.
\<close>

definition ulp_exp :: "rat \<Rightarrow> int" where
  "ulp_exp a = max (ilog2 a) (- 1022) - 52"

definition round_pos :: "rat \<Rightarrow> rat" where
  "round_pos a = of_int (rne (a / pow2 (ulp_exp a))) * pow2 (ulp_exp a)"

lemma rne_cases: "rne q = \<lfloor>q\<rfloor> \<or> rne q = \<lfloor>q\<rfloor> + 1"
  by (auto simp: rne_def Let_def)

lemma rne_mono: "p \<le> q \<Longrightarrow> rne p \<le> rne q"
proof (cases "\<lfloor>p\<rfloor> = \<lfloor>q\<rfloor>")
  case True
  assume "p \<le> q"
  with True show ?thesis by (auto simp: rne_def Let_def)
next
  case False
  assume "p \<le> q"
  with False have "\<lfloor>p\<rfloor> + 1 \<le> \<lfloor>q\<rfloor>" using floor_mono [of p q] by linarith
  with rne_cases [of p] rne_cases [of q] show ?thesis by linarith
qed

lemma rne_of_int [simp]: "rne (of_int k) = k"
  by (simp add: rne_def)

lemma ilog2_bounds:
  assumes "0 < q"
  shows "pow2 (ilog2 q) \<le> q \<and> q < pow2 (ilog2 q + 1)"
proof -
  obtain n d where nd: "quotient_of q = (n, d)" by (cases "quotient_of q")
  have d: "0 < d" and q: "q = of_int n / of_int d"
    using quotient_of_denom_pos [OF nd] quotient_of_div [OF nd] by auto
  have n: "0 < n" using assms d by (simp add: q zero_less_divide_iff)
  have pw: "(of_int (2 ^ nat k) :: rat) = pow2 k" if "0 \<le> k" for k
    using that by (simp add: power_int_def)
  have bn: "0 \<le> bitlen n - 1" "0 \<le> bitlen d - 1"
    using n d by (auto simp: bitlen_alt_def)
  have n1: "pow2 (bitlen n - 1) \<le> of_int n" and n2: "of_int n < pow2 (bitlen n)"
    using bitlen_bounds [OF n] bn pw [of "bitlen n - 1"] pw [of "bitlen n"]
    by (metis of_int_le_iff, metis of_int_less_iff bitlen_nonneg)
  have d1: "pow2 (bitlen d - 1) \<le> of_int d" and d2: "of_int d < pow2 (bitlen d)"
    using bitlen_bounds [OF d] bn pw [of "bitlen d - 1"] pw [of "bitlen d"]
    by (metis of_int_le_iff, metis of_int_less_iff bitlen_nonneg)
  let ?e = "bitlen n - bitlen d"
  have "pow2 (?e - 1) = pow2 (bitlen n - 1) / pow2 (bitlen d)"
    by (simp add: power_int_diff)
  also have "\<dots> \<le> q"
    unfolding q using n1 d2 d n by (intro frac_le) auto
  finally have lo: "pow2 (?e - 1) \<le> q" .
  have "q < pow2 (bitlen n) / pow2 (bitlen d - 1)"
    unfolding q using n2 d1 d n by (intro frac_less) auto
  also have "\<dots> = pow2 (?e + 1)" by (simp add: power_int_diff power_int_add)
  finally have hi: "q < pow2 (?e + 1)" .
  show ?thesis using lo hi by (auto simp: ilog2_def nd Let_def)
qed


lemma pow2_mono_iff [simp]: "pow2 a < pow2 b \<longleftrightarrow> a < b" "pow2 a \<le> pow2 b \<longleftrightarrow> a \<le> b"
proof -
  have lt: "pow2 x < pow2 y" if "x < y" for x y :: int
    using that by (intro power_int_strict_increasing) auto
  have le: "pow2 x \<le> pow2 y" if "x \<le> y" for x y :: int
    using that by (intro power_int_increasing) auto
  show "pow2 a < pow2 b \<longleftrightarrow> a < b" using lt [of a b] le [of b a] by linarith
  show "pow2 a \<le> pow2 b \<longleftrightarrow> a \<le> b" using lt [of b a] le [of a b] by linarith
qed

lemma pow2_pos [simp]: "0 < pow2 e" by simp

lemma ilog2_unique:
  assumes "pow2 e \<le> q" "q < pow2 (e + 1)"
  shows "ilog2 q = e"
proof -
  have "0 < q" using assms(1) pow2_pos [of e] by linarith
  from ilog2_bounds [OF this] assms
  have "pow2 (ilog2 q) < pow2 (e + 1)" "pow2 e < pow2 (ilog2 q + 1)" by linarith+
  then show ?thesis by simp
qed

lemma ilog2_mono: "0 < p \<Longrightarrow> p \<le> q \<Longrightarrow> ilog2 p \<le> ilog2 q"
proof -
  assume "0 < p" "p \<le> q"
  with ilog2_bounds [of p] ilog2_bounds [of q] have "pow2 (ilog2 p) < pow2 (ilog2 q + 1)" by linarith
  then show ?thesis by simp
qed

text \<open>Powers of two at or above the unit in the last place are fixed points.\<close>

lemma int_multiple_pow2: "a \<le> b \<Longrightarrow> \<exists>k. pow2 b / pow2 a = of_int k"
proof -
  assume "a \<le> b"
  then have "pow2 (b - a) = of_int (2 ^ nat (b - a))" by (simp add: power_int_def)
  then have "pow2 b / pow2 a = of_int (2 ^ nat (b - a))" by (simp add: power_int_diff)
  then show ?thesis by blast
qed

lemma round_pos_le_pow2:
  assumes "0 < a" "a \<le> pow2 b" "ulp_exp a \<le> b"
  shows "round_pos a \<le> pow2 b"
proof -
  let ?u = "pow2 (ulp_exp a)"
  obtain k where k: "pow2 b / ?u = of_int k" using int_multiple_pow2 [OF assms(3)] by blast
  have "a / ?u \<le> of_int k" using assms(2) by (simp add: divide_right_mono flip: k)
  from rne_mono [OF this] have "rne (a / ?u) \<le> k" by simp
  then have "of_int (rne (a / ?u)) * ?u \<le> (of_int k :: rat) * ?u" by (simp add: mult_right_mono)
  also have "\<dots> = pow2 b" by (simp flip: k)
  finally show ?thesis by (simp add: round_pos_def)
qed

lemma round_pos_ge_pow2:
  assumes "pow2 b \<le> a" "ulp_exp a \<le> b"
  shows "pow2 b \<le> round_pos a"
proof -
  let ?u = "pow2 (ulp_exp a)"
  obtain k where k: "pow2 b / ?u = of_int k" using int_multiple_pow2 [OF assms(2)] by blast
  have "of_int k \<le> a / ?u" using assms(1) by (simp add: divide_right_mono flip: k)
  from rne_mono [OF this] have "k \<le> rne (a / ?u)" by simp
  then have "(of_int k :: rat) * ?u \<le> of_int (rne (a / ?u)) * ?u" by (simp add: mult_right_mono)
  moreover have "(of_int k :: rat) * ?u = pow2 b" by (simp flip: k)
  ultimately show ?thesis by (simp add: round_pos_def)
qed

lemma round_pos_mono:
  assumes "0 < p" "p \<le> q"
  shows "round_pos p \<le> round_pos q"
proof (cases "ulp_exp p = ulp_exp q")
  case True
  have "p / pow2 (ulp_exp q) \<le> q / pow2 (ulp_exp q)" using assms by (simp add: divide_right_mono)
  from rne_mono [OF this] show ?thesis by (simp add: round_pos_def True mult_right_mono)
next
  case False
  from ilog2_mono [OF assms] False have lt: "ilog2 p < ilog2 q" and e: "- 1022 < ilog2 q"
    by (auto simp: ulp_exp_def)
  have q: "0 < q" using assms by linarith
  have "p < pow2 (ilog2 p + 1)" using ilog2_bounds assms by blast
  also have "\<dots> \<le> pow2 (ilog2 q)" using lt by simp
  finally have "round_pos p \<le> pow2 (ilog2 q)"
    using assms lt e by (intro round_pos_le_pow2) (auto simp: ulp_exp_def)
  also have "\<dots> \<le> round_pos q"
    using ilog2_bounds [OF q] e by (intro round_pos_ge_pow2) (auto simp: ulp_exp_def)
  finally show ?thesis .
qed

lemma round_pos_nonneg: "0 < a \<Longrightarrow> 0 \<le> round_pos a"
proof -
  assume "0 < a"
  then have "0 \<le> a / pow2 (ulp_exp a)" by simp
  from rne_mono [OF this] have "0 \<le> rne (a / pow2 (ulp_exp a))" using rne_of_int [of 0] by simp
  then show ?thesis by (simp add: round_pos_def)
qed

text \<open>A multiple of the unit in the last place rounds to itself.\<close>

lemma round_pos_multiple:
  "a = of_int k * pow2 (ulp_exp a) \<Longrightarrow> round_pos a = a"
  by (metis nonzero_mult_div_cancel_right pow2_pos less_irrefl rne_of_int round_pos_def)

lemma round_pos_idem:
  assumes "0 < a" "round_pos a \<noteq> 0"
  shows "round_pos (round_pos a) = round_pos a"
proof -
  let ?r = "round_pos a" and ?u = "ulp_exp a"
  have r: "0 < ?r" using round_pos_nonneg [OF assms(1)] assms(2) by linarith
  have hi: "?r \<le> pow2 (max (ilog2 a) (-1022) + 1)"
  proof (rule round_pos_le_pow2 [OF assms(1)])
    have "a < pow2 (ilog2 a + 1)" using ilog2_bounds assms by blast
    also have "\<dots> \<le> pow2 (max (ilog2 a) (-1022) + 1)" by simp
    finally show "a \<le> pow2 (max (ilog2 a) (-1022) + 1)" by simp
  qed (simp add: ulp_exp_def)
  have lo: "ulp_exp ?r = ?u \<or> ?r = pow2 (max (ilog2 a) (-1022) + 1)"
  proof (cases "?r = pow2 (max (ilog2 a) (-1022) + 1)")
    case False
    with hi have "pow2 (ilog2 ?r) < pow2 (max (ilog2 a) (-1022) + 1)"
      using ilog2_bounds [OF r] by linarith
    then have le: "ilog2 ?r \<le> max (ilog2 a) (-1022)" by simp
    have "ilog2 a \<le> ilog2 ?r" if "- 1022 \<le> ilog2 a"
    proof -
      have "pow2 (ilog2 a) \<le> ?r"
        using ilog2_bounds [OF assms(1)] that by (intro round_pos_ge_pow2) (auto simp: ulp_exp_def)
      also have "\<dots> < pow2 (ilog2 ?r + 1)" using ilog2_bounds [OF r] by blast
      finally show ?thesis by simp
    qed
    with le have "max (ilog2 ?r) (- 1022) = max (ilog2 a) (- 1022)" by linarith
    then show ?thesis by (simp add: ulp_exp_def)
  qed simp
  then show ?thesis
  proof
    assume "ulp_exp ?r = ?u"
    then have "?r = of_int (rne (a / pow2 ?u)) * pow2 (ulp_exp ?r)" by (simp add: round_pos_def)
    then show ?thesis by (rule round_pos_multiple)
  next
    assume top: "?r = pow2 (max (ilog2 a) (-1022) + 1)" (is "_ = pow2 ?b")
    then have "ilog2 ?r = ?b" by (intro ilog2_unique) auto
    then have "ulp_exp ?r = ?b - 52" by (simp add: ulp_exp_def)
    then obtain k where "pow2 ?b / pow2 (ulp_exp ?r) = of_int k"
      using int_multiple_pow2 [of "ulp_exp ?r" ?b] by auto
    then have "?r = of_int k * pow2 (ulp_exp ?r)" using top by (simp add: field_simps)
    then show ?thesis by (rule round_pos_multiple)
  qed
qed


section \<open>Values and operations\<close>

datatype float64 = NaN | PInf | NInf | NZero | Fin rat

definition f64_limit :: rat where
  "f64_limit = pow2 1024"

definition round64 :: "rat \<Rightarrow> float64" where
  "round64 q =
     (if q = 0 then Fin 0
      else let v = round_pos \<bar>q\<bar> in
        if f64_limit \<le> v then (if q < 0 then NInf else PInf)
        else if v = 0 then (if q < 0 then NZero else Fin 0)
        else Fin (if q < 0 then - v else v))"

text \<open>The place of a value in the order; not used for NaN.\<close>

fun f_key :: "float64 \<Rightarrow> xrat" where
  "f_key NaN = PosI"
| "f_key PInf = PosI"
| "f_key NInf = NegI"
| "f_key NZero = Q 0"
| "f_key (Fin q) = Q q"

text \<open>The operators \<open><\<close>, \<open><=\<close>, \<open>==\<close>.\<close>

definition f_lt :: "float64 \<Rightarrow> float64 \<Rightarrow> bool" where
  "f_lt x y \<longleftrightarrow> x \<noteq> NaN \<and> y \<noteq> NaN \<and> f_key x < f_key y"

definition f_le :: "float64 \<Rightarrow> float64 \<Rightarrow> bool" where
  "f_le x y \<longleftrightarrow> x \<noteq> NaN \<and> y \<noteq> NaN \<and> f_key x \<le> f_key y"

definition f_eq :: "float64 \<Rightarrow> float64 \<Rightarrow> bool" where
  "f_eq x y \<longleftrightarrow> x \<noteq> NaN \<and> y \<noteq> NaN \<and> f_key x = f_key y"

text \<open>Negation, \<open>math.Signbit\<close>, and the parts of a finite value.\<close>

fun f_neg :: "float64 \<Rightarrow> float64" where
  "f_neg NaN = NaN"
| "f_neg PInf = NInf"
| "f_neg NInf = PInf"
| "f_neg NZero = Fin 0"
| "f_neg (Fin q) = (if q = 0 then NZero else Fin (- q))"

fun f_signbit :: "float64 \<Rightarrow> bool" where
  "f_signbit NInf = True"
| "f_signbit NZero = True"
| "f_signbit (Fin q) = (q < 0)"
| "f_signbit _ = False"

fun f_rat :: "float64 \<Rightarrow> rat" where
  "f_rat (Fin q) = q"
| "f_rat _ = 0"

fun f_isfin :: "float64 \<Rightarrow> bool" where
  "f_isfin NZero = True"
| "f_isfin (Fin _) = True"
| "f_isfin _ = False"

definition f_inf :: "bool \<Rightarrow> float64" where
  "f_inf s = (if s then NInf else PInf)"

definition f_zero :: "bool \<Rightarrow> float64" where
  "f_zero s = (if s then NZero else Fin 0)"

text \<open>The operators \<open>+\<close>, \<open>-\<close>, \<open>*\<close>, \<open>/\<close>.\<close>

definition f_add :: "float64 \<Rightarrow> float64 \<Rightarrow> float64" where
  "f_add x y =
     (if x = NaN \<or> y = NaN then NaN
      else if \<not> f_isfin x then (if f_isfin y \<or> x = y then x else NaN)
      else if \<not> f_isfin y then y
      else if x = NZero \<and> y = NZero then NZero
      else round64 (f_rat x + f_rat y))"

definition f_sub :: "float64 \<Rightarrow> float64 \<Rightarrow> float64" where
  "f_sub x y = f_add x (f_neg y)"

definition f_mul :: "float64 \<Rightarrow> float64 \<Rightarrow> float64" where
  "f_mul x y =
     (let s = (f_signbit x \<noteq> f_signbit y) in
      if x = NaN \<or> y = NaN then NaN
      else if \<not> f_isfin x \<or> \<not> f_isfin y then
        (if f_isfin x \<and> f_rat x = 0 \<or> f_isfin y \<and> f_rat y = 0 then NaN else f_inf s)
      else if f_rat x * f_rat y = 0 then f_zero s
      else round64 (f_rat x * f_rat y))"

definition f_div :: "float64 \<Rightarrow> float64 \<Rightarrow> float64" where
  "f_div x y =
     (let s = (f_signbit x \<noteq> f_signbit y) in
      if x = NaN \<or> y = NaN then NaN
      else if \<not> f_isfin x then (if f_isfin y then f_inf s else NaN)
      else if \<not> f_isfin y then f_zero s
      else if f_rat y = 0 then (if f_rat x = 0 then NaN else f_inf s)
      else if f_rat x = 0 then f_zero s
      else round64 (f_rat x / f_rat y))"

text \<open>The conversion \<open>float64(i)\<close> and a decimal literal of the source.\<close>

definition f_of_int :: "int \<Rightarrow> float64" where
  "f_of_int i = round64 (of_int i)"

definition f_lit :: "rat \<Rightarrow> float64" where
  "f_lit q = round64 q"

text \<open>\<open>math.Max\<close>, \<open>math.Min\<close>, \<open>math.Abs\<close>, \<open>math.Round\<close> (half away from zero).\<close>

definition math_Max :: "float64 \<Rightarrow> float64 \<Rightarrow> float64" where
  "math_Max x y =
     (if x = PInf \<or> y = PInf then PInf
      else if x = NaN \<or> y = NaN then NaN
      else if f_key x = Q 0 \<and> f_key y = Q 0 then (if f_signbit x then y else x)
      else if f_lt y x then x else y)"

definition math_Min :: "float64 \<Rightarrow> float64 \<Rightarrow> float64" where
  "math_Min x y =
     (if x = NInf \<or> y = NInf then NInf
      else if x = NaN \<or> y = NaN then NaN
      else if f_key x = Q 0 \<and> f_key y = Q 0 then (if f_signbit x then x else y)
      else if f_lt x y then x else y)"

definition math_Abs :: "float64 \<Rightarrow> float64" where
  "math_Abs x = (if f_signbit x then f_neg x else x)"

text \<open>\<open>math.Pi\<close> as a \<open>float64\<close>.\<close>

definition math_Pi :: float64 where
  "math_Pi = Fin (884279719003555 / 281474976710656)"

fun math_Round :: "float64 \<Rightarrow> float64" where
  "math_Round (Fin q) =
     (let k = \<lfloor>\<bar>q\<bar> + 1/2\<rfloor> in
      if q < 0 then (if k = 0 then NZero else Fin (- of_int k)) else Fin (of_int k))"
| "math_Round x = x"

text \<open>
  The conversion \<open>int(x)\<close>: truncation; for a value outside the range the language leaves the
  result to the implementation, and amd64 yields the least integer.
\<close>

fun f_to_int64 :: "float64 \<Rightarrow> int" where
  "f_to_int64 (Fin q) =
     (let k = (if q < 0 then - \<lfloor>- q\<rfloor> else \<lfloor>q\<rfloor>) in
      if - (2 ^ 63) \<le> k \<and> k < 2 ^ 63 then k else - (2 ^ 63))"
| "f_to_int64 NZero = 0"
| "f_to_int64 _ = - (2 ^ 63)"

section \<open>Rounding is monotone\<close>

lemma round64_pos: "0 < q \<Longrightarrow> round64 q = (if f64_limit \<le> round_pos q then PInf else Fin (round_pos q))"
  by (simp add: round64_def Let_def)

lemma f_key_round64_pos: "0 < q \<Longrightarrow> f_key (round64 q) = (if f64_limit \<le> round_pos q then PosI else Q (round_pos q))"
  by (simp add: round64_pos)

lemma round64_0 [simp]: "round64 0 = Fin 0" by (simp add: round64_def)

lemma round64_neg: "q \<noteq> 0 \<Longrightarrow> round64 (- q) = f_neg (round64 q)"
  by (auto simp: round64_def Let_def)

fun x_neg :: "xrat \<Rightarrow> xrat" where
  "x_neg NegI = PosI" | "x_neg PosI = NegI" | "x_neg (Q a) = Q (- a)"

lemma x_neg_le [simp]: "x_neg x \<le> x_neg y \<longleftrightarrow> y \<le> x"
  by (cases x; cases y) auto

lemma f_key_neg: "x \<noteq> NaN \<Longrightarrow> f_key (f_neg x) = x_neg (f_key x)"
  by (cases x) auto

lemma round64_not_NaN [simp]: "round64 q \<noteq> NaN"
  by (auto simp: round64_def Let_def)

lemma f_key_round64_neg: "f_key (round64 (- q)) = x_neg (f_key (round64 q))"
  by (cases "q = 0") (simp_all add: round64_neg f_key_neg)

lemma f_key_round64_nonneg: "0 \<le> q \<Longrightarrow> Q 0 \<le> f_key (round64 q)"
  by (cases "q = 0") (simp_all add: f_key_round64_pos round_pos_nonneg)

lemma round64_mono_pos: "0 < p \<Longrightarrow> p \<le> q \<Longrightarrow> f_key (round64 p) \<le> f_key (round64 q)"
  using round_pos_mono [of p q] by (simp add: f_key_round64_pos)

lemma round64_mono: "p \<le> q \<Longrightarrow> f_key (round64 p) \<le> f_key (round64 q)"
proof -
  assume le: "p \<le> q"
  consider "0 < p" | "p \<le> 0" "0 \<le> q" | "q < 0" by linarith
  then show ?thesis
  proof cases
    case 1 then show ?thesis using le by (rule round64_mono_pos)
  next
    case 2
    have "f_key (round64 p) \<le> Q 0"
      using f_key_round64_nonneg [of "- p"] 2 by (simp add: f_key_round64_neg) (cases "f_key (round64 p)"; simp)
    with f_key_round64_nonneg [of q] 2 show ?thesis by (meson order_trans)
  next
    case 3
    with le round64_mono_pos [of "- q" "- p"] show ?thesis by (simp add: f_key_round64_neg)
  qed
qed

section \<open>Machine values\<close>

definition is_f64 :: "float64 \<Rightarrow> bool" where
  "is_f64 x \<longleftrightarrow> (case x of Fin q \<Rightarrow> round64 q = Fin q | _ \<Rightarrow> True)"

lemma is_f64_simps [simp]:
  "is_f64 NaN" "is_f64 PInf" "is_f64 NInf" "is_f64 NZero" "is_f64 (Fin q) \<longleftrightarrow> round64 q = Fin q"
  by (simp_all add: is_f64_def)

lemma is_f64_neg [simp]: "is_f64 x \<Longrightarrow> is_f64 (f_neg x)"
  by (cases x) (auto simp: round64_neg)

lemma is_f64_round64_pos: "0 < q \<Longrightarrow> is_f64 (round64 q)"
  using round_pos_nonneg [of q]
  by (cases "round_pos q = 0") (auto simp: round64_pos round_pos_idem)

lemma is_f64_round64 [simp]: "is_f64 (round64 q)"
proof -
  consider "q = 0" | "0 < q" | "q < 0" by linarith
  then show ?thesis
  proof cases
    case 3
    then have "is_f64 (f_neg (round64 (- q)))" by (intro is_f64_neg is_f64_round64_pos) simp
    with 3 show ?thesis using round64_neg [of "- q"] by simp
  qed (simp_all add: is_f64_round64_pos)
qed

lemma f_key_round64_id: "is_f64 x \<Longrightarrow> f_isfin x \<Longrightarrow> f_key (round64 (f_rat x)) = f_key x"
  by (cases x) auto

lemma is_f64_add [simp]: "is_f64 x \<Longrightarrow> is_f64 y \<Longrightarrow> is_f64 (f_add x y)"
  by (simp add: f_add_def)

lemma is_f64_sub [simp]: "is_f64 x \<Longrightarrow> is_f64 y \<Longrightarrow> is_f64 (f_sub x y)"
  by (simp add: f_sub_def)

lemma is_f64_mul [simp]: "is_f64 (f_mul x y)"
  by (simp add: f_mul_def Let_def f_inf_def f_zero_def)

lemma is_f64_div [simp]: "is_f64 (f_div x y)"
  by (simp add: f_div_def Let_def f_inf_def f_zero_def)


section \<open>Order\<close>

lemmas f64_order = f_lt_def f_le_def f_eq_def

lemma f_le_refl [simp]: "f_le x x \<longleftrightarrow> x \<noteq> NaN" by (simp add: f_le_def)
lemma f_lt_irrefl [simp]: "\<not> f_lt x x" by (simp add: f_lt_def)
lemma f_lt_le: "f_lt x y \<Longrightarrow> f_le x y" by (auto simp: f64_order)
lemma f_le_trans: "f_le x y \<Longrightarrow> f_le y z \<Longrightarrow> f_le x z" by (auto simp: f64_order)
lemma f_lt_trans: "f_lt x y \<Longrightarrow> f_lt y z \<Longrightarrow> f_lt x z" by (auto simp: f64_order)
lemma f_le_lt_trans: "f_le x y \<Longrightarrow> f_lt y z \<Longrightarrow> f_lt x z" by (auto simp: f64_order)
lemma f_lt_le_trans: "f_lt x y \<Longrightarrow> f_le y z \<Longrightarrow> f_lt x z" by (auto simp: f64_order)
lemma f_not_lt: "x \<noteq> NaN \<Longrightarrow> y \<noteq> NaN \<Longrightarrow> \<not> f_lt x y \<longleftrightarrow> f_le y x" by (auto simp: f64_order)
lemma f_leD: "f_le x y \<Longrightarrow> x \<noteq> NaN \<and> y \<noteq> NaN" by (simp add: f_le_def)
lemma f_ltD: "f_lt x y \<Longrightarrow> x \<noteq> NaN \<and> y \<noteq> NaN" by (simp add: f_lt_def)
lemma f_cmp_NaN [simp]: "\<not> f_lt NaN x" "\<not> f_lt x NaN" "\<not> f_le NaN x" "\<not> f_le x NaN" "\<not> f_eq NaN x" "\<not> f_eq x NaN"
  by (simp_all add: f64_order)

lemma f_cmp_Fin [simp]: "f_lt (Fin a) (Fin b) \<longleftrightarrow> a < b" "f_le (Fin a) (Fin b) \<longleftrightarrow> a \<le> b" "f_eq (Fin a) (Fin b) \<longleftrightarrow> a = b"
  by (simp_all add: f64_order)

lemma f_key_Max: "x \<noteq> NaN \<Longrightarrow> y \<noteq> NaN \<Longrightarrow> math_Max x y \<noteq> NaN \<and> f_key (math_Max x y) = max (f_key x) (f_key y)"
  by (cases x; cases y) (auto simp: math_Max_def f_lt_def max_def)

lemma f_key_Min: "x \<noteq> NaN \<Longrightarrow> y \<noteq> NaN \<Longrightarrow> math_Min x y \<noteq> NaN \<and> f_key (math_Min x y) = min (f_key x) (f_key y)"
  by (cases x; cases y) (auto simp: math_Min_def f_lt_def min_def)

lemma is_f64_Max [simp]: "is_f64 x \<Longrightarrow> is_f64 y \<Longrightarrow> is_f64 (math_Max x y)"
  by (simp add: math_Max_def)

lemma is_f64_Min [simp]: "is_f64 x \<Longrightarrow> is_f64 y \<Longrightarrow> is_f64 (math_Min x y)"
  by (simp add: math_Min_def)

lemma f_add_fin: "f_isfin x \<Longrightarrow> f_isfin y \<Longrightarrow> f_key (f_add x y) = f_key (round64 (f_rat x + f_rat y)) \<and> f_add x y \<noteq> NaN"
  by (cases x; cases y) (auto simp: f_add_def)

lemma f_fin_key: "f_isfin x \<Longrightarrow> f_key x = Q (f_rat x)" by (cases x) auto

lemma f_le_add_right:
  assumes "is_f64 x" "f_isfin x" "f_le (Fin 0) d"
  shows "f_le x (f_add x d)"
proof (cases "f_isfin d")
  case True
  with assms(3) have "0 \<le> f_rat d" by (simp add: f_le_def f_fin_key)
  then have "f_rat x \<le> f_rat x + f_rat d" by simp
  from round64_mono [OF this] show ?thesis
    using assms True f_add_fin [of x d] f_key_round64_id [of x] by (cases x) (auto simp: f_le_def)
next
  case False
  then show ?thesis using assms by (cases d; cases x) (auto simp: f_le_def f_add_def)
qed

lemma f_neg_le_0: "f_le (Fin 0) d \<Longrightarrow> f_le (f_neg d) (Fin 0)"
  by (cases d) (auto simp: f_le_def)

lemma f_add_le_left:
  assumes "is_f64 x" "f_isfin x" "f_le d (Fin 0)"
  shows "f_le (f_add x d) x"
proof (cases "f_isfin d")
  case True
  with assms(3) have "f_rat d \<le> 0" by (simp add: f_le_def f_fin_key)
  then have "f_rat x + f_rat d \<le> f_rat x" by simp
  from round64_mono [OF this] show ?thesis
    using assms True f_add_fin [of x d] f_key_round64_id [of x] by (cases x) (auto simp: f_le_def)
next
  case False
  then show ?thesis using assms by (cases d; cases x) (auto simp: f_le_def f_add_def)
qed

lemma f_sub_le: "is_f64 x \<Longrightarrow> f_isfin x \<Longrightarrow> f_le (Fin 0) d \<Longrightarrow> f_le (f_sub x d) x"
  by (simp add: f_sub_def f_add_le_left f_neg_le_0)

text \<open>Subtraction decides the order: Go's \<open>a - b\<close> is positive exactly when \<open>a > b\<close>.\<close>

lemma f_sub_nonneg:
  assumes "f_isfin x" "f_isfin y" "f_le y x"
  shows "f_le (Fin 0) (f_sub x y)"
proof -
  have fy: "f_isfin (f_neg y)" "f_rat (f_neg y) = - f_rat y" using assms by (cases y; simp)+
  have "0 \<le> f_rat x - f_rat y" using assms by (simp add: f_le_def f_fin_key)
  from f_key_round64_nonneg [OF this] show ?thesis
    using f_add_fin [OF assms(1) fy(1)] fy(2) by (simp add: f_sub_def f_le_def)
qed

lemma f_mul_nonneg:
  assumes "f_le (Fin 0) x" "f_le (Fin 0) y" "f_isfin x" "f_isfin y"
  shows "f_le (Fin 0) (f_mul x y)"
proof -
  have "0 \<le> f_rat x * f_rat y" using assms by (simp add: f_le_def f_fin_key)
  from f_key_round64_nonneg [OF this] show ?thesis
    using assms by (auto simp: f_mul_def f_le_def Let_def f_zero_def)
qed

lemma f_div_nonneg:
  assumes "f_le (Fin 0) x" "f_lt (Fin 0) y" "f_isfin x"
  shows "f_le (Fin 0) (f_div x y)"
proof (cases "f_isfin y")
  case True
  have "0 \<le> f_rat x / f_rat y" using assms True by (simp add: f_le_def f_lt_def f_fin_key)
  from f_key_round64_nonneg [OF this] show ?thesis
    using assms True by (auto simp: f_div_def f_le_def f_lt_def Let_def f_zero_def f_fin_key)
next
  case False
  then show ?thesis using assms by (cases y) (auto simp: f_div_def f_le_def f_lt_def Let_def f_zero_def)
qed

lemma f_div_nonneg_fin:
  assumes "f_le (Fin 0) x" "f_lt (Fin 0) y" "f_isfin y"
  shows "f_le (Fin 0) (f_div x y)"
proof (cases "f_isfin x")
  case True
  with assms show ?thesis by (intro f_div_nonneg)
next
  case False
  with assms show ?thesis by (cases x; cases y) (auto simp: f_div_def f_inf_def f_le_def f_lt_def Let_def)
qed

lemma f_fin_between: "f_le (Fin a) x \<Longrightarrow> f_le x y \<Longrightarrow> f_isfin y \<Longrightarrow> f_isfin x"
  by (cases x; cases y) (auto simp: f_le_def)

lemma f_sub_pos:
  assumes "is_f64 y" "f_lt (f_add y d) x" "f_le (Fin 0) d" "f_isfin d"
  shows "f_le (Fin 0) (f_sub x y)"
proof (cases "f_isfin x \<and> f_isfin y")
  case True
  with assms f_le_add_right [of y d] show ?thesis by (intro f_sub_nonneg) (auto intro: f_lt_le f_le_lt_trans)
next
  case False
  with assms show ?thesis by (cases x; cases y; cases d) (auto simp: f_add_def f_sub_def f_le_def f_lt_def)
qed

section \<open>Evaluation\<close>

lemma round64_exact:
  assumes k: "\<bar>k\<bar> < 2 ^ 53" and e: "- 1074 \<le> e" "e \<le> 971"
  shows "round64 (of_int k * pow2 e) = Fin (of_int k * pow2 e)"
proof -
  have pos: "round64 (of_int k * pow2 e) = Fin (of_int k * pow2 e)" if k: "0 < k" "k < 2 ^ 53" for k
  proof -
    let ?a = "of_int k * pow2 e"
    have a: "0 < ?a" using k by simp
    have "(of_int k :: rat) < of_int (2 ^ 53)" using k by (simp only: of_int_less_iff)
    then have "of_int k < pow2 53" by simp
    then have lt: "?a < pow2 (53 + e)" by (simp add: power_int_add)
    then have "pow2 (ilog2 ?a) < pow2 (53 + e)" using ilog2_bounds [OF a] by linarith
    then have "ulp_exp ?a \<le> e" using e(1) by (simp add: ulp_exp_def)
    from int_multiple_pow2 [OF this] obtain m where "pow2 e = of_int m * pow2 (ulp_exp ?a)"
      by (auto simp: field_simps)
    then have "?a = of_int (k * m) * pow2 (ulp_exp ?a)" by simp
    then have r: "round_pos ?a = ?a" by (rule round_pos_multiple)
    have "pow2 (53 + e) \<le> pow2 1024" using e(2) by (simp only: pow2_mono_iff)
    with lt have "?a < f64_limit" unfolding f64_limit_def by linarith
    with a r show ?thesis by (simp add: round64_pos)
  qed
  consider "k = 0" | "0 < k" | "k < 0" by linarith
  then show ?thesis
  proof cases
    case 3
    with pos [of "- k"] k show ?thesis
      using round64_neg [of "of_int (- k) * pow2 e"] by simp
  qed (use pos k in auto)
qed

lemma f_of_int_exact: "\<bar>k\<bar> < 2 ^ 53 \<Longrightarrow> f_of_int k = Fin (of_int k)"
  using round64_exact [of k 0] by (simp add: f_of_int_def)

lemma round64_numeral [f64_eval]:
  "(numeral n :: int) < 2 ^ 53 \<Longrightarrow> round64 (numeral n) = Fin (numeral n)"
  "(numeral n :: int) < 2 ^ 53 \<Longrightarrow> round64 (- numeral n) = Fin (- numeral n)"
  using round64_exact [of "numeral n" 0] round64_exact [of "- numeral n" 0] by simp_all

lemma round64_1 [f64_eval]: "round64 1 = Fin 1" "round64 (- 1) = Fin (- 1)"
  using round64_exact [of 1 0] round64_exact [of "-1" 0] by simp_all

lemma round64_dyadic:
  "(numeral n :: int) < 2 ^ 53 \<Longrightarrow> j < 1000 \<Longrightarrow> round64 (numeral n / 2 ^ j) = Fin (numeral n / 2 ^ j)"
  "(numeral n :: int) < 2 ^ 53 \<Longrightarrow> j < 1000 \<Longrightarrow> round64 (- (numeral n / 2 ^ j)) = Fin (- (numeral n / 2 ^ j))"
  "j < 1000 \<Longrightarrow> round64 (1 / 2 ^ j) = Fin (1 / 2 ^ j)"
  "j < 1000 \<Longrightarrow> round64 (- (1 / 2 ^ j)) = Fin (- (1 / 2 ^ j))"
  using round64_exact [of "numeral n" "- int j"] round64_exact [of "- numeral n" "- int j"]
    round64_exact [of 1 "- int j"] round64_exact [of "- 1" "- int j"]
  by (simp_all add: power_int_minus divide_inverse)

lemmas round64_dyadics [f64_eval] =
  round64_dyadic [where j = 1, simplified] round64_dyadic [where j = 2, simplified]
  round64_dyadic [where j = 3, simplified] round64_dyadic [where j = 4, simplified]
  round64_dyadic [where j = 5, simplified] round64_dyadic [where j = 6, simplified]
  round64_dyadic [where j = 7, simplified] round64_dyadic [where j = 8, simplified]


text \<open>
  A decimal literal that is not dyadic: its binary exponent and its mantissa, checked by
  evaluation.
\<close>

lemma round64_eqI:
  assumes "pow2 e \<le> q" "q < pow2 (e + 1)" "- 1022 \<le> e" "e \<le> 1000" "rne (q / pow2 (e - 52)) = k"
    and "k \<le> 2 ^ 53"
  shows "round64 q = Fin (of_int k * pow2 (e - 52))"
proof -
  have q: "0 < q" using assms(1) pow2_pos [of e] by linarith
  have "ilog2 q = e" by (rule ilog2_unique [OF assms(1,2)])
  then have r: "round_pos q = of_int k * pow2 (e - 52)"
    using assms(3,5) by (simp add: round_pos_def ulp_exp_def)
  have "of_int k * pow2 (e - 52) \<le> of_int (2 ^ 53) * pow2 (e - 52)"
    using assms(6) by (intro mult_right_mono) (simp_all only: of_int_le_iff, simp)
  also have "\<dots> = pow2 53 * pow2 (e - 52)" by simp
  also have "\<dots> = pow2 (53 + (e - 52))" by (subst power_int_add) simp_all
  also have "\<dots> < f64_limit" using assms(4) unfolding f64_limit_def by (simp only: pow2_mono_iff)
  finally show ?thesis using q r by (simp add: round64_pos)
qed

lemma pow2_neg_numeral [f64_eval]: "pow2 (- numeral n) = 1 / 2 ^ numeral n"
  by (simp only: power_int_minus_divide power_int_numeral)

lemma floor_ratio_numeral [f64_eval]: "\<lfloor>numeral a / numeral b :: rat\<rfloor> = numeral a div numeral b"
  using floor_divide_of_int_eq [of "numeral a" "numeral b", where ?'a = rat] by simp

lemmas f64_ops = f_add_def f_sub_def f_mul_def f_div_def f_lit_def f_of_int_def
  math_Max_def math_Min_def math_Abs_def f_lt_def f_le_def f_eq_def f_zero_def f_inf_def

lemma f_lit_09: "f_lit (9/10) = Fin (8106479329266893 / 9007199254740992)"
  using round64_eqI [of "- 1" "9/10" 8106479329266893]
  by (simp add: f64_eval rne_def f_lit_def)

end
