(* ===== verification/Go_Strings.thy ===== *)
theory Go_Strings
  imports Prelude "HOL-Library.Sublist"
begin

text \<open>
  The part of Go's packages \<open>strings\<close> and \<open>fmt\<close> the program uses. A Go string is a sequence
  of bytes, so it is a \<open>string\<close> (a list of 8-bit characters). The functions with a separator
  or a cut set are modelled for the one-byte arguments the program passes.
\<close>

section \<open>Splitting and joining\<close>

text \<open>\<open>strings.Split(s, sep)\<close> for a one-byte separator: the pieces between separators, at least one.\<close>

fun strings_Split :: "char \<Rightarrow> string \<Rightarrow> string list" where
  "strings_Split c [] = [[]]"
| "strings_Split c (x # xs) =
     (if x = c then [] # strings_Split c xs
      else (case strings_Split c xs of [] \<Rightarrow> [[x]] | p # ps \<Rightarrow> (x # p) # ps))"

fun strings_Join :: "string list \<Rightarrow> string \<Rightarrow> string" where
  "strings_Join [] sep = []"
| "strings_Join [p] sep = p"
| "strings_Join (p # ps) sep = p @ sep @ strings_Join ps sep"

lemma strings_Split_not_Nil [simp]: "strings_Split c s \<noteq> []"
  by (induction s) (auto split: list.split)

lemma strings_Split_free [simp]: "c \<notin> set s \<Longrightarrow> strings_Split c s = [s]"
  by (induction s) auto

lemma strings_Split_append [simp]:
  "c \<notin> set s \<Longrightarrow> strings_Split c (s @ c # t) = s # strings_Split c t"
  by (induction s) auto

lemma hd_strings_Split_append: "hd (strings_Split c (s @ c # t)) = hd (strings_Split c s)"
  by (induction s) (auto split: list.split)

lemma strings_Split_pieces: "p \<in> set (strings_Split c s) \<Longrightarrow> c \<notin> set p"
  by (induction s arbitrary: p) (auto split: list.splits if_splits)

lemma strings_Join_Cons: "ps \<noteq> [] \<Longrightarrow> strings_Join (p # ps) sep = p @ sep @ strings_Join ps sep"
  by (cases ps) auto

lemma strings_Join_Split [simp]: "strings_Join (strings_Split c s) [c] = s"
proof (induction s)
  case (Cons x xs)
  show ?case
  proof (cases "x = c")
    case False
    obtain p ps where "strings_Split c xs = p # ps"
      using strings_Split_not_Nil [of c xs] by (cases "strings_Split c xs") auto
    with Cons False show ?thesis by (cases ps) auto
  qed (use Cons in \<open>simp add: strings_Join_Cons\<close>)
qed simp

lemma strings_Split_Join:
  "ps \<noteq> [] \<Longrightarrow> \<forall>p \<in> set ps. c \<notin> set p \<Longrightarrow> strings_Split c (strings_Join ps [c]) = ps"
proof (induction ps)
  case (Cons p ps)
  then show ?case by (cases "ps = []") (simp_all add: strings_Join_Cons)
qed simp

text \<open>\<open>strings.Cut(s, sep)\<close>: the text before and after the first separator, if there is one.\<close>

fun strings_Cut :: "char \<Rightarrow> string \<Rightarrow> string \<times> string \<times> bool" where
  "strings_Cut c [] = ([], [], False)"
| "strings_Cut c (x # xs) =
     (if x = c then ([], xs, True)
      else (case strings_Cut c xs of (a, b, ok) \<Rightarrow> (x # a, b, ok)))"

lemma strings_Cut_append [simp]: "c \<notin> set a \<Longrightarrow> strings_Cut c (a @ c # b) = (a, b, True)"
  by (induction a) auto

lemma strings_Cut_free [simp]: "c \<notin> set a \<Longrightarrow> strings_Cut c a = (a, [], False)"
  by (induction a) auto

lemma strings_Cut_ok: "strings_Cut c s = (a, b, True) \<Longrightarrow> s = a @ c # b \<and> c \<notin> set a"
  by (induction s arbitrary: a) (auto split: if_splits prod.splits)

section \<open>Prefixes, suffixes, replacement\<close>

definition strings_HasPrefix :: "string \<Rightarrow> string \<Rightarrow> bool" where
  "strings_HasPrefix s p \<longleftrightarrow> prefix p s"

definition strings_HasSuffix :: "string \<Rightarrow> string \<Rightarrow> bool" where
  "strings_HasSuffix s p \<longleftrightarrow> suffix p s"

definition strings_TrimPrefix :: "string \<Rightarrow> string \<Rightarrow> string" where
  "strings_TrimPrefix s p = (if prefix p s then drop (length p) s else s)"

fun strings_Contains :: "string \<Rightarrow> string \<Rightarrow> bool" where
  "strings_Contains [] p = (p = [])"
| "strings_Contains (x # xs) p = (prefix p (x # xs) \<or> strings_Contains xs p)"

text \<open>\<open>strings.ReplaceAll(s, old, new)\<close> for a one-byte \<open>old\<close>.\<close>

definition strings_ReplaceAll :: "string \<Rightarrow> char \<Rightarrow> string \<Rightarrow> string" where
  "strings_ReplaceAll s c r = concat (map (\<lambda>x. if x = c then r else [x]) s)"

lemma strings_Contains_iff: "strings_Contains s p \<longleftrightarrow> sublist p s"
  by (induction s) (auto simp: sublist_Cons_right)

section \<open>Trimming\<close>

text \<open>\<open>strings.TrimLeft(s, cut)\<close> and \<open>strings.Trim(s, cut)\<close> for a one-byte cut set.\<close>

definition strings_TrimLeft :: "string \<Rightarrow> char \<Rightarrow> string" where
  "strings_TrimLeft s c = dropWhile (\<lambda>x. x = c) s"

definition strings_Trim :: "string \<Rightarrow> char \<Rightarrow> string" where
  "strings_Trim s c = rev (dropWhile (\<lambda>x. x = c) (rev (dropWhile (\<lambda>x. x = c) s)))"

text \<open>
  \<open>strings.TrimSpace\<close> removes Unicode white space at both ends. The list holds the UTF-8
  encodings of the code points with the White Space property: six ASCII ones, U+0085, U+00A0,
  U+1680, U+2000 to U+200A, U+2028, U+2029, U+202F, U+205F, U+3000. Matching a suffix against
  the encodings finds the same rune as decoding the last rune of the text.
\<close>

definition space_runes :: "string list" where
  "space_runes =
     [[CHR 0x09], [CHR 0x0A], [CHR 0x0B], [CHR 0x0C], [CHR 0x0D], [CHR 0x20],
      [CHR 0xC2, CHR 0x85], [CHR 0xC2, CHR 0xA0], [CHR 0xE1, CHR 0x9A, CHR 0x80],
      [CHR 0xE2, CHR 0x80, CHR 0x80], [CHR 0xE2, CHR 0x80, CHR 0x81], [CHR 0xE2, CHR 0x80, CHR 0x82],
      [CHR 0xE2, CHR 0x80, CHR 0x83], [CHR 0xE2, CHR 0x80, CHR 0x84], [CHR 0xE2, CHR 0x80, CHR 0x85],
      [CHR 0xE2, CHR 0x80, CHR 0x86], [CHR 0xE2, CHR 0x80, CHR 0x87], [CHR 0xE2, CHR 0x80, CHR 0x88],
      [CHR 0xE2, CHR 0x80, CHR 0x89], [CHR 0xE2, CHR 0x80, CHR 0x8A], [CHR 0xE2, CHR 0x80, CHR 0xA8],
      [CHR 0xE2, CHR 0x80, CHR 0xA9], [CHR 0xE2, CHR 0x80, CHR 0xAF], [CHR 0xE2, CHR 0x81, CHR 0x9F],
      [CHR 0xE3, CHR 0x80, CHR 0x80]]"

fun strip_one :: "string list \<Rightarrow> string \<Rightarrow> string option" where
  "strip_one [] s = None"
| "strip_one (w # ws) s =
     (if w \<noteq> [] \<and> prefix w s then Some (drop (length w) s) else strip_one ws s)"

lemma strip_one_shorter: "strip_one ws s = Some t \<Longrightarrow> length t < length s"
  by (induction ws) (auto split: if_splits simp: prefix_def)

lemma strip_one_None: "strip_one ws s = None \<longleftrightarrow> (\<forall>w \<in> set ws. w \<noteq> [] \<longrightarrow> \<not> prefix w s)"
  by (induction ws) auto

function strip_runes :: "string list \<Rightarrow> string \<Rightarrow> string" where
  "strip_runes ws s = (case strip_one ws s of None \<Rightarrow> s | Some t \<Rightarrow> strip_runes ws t)"
  by pat_completeness auto
termination
  by (relation "measure (\<lambda>(ws, s). length s)") (auto dest: strip_one_shorter)

declare strip_runes.simps [simp del]

definition strings_TrimSpace :: "string \<Rightarrow> string" where
  "strings_TrimSpace s = rev (strip_runes (map rev space_runes) (rev (strip_runes space_runes s)))"

lemma strip_one_strip_runes [simp]: "strip_one ws (strip_runes ws s) = None"
  by (induction ws s rule: strip_runes.induct)
    (subst strip_runes.simps, simp split: option.split)

lemma strip_runes_fix: "strip_one ws s = None \<Longrightarrow> strip_runes ws s = s"
  by (subst strip_runes.simps) simp

lemma strip_one_suffix: "strip_one ws s = Some t \<Longrightarrow> suffix t s"
  by (induction ws) (auto split: if_splits simp: suffix_drop)

lemma strip_runes_suffix: "suffix (strip_runes ws s) s"
proof (induction ws s rule: strip_runes.induct)
  case (1 ws s)
  show ?case
  proof (cases "strip_one ws s")
    case (Some t)
    with 1 have "suffix (strip_runes ws t) t" by blast
    with Some show ?thesis
      by (subst strip_runes.simps) (auto dest: strip_one_suffix intro: suffix_order.trans)
  qed (simp add: strip_runes_fix)
qed

text \<open>Trimming twice is trimming once.\<close>

lemma strings_TrimSpace_idem [simp]: "strings_TrimSpace (strings_TrimSpace s) = strings_TrimSpace s"
proof -
  define u where "u = strip_runes space_runes s"
  define v where "v = strings_TrimSpace s"
  have v: "v = rev (strip_runes (map rev space_runes) (rev u))"
    by (simp add: v_def u_def strings_TrimSpace_def)
  have "prefix v u"
    unfolding v using strip_runes_suffix [of "map rev space_runes" "rev u"]
    by (simp add: suffix_to_prefix)
  moreover have "strip_one space_runes u = None" by (simp add: u_def)
  ultimately have "strip_one space_runes v = None"
    by (auto simp: strip_one_None intro: prefix_order.trans)
  then have "strip_runes space_runes v = v" by (rule strip_runes_fix)
  then show ?thesis
    by (simp add: strings_TrimSpace_def [of v] flip: v_def) (simp add: v strip_runes_fix)
qed

lemma strings_TrimSpace_Nil [simp, go_eval]: "strings_TrimSpace [] = []"
  by (simp add: strings_TrimSpace_def strip_runes_fix strip_one_None)

text \<open>
  Text that neither starts nor ends with a byte that can be part of white space is unchanged:
  the evaluation rule for identifiers.
\<close>

definition plain_char :: "char \<Rightarrow> bool" where
  "plain_char c \<longleftrightarrow> CHR 0x21 \<le> c \<and> c \<le> CHR 0x7E"

lemma strip_one_plain:
  assumes "s \<noteq> []" "plain_char (hd s)" "\<forall>w \<in> set ws. w \<noteq> [] \<longrightarrow> \<not> plain_char (hd w)"
  shows "strip_one ws s = None"
  using assms by (cases s) (auto simp: strip_one_None prefix_def Cons_eq_append_conv)

lemma strings_TrimSpace_plain [go_eval]:
  assumes "s \<noteq> []" "plain_char (hd s)" "plain_char (last s)"
  shows "strings_TrimSpace s = s"
proof -
  have "strip_one space_runes s = None"
    using assms by (intro strip_one_plain) (auto simp: space_runes_def plain_char_def less_eq_char_def)
  moreover have "strip_one (map rev space_runes) (rev s) = None"
    using assms by (intro strip_one_plain)
      (auto simp: space_runes_def plain_char_def less_eq_char_def hd_rev)
  ultimately show ?thesis by (simp add: strings_TrimSpace_def strip_runes_fix)
qed

section \<open>Decimal numbers\<close>

text \<open>The verb \<open>%d\<close> of package \<open>fmt\<close>.\<close>

fun nat_str :: "nat \<Rightarrow> string" where
  "nat_str n =
     (if n < 10 then [char_of (48 + n)] else nat_str (n div 10) @ [char_of (48 + n mod 10)])"

declare nat_str.simps [simp del]

definition fmt_d :: "int \<Rightarrow> string" where
  "fmt_d i = (if i < 0 then ''-'' @ nat_str (nat (- i)) else nat_str (nat i))"

text \<open>Zeros in front of a number, up to a width.\<close>

definition pad_left :: "nat \<Rightarrow> string \<Rightarrow> string" where
  "pad_left n s = replicate (n - length s) (CHR ''0'') @ s"

definition str_nat :: "string \<Rightarrow> nat" where
  "str_nat s = foldl (\<lambda>n c. 10 * n + (of_char c - 48)) 0 s"

lemma str_nat_nat_str [simp]: "str_nat (nat_str n) = n"
proof (induction n rule: nat_str.induct)
  case (1 n)
  show ?case
  proof (cases "n < 10")
    case True
    then show ?thesis by (subst nat_str.simps) (simp add: str_nat_def)
  next
    case False
    with 1 have "str_nat (nat_str (n div 10)) = n div 10" by blast
    with False show ?thesis by (subst nat_str.simps) (simp add: str_nat_def)
  qed
qed

lemma nat_str_inj [simp]: "nat_str m = nat_str n \<longleftrightarrow> m = n"
  by (metis str_nat_nat_str)

lemma nat_str_digits: "\<forall>c \<in> set (nat_str n). \<exists>d < 10 :: nat. c = char_of (48 + d)"
proof (induction n rule: nat_str.induct)
  case (1 n)
  show ?case
  proof (cases "n < 10")
    case True
    then show ?thesis by (subst nat_str.simps) auto
  next
    case False
    have "\<exists>d < 10 :: nat. char_of (48 + n mod 10) = (char_of (48 + d) :: char)" by (rule exI [of _ "n mod 10"]) simp
    with False 1 show ?thesis by (subst nat_str.simps) auto
  qed
qed

end
