(* ===== verification/Go_Time.thy ===== *)
theory Go_Time
  imports Prelude Go_Float Go_Strings
begin

text \<open>
  The part of Go's package \<open>time\<close> the program uses. A \<open>time.Time\<close> is its instant: the number
  of nanoseconds since January 1 of year 1, UTC, so that the zero value of the type is 0. A
  \<open>time.Duration\<close> is a number of nanoseconds in the \<open>int64\<close> range. A call of \<open>time.Now\<close> is an
  input of the function that makes it: each reading is an argument.

  The wall clock of a time depends on its location. Functions that read it take the offset of
  the zone from UTC in seconds, as a function of the instant.
\<close>

type_synonym time = int
type_synonym duration = int
type_synonym zone = "time \<Rightarrow> int"

abbreviation Second :: duration where "Second \<equiv> 1000000000"
abbreviation Minute :: duration where "Minute \<equiv> 60000000000"

text \<open>Seconds from the zero time to the Unix epoch.\<close>

abbreviation unix_to_internal :: int where "unix_to_internal \<equiv> 62135596800"

definition time_IsZero :: "time \<Rightarrow> bool" where
  "time_IsZero t \<longleftrightarrow> t = 0"

text \<open>\<open>time.Unix(sec, 0)\<close>: the internal second count is an \<open>int64\<close> sum that wraps.\<close>

definition time_Unix :: "int \<Rightarrow> time" where
  "time_Unix s = wrap64 (s + unix_to_internal) * Second"

text \<open>The methods \<open>Unix\<close> and \<open>UnixNano\<close>.\<close>

definition time_unix_sec :: "time \<Rightarrow> int" where
  "time_unix_sec t = wrap64 (t div Second - unix_to_internal)"

definition time_unix_nano :: "time \<Rightarrow> int" where
  "time_unix_nano t = wrap64 (t - unix_to_internal * Second)"

text \<open>\<open>t.Sub(u)\<close> saturates at the ends of the range of a duration.\<close>

definition time_Sub :: "time \<Rightarrow> time \<Rightarrow> duration" where
  "time_Sub t u = sat64 (t - u)"

definition time_Add :: "time \<Rightarrow> duration \<Rightarrow> time" where
  "time_Add t d = t + d"

text \<open>\<open>t.Truncate(d)\<close> rounds down to a multiple of \<open>d\<close> since the zero time.\<close>

definition time_Truncate :: "time \<Rightarrow> duration \<Rightarrow> time" where
  "time_Truncate t d = (if d \<le> 0 then t else t - t mod d)"

definition time_Hour :: "zone \<Rightarrow> time \<Rightarrow> int" where
  "time_Hour z t = (t div Second + z t) mod 86400 div 3600"

definition time_Minute :: "zone \<Rightarrow> time \<Rightarrow> int" where
  "time_Minute z t = (t div Second + z t) mod 3600 div 60"

text \<open>
  The date of a time on the wall clock, in the proleptic Gregorian calendar: the days are counted
  from March 1 of year 0, so that a leap day ends its year of 365 or 366 days, its cycle of four
  years, its century and its era of 400 years.
\<close>

definition time_Date :: "zone \<Rightarrow> time \<Rightarrow> int \<times> int \<times> int" where
  "time_Date z t =
     (let days = (t div Second + z t) div 86400 + 306;
          era = days div 146097; doe = days mod 146097;
          yoe = (doe - doe div 1460 + doe div 36524 - doe div 146096) div 365;
          doy = doe - (365 * yoe + yoe div 4 - yoe div 100);
          mp = (5 * doy + 2) div 153;
          month = (if mp < 10 then mp + 3 else mp - 9) in
      (yoe + era * 400 + (if month \<le> 2 then 1 else 0), month, doy - (153 * mp + 2) div 5 + 1))"

text \<open>\<open>Format("20060102150405")\<close> and the same with the fraction ".000000000".\<close>

definition time_FormatSec :: "zone \<Rightarrow> time \<Rightarrow> string" where
  "time_FormatSec z t =
     (case time_Date z t of (y, m, d) \<Rightarrow>
        (if y < 0 then ''-'' else []) @ pad_left 4 (nat_str (nat \<bar>y\<bar>)) @
        concat (map (\<lambda>i. pad_left 2 (nat_str (nat i)))
          [m, d, time_Hour z t, time_Minute z t, (t div Second + z t) mod 60]))"

definition time_FormatNano :: "zone \<Rightarrow> time \<Rightarrow> string" where
  "time_FormatNano z t = time_FormatSec z t @ ''.'' @ pad_left 9 (nat_str (nat (t mod Second)))"

text \<open>\<open>d.Seconds()\<close>.\<close>

definition dur_Seconds :: "duration \<Rightarrow> float64" where
  "dur_Seconds d =
     f_add (f_of_int (go_div d Second)) (f_div (f_of_int (go_mod d Second)) (f_lit 1000000000))"

lemma time_Unix_id: "int64_ok (s + unix_to_internal) \<Longrightarrow> time_Unix s = (s + unix_to_internal) * Second"
  by (simp add: time_Unix_def)

lemma time_Hour_range: "0 \<le> time_Hour z t \<and> time_Hour z t < 24"
proof -
  define m where "m = (t div Second + z t) mod 86400"
  have "0 \<le> m" "m < 86400" by (simp_all add: m_def)
  then have "0 \<le> m div 3600 \<and> m div 3600 < 24" by linarith
  then show ?thesis by (simp add: time_Hour_def flip: m_def)
qed

lemma time_Truncate_bounds: "0 < d \<Longrightarrow> time_Truncate t d \<le> t \<and> t < time_Truncate t d + d"
  by (simp add: time_Truncate_def add.commute pos_mod_bound)

text \<open>Truncating a float between two neighbouring integers.\<close>

lemma f_to_int64_between:
  assumes "Q (of_int k) \<le> f_key y" "f_key y < Q (of_int k + 1)" "y \<noteq> NaN" "0 \<le> k" "k < 2 ^ 63"
  shows "f_to_int64 y = k"
proof (cases y)
  case (Fin v)
  with assms have v: "of_int k \<le> v" "v < of_int k + 1" by auto
  then have "\<lfloor>v\<rfloor> = k" by (intro floor_unique) auto
  moreover have "\<not> v < 0" using v assms(4) of_int_0_le_iff [of k, where ?'a = rat] by linarith
  ultimately show ?thesis using assms by (simp add: Fin)
next
  case NZero
  with assms have "k = 0" by simp
  with NZero show ?thesis by simp
qed (use assms in auto)

text \<open>The fraction of a second, as a float, stays below the last 30-bit step before 1.\<close>

definition sec_frac_max :: rat where
  "sec_frac_max = of_int (2 ^ 30 - 1) * pow2 (- 30)"

lemma sec_frac_max:
  "round64 sec_frac_max = Fin sec_frac_max" "sec_frac_max < 1" "999999999 / 1000000000 \<le> sec_frac_max"
  unfolding sec_frac_max_def by (rule round64_exact) (simp_all add: f64_eval)

lemma nanos_frac:
  assumes "0 \<le> n" "n \<le> 999999999"
  defines "x \<equiv> f_div (f_of_int n) (f_lit 1000000000)"
  shows "f_isfin x" "0 \<le> f_rat x" "f_rat x \<le> sec_frac_max"
proof -
  have lit: "f_lit 1000000000 = Fin 1000000000" by (simp add: f_lit_def f64_eval)
  have x: "x = round64 (of_int n / 1000000000)"
    using assms by (auto simp: lit f_of_int_exact f_div_def f_zero_def)
  have "f_key x \<le> Q sec_frac_max"
    unfolding x using round64_mono [of "of_int n / 1000000000" sec_frac_max] sec_frac_max assms(2)
    by simp
  moreover have "Q 0 \<le> f_key x"
    unfolding x using assms by (intro f_key_round64_nonneg) simp
  moreover have "x \<noteq> NaN" by (simp add: x)
  ultimately show "f_isfin x" "0 \<le> f_rat x" "f_rat x \<le> sec_frac_max" by (cases x; simp)+
qed

text \<open>
  Whole seconds of a duration: up to \<open>2 ^ 22\<close> seconds (48 days) the float sum loses nothing
  that the truncation of \<open>int64(d.Seconds())\<close> would show.
\<close>

lemma dur_Seconds_trunc:
  assumes "0 \<le> d" "d < 2 ^ 22 * Second"
  shows "f_to_int64 (dur_Seconds d) = d div Second"
proof -
  let ?s = "d div Second"
  define x where "x = f_div (f_of_int (d mod Second)) (f_lit 1000000000)"
  have s: "0 \<le> ?s" "?s < 2 ^ 22" using assms by auto
  have n: "0 \<le> d mod Second" "d mod Second \<le> 999999999" by (auto simp: zle_diff1_eq [symmetric])
  note fin = nanos_frac [OF n, folded x_def]
  let ?y = "f_add (Fin (of_int ?s)) x"
  have sum: "dur_Seconds d = ?y"
    using assms s by (simp add: dur_Seconds_def go_div_nonneg go_mod_nonneg x_def f_of_int_exact)
  have key: "f_key ?y = f_key (round64 (of_int ?s + f_rat x))" "?y \<noteq> NaN"
    using f_add_fin [of "Fin (of_int ?s)" x] fin by auto
  have "round64 (of_int ?s) = Fin (of_int ?s)" using s round64_exact [of ?s 0] by simp
  with round64_mono [of "of_int ?s" "of_int ?s + f_rat x"] fin
  have lo: "Q (of_int ?s) \<le> f_key ?y" by (simp add: key)
  have top: "of_int ?s + sec_frac_max = of_int (?s * 2 ^ 30 + (2 ^ 30 - 1)) * pow2 (- 30)"
    by (simp add: sec_frac_max_def f64_eval algebra_simps)
  have "round64 (of_int ?s + sec_frac_max) = Fin (of_int ?s + sec_frac_max)"
    unfolding top using s by (intro round64_exact) auto
  with round64_mono [of "of_int ?s + f_rat x" "of_int ?s + sec_frac_max"] fin
  have "f_key ?y \<le> Q (of_int ?s + sec_frac_max)" by (simp add: key)
  also have "\<dots> < Q (of_int ?s + 1)" using sec_frac_max by simp
  finally show ?thesis using lo key s by (simp add: sum f_to_int64_between)
qed

end
