(* ===== verification/Go_Json.thy ===== *)
theory Go_Json
  imports Go_Strings Go_Float
begin

text \<open>
  Dynamic values (\<open>interface{}\<close> as package \<open>encoding/json\<close> fills it) and \<open>json.Marshal\<close> on
  them: the text of a \<open>map[string]interface{}\<close>, with sorted keys, HTML escaping and the shortest
  decimal form of a number that reads back as the same \<open>float64\<close>.
\<close>

section \<open>Dynamic values\<close>

text \<open>
  A map is the list of its entries in increasing order of the keys; \<open>None\<close> is the nil map.
\<close>

datatype gany =
    GNil
  | GBool bool
  | GNum float64
  | GStr string
  | GArr "gany list"
  | GMap "(string \<times> gany) list"

type_synonym gmap = "(string \<times> gany) list option"

definition gmap_get :: "gmap \<Rightarrow> string \<Rightarrow> gany option" where
  "gmap_get m k = (case m of None \<Rightarrow> None | Some es \<Rightarrow> map_of es k)"

section \<open>Strings\<close>

abbreviation byte_of :: "char \<Rightarrow> nat" where "byte_of c \<equiv> of_char c"

definition is_cont :: "char \<Rightarrow> bool" where
  "is_cont c \<longleftrightarrow> 0x80 \<le> byte_of c \<and> byte_of c \<le> 0xBF"

text \<open>The length of the first rune of a text, or 0 where its first byte starts no valid rune.\<close>

fun rune_len :: "string \<Rightarrow> nat" where
  "rune_len [] = 0"
| "rune_len (a # s) =
     (let x = byte_of a in
      if x < 0x80 then 1
      else if 0xC2 \<le> x \<and> x \<le> 0xDF then
        (case s of b # _ \<Rightarrow> if is_cont b then 2 else 0 | _ \<Rightarrow> 0)
      else if 0xE0 \<le> x \<and> x \<le> 0xEF then
        (case s of b # c # _ \<Rightarrow>
           if is_cont b \<and> is_cont c \<and> (x = 0xE0 \<longrightarrow> 0xA0 \<le> byte_of b) \<and> (x = 0xED \<longrightarrow> byte_of b \<le> 0x9F)
           then 3 else 0
         | _ \<Rightarrow> 0)
      else if 0xF0 \<le> x \<and> x \<le> 0xF4 then
        (case s of b # c # d # _ \<Rightarrow>
           if is_cont b \<and> is_cont c \<and> is_cont d \<and> (x = 0xF0 \<longrightarrow> 0x90 \<le> byte_of b) \<and>
             (x = 0xF4 \<longrightarrow> byte_of b \<le> 0x8F)
           then 4 else 0
         | _ \<Rightarrow> 0)
      else 0)"

definition hex_digit :: "nat \<Rightarrow> char" where
  "hex_digit n = ''0123456789abcdef'' ! (n mod 16)"

definition esc_ascii :: "char \<Rightarrow> string" where
  "esc_ascii c =
     (let x = byte_of c in
      if c = CHR 0x22 \<or> c = CHR 0x5C then [CHR 0x5C, c]
      else if x = 0x08 then [CHR 0x5C, CHR ''b'']
      else if x = 0x0C then [CHR 0x5C, CHR ''f'']
      else if x = 0x0A then [CHR 0x5C, CHR ''n'']
      else if x = 0x0D then [CHR 0x5C, CHR ''r'']
      else if x = 0x09 then [CHR 0x5C, CHR ''t'']
      else if x < 0x20 \<or> c = CHR ''<'' \<or> c = CHR ''>'' \<or> c = CHR ''&'' then
        [CHR 0x5C, CHR ''u'', CHR ''0'', CHR ''0'', hex_digit (x div 16), hex_digit x]
      else [c])"

function json_escape :: "string \<Rightarrow> string" where
  "json_escape [] = []"
| "json_escape (c # s) =
     (let n = rune_len (c # s); r = take n (c # s) in
      if n = 0 then [CHR 0x5C] @ ''ufffd'' @ json_escape s
      else if n = 1 then esc_ascii c @ json_escape s
      else if r = [CHR 0xE2, CHR 0x80, CHR 0xA8] then [CHR 0x5C] @ ''u2028'' @ json_escape (drop n (c # s))
      else if r = [CHR 0xE2, CHR 0x80, CHR 0xA9] then [CHR 0x5C] @ ''u2029'' @ json_escape (drop n (c # s))
      else r @ json_escape (drop n (c # s)))"
  by pat_completeness auto
termination
  by (relation "measure length") (auto simp: Let_def)

declare json_escape.simps [simp del]

definition json_string :: "string \<Rightarrow> string" where
  "json_string s = [CHR 0x22] @ json_escape s @ [CHR 0x22]"

text \<open>A text of plain ASCII characters needs no escaping.\<close>

definition json_plain :: "char \<Rightarrow> bool" where
  "json_plain c \<longleftrightarrow> 0x20 \<le> byte_of c \<and> byte_of c < 0x80 \<and>
     c \<noteq> CHR 0x22 \<and> c \<noteq> CHR 0x5C \<and> c \<noteq> CHR ''<'' \<and> c \<noteq> CHR ''>'' \<and> c \<noteq> CHR ''&''"

lemma json_escape_plain [go_eval]: "\<forall>c \<in> set s. json_plain c \<Longrightarrow> json_escape s = s"
  by (induction s) (simp_all add: json_escape.simps json_plain_def esc_ascii_def Let_def)

section \<open>Numbers\<close>

text \<open>
  The shortest decimal that reads back as the same float: the least number of digits for which
  a decimal next to the value rounds to it, the nearer one if both neighbours do. The result is
  the digits and the decimal exponent of the last one.
\<close>

definition pow10 :: "int \<Rightarrow> rat" where
  "pow10 e = 10 powi e"

definition ilog10 :: "rat \<Rightarrow> int" where
  "ilog10 q = (let e = int (length (nat_str (nat \<lfloor>q\<rfloor>))) - 1;
                   f = int (length (nat_str (nat \<lfloor>1 / q\<rfloor>))) in
               if 1 \<le> q then e else if pow10 (1 - f) \<le> q then 1 - f else - f)"

definition decimal_at :: "rat \<Rightarrow> nat \<Rightarrow> (int \<times> int) option" where
  "decimal_at q n =
     (let k = ilog10 q - int n + 1; lo = \<lfloor>q / pow10 k\<rfloor>;
          ok = (\<lambda>d. round64 (of_int d * pow10 k) = Fin q);
          near_lo = (q / pow10 k - of_int lo \<le> 1 / 2) in
      if ok lo \<and> (near_lo \<or> \<not> ok (lo + 1)) then Some (lo, k)
      else if ok (lo + 1) then Some (if lo + 1 = 10 ^ n then (1, k + int n) else (lo + 1, k)) else None)"

fun first_decimal :: "rat \<Rightarrow> nat list \<Rightarrow> int \<times> int" where
  "first_decimal q [] = (0, 0)"
| "first_decimal q (n # ns) = (case decimal_at q n of Some r \<Rightarrow> r | None \<Rightarrow> first_decimal q ns)"

definition shortest :: "rat \<Rightarrow> int \<times> int" where
  "shortest q = first_decimal q [1..<18]"

text \<open>The plain form (\<open>%f\<close>) and the exponent form (\<open>%e\<close>) of digits \<open>d\<close> with exponent \<open>k\<close>.\<close>

definition plain_form :: "int \<Rightarrow> int \<Rightarrow> string" where
  "plain_form d k =
     (let s = nat_str (nat d) in
      if 0 \<le> k then s @ replicate (nat k) (CHR ''0'')
      else let p = nat (- k); z = replicate (p + 1 - length s) (CHR ''0'') @ s in
        take (length z - p) z @ ''.'' @ drop (length z - p) z)"

definition exp_form :: "int \<Rightarrow> int \<Rightarrow> string" where
  "exp_form d k =
     (let s = nat_str (nat d); e = k + int (length s) - 1 in
      take 1 s @ (if length s = 1 then [] else ''.'' @ drop 1 s) @ ''e'' @
        (if e < 0 then ''-'' else ''+'') @ nat_str (nat \<bar>e\<bar>))"

definition json_pos :: "rat \<Rightarrow> string" where
  "json_pos q = (case shortest q of (d, k) \<Rightarrow>
     if q < pow10 (- 6) \<or> pow10 21 \<le> q then exp_form d k else plain_form d k)"

fun json_number :: "float64 \<Rightarrow> string option" where
  "json_number (Fin q) =
     Some (if q = 0 then ''0'' else if q < 0 then ''-'' @ json_pos (- q) else json_pos q)"
| "json_number NZero = Some ''-0''"
| "json_number _ = None"

section \<open>Values\<close>

text \<open>\<open>json.Marshal\<close>: \<open>None\<close> is the error for a NaN or an infinity somewhere in the value.\<close>

fun collect :: "string option list \<Rightarrow> string list option" where
  "collect [] = Some []"
| "collect (None # _) = None"
| "collect (Some x # xs) = map_option (Cons x) (collect xs)"

function json_Marshal :: "gany \<Rightarrow> string option" where
  "json_Marshal GNil = Some ''null''"
| "json_Marshal (GBool b) = Some (if b then ''true'' else ''false'')"
| "json_Marshal (GNum f) = json_number f"
| "json_Marshal (GStr s) = Some (json_string s)"
| "json_Marshal (GArr vs) =
     map_option (\<lambda>ps. ''['' @ strings_Join ps '','' @ '']'') (collect (map json_Marshal vs))"
| "json_Marshal (GMap es) =
     map_option (\<lambda>ps. ''{'' @ strings_Join ps '','' @ ''}'')
       (collect (map (\<lambda>e. map_option (\<lambda>p. json_string (fst e) @ '':'' @ p) (json_Marshal (snd e))) es))"
  by pat_completeness auto
termination
proof (relation "measure size")
  fix es :: "(string \<times> gany) list" and e
  assume "e \<in> set es"
  then show "(snd e, GMap es) \<in> measure size"
    by (induction es) auto
qed (auto simp: less_Suc_eq_le size_list_estimation')

definition marshal_gmap :: "gmap \<Rightarrow> string option" where
  "marshal_gmap m = (case m of None \<Rightarrow> Some ''null'' | Some es \<Rightarrow> json_Marshal (GMap es))"

end
