(* ===== verification/Model.thy ===== *)
theory Model
  imports Go_Time Go_Json
begin

text \<open>
  The data of internal/model/model.go: devices, telemetry, commands, events, audit logs, site
  summaries and the scheduler's policy. A struct is a record with the fields of the source, a
  pointer that may be nil is an option, \<open>map[string]float64\<close> is a map and
  \<open>map[string]interface{}\<close> a \<open>gmap\<close>. \<open>DeviceType\<close> is a string type: any text can occur, and
  the three constants of the source name the kinds the program treats.
\<close>

type_synonym DeviceType = string

definition DevicePV :: DeviceType where "DevicePV = ''pv''"
definition DeviceBattery :: DeviceType where "DeviceBattery = ''battery''"
definition DeviceLoad :: DeviceType where "DeviceLoad = ''load''"

lemmas device_types [go_eval] = DevicePV_def DeviceBattery_def DeviceLoad_def

lemma device_types_distinct [simp]:
  "DevicePV \<noteq> DeviceBattery" "DevicePV \<noteq> DeviceLoad" "DeviceBattery \<noteq> DeviceLoad"
  "DeviceBattery \<noteq> DevicePV" "DeviceLoad \<noteq> DevicePV" "DeviceLoad \<noteq> DeviceBattery"
  by (simp_all add: device_types)

record Device =
  d_ID :: string
  d_SiteID :: string
  d_Type :: DeviceType
  d_Name :: string
  d_RatedPowerW :: float64
  d_CapacityWh :: float64
  d_CriticalLoad :: bool
  d_CreatedAt :: time

text \<open>The zero value of the type, which failed lookups return beside \<open>false\<close>.\<close>

definition zero_Device :: Device where
  "zero_Device = \<lparr>d_ID = [], d_SiteID = [], d_Type = [], d_Name = [], d_RatedPowerW = Fin 0,
     d_CapacityWh = Fin 0, d_CriticalLoad = False, d_CreatedAt = 0\<rparr>"

record Telemetry =
  t_DeviceID :: string
  t_SiteID :: string
  t_Type :: DeviceType
  t_Timestamp :: int
  t_Metrics :: "string \<rightharpoonup> float64"
  t_State :: string
  t_Seq :: int

definition zero_Telemetry :: Telemetry where
  "zero_Telemetry = \<lparr>t_DeviceID = [], t_SiteID = [], t_Type = [], t_Timestamp = 0,
     t_Metrics = Map.empty, t_State = [], t_Seq = 0\<rparr>"

text \<open>Reading a missing key of a \<open>map[string]float64\<close> yields zero.\<close>

definition metric :: "(string \<rightharpoonup> float64) \<Rightarrow> string \<Rightarrow> float64" where
  "metric m k = (case m k of None \<Rightarrow> Fin 0 | Some v \<Rightarrow> v)"

record Command =
  c_CommandID :: string
  c_Action :: string
  c_Params :: gmap
  c_IssuedAt :: int
  c_Reason :: string

record CommandAck =
  a_CommandID :: string
  a_OK :: bool
  a_Error :: string
  a_Timestamp :: int

record CommandRecord =
  r_SiteID :: string
  r_DeviceID :: string
  r_DeviceType :: DeviceType
  r_Command :: Command
  r_Status :: string
  r_Ack :: "CommandAck option"
  r_UpdatedAt :: time

record DeviceEvent =
  e_EventID :: string
  e_SiteID :: string
  e_DeviceID :: string
  e_DeviceType :: DeviceType
  e_Severity :: string
  e_Code :: string
  e_Message :: string
  e_Details :: gmap
  e_Timestamp :: int
  e_CreatedAt :: time

record AuditLog =
  l_ID :: string
  l_OccurredAt :: time
  l_Actor :: string
  l_Action :: string
  l_Method :: string
  l_Path :: string
  l_StatusCode :: int
  l_ClientIP :: string
  l_UserAgent :: string
  l_Details :: gmap

record SiteSummary =
  s_SiteID :: string
  s_PVPowerW :: float64
  s_LoadPowerW :: float64
  s_BatteryPower :: float64
  s_NetPowerW :: float64
  s_AvgSOC :: float64
  s_LastUpdated :: time

definition zero_SiteSummary :: SiteSummary where
  "zero_SiteSummary = \<lparr>s_SiteID = [], s_PVPowerW = Fin 0, s_LoadPowerW = Fin 0,
     s_BatteryPower = Fin 0, s_NetPowerW = Fin 0, s_AvgSOC = Fin 0, s_LastUpdated = 0\<rparr>"

record DeviceRuntimeState =
  rs_Device :: Device
  rs_Telemetry :: "Telemetry option"
  rs_Online :: bool
  rs_LastSeenAt :: time
  rs_StaleForSec :: int

record Policy =
  p_BatteryMinSOC :: float64
  p_BatteryMaxSOC :: float64
  p_LoadShedThreshold :: float64

end
