(* ===== verification/Timeseries.thy ===== *)
theory Timeseries
  imports Model
begin

text \<open>
  internal/timeseries/influx.go: the point a telemetry becomes. The InfluxDB client is not modelled:
  the point is the arguments of \<open>NewPoint\<close> and of the calls of \<open>AddField\<close>, in the order \<open>ks\<close> of the
  loop over the metrics, and writing it is the client's answer.
\<close>

datatype field_value = FString string | FInt int | FFloat float64

record Point =
  pt_measurement :: string
  pt_tags :: "(string \<times> string) list"
  pt_fields :: "(string \<times> field_value) list"
  pt_added :: "(string \<times> field_value) list"
  pt_time :: time

record Writer =
  wr_org :: string
  wr_bucket :: string

definition NewWriter :: "string \<Rightarrow> string \<Rightarrow> Writer" where
  "NewWriter org bucket = \<lparr>wr_org = org, wr_bucket = bucket\<rparr>"

definition telemetry_point :: "time \<Rightarrow> string list \<Rightarrow> Telemetry \<Rightarrow> Point" where
  "telemetry_point now ks t =
     \<lparr>pt_measurement = (if t_Type t = [] then ''device'' else t_Type t),
      pt_tags = [(''site_id'', t_SiteID t), (''device_id'', t_DeviceID t)],
      pt_fields = [(''state'', FString (t_State t)), (''seq'', FInt (t_Seq t))],
      pt_added = List.map_filter (\<lambda>k. map_option (\<lambda>v. (k, FFloat v)) (t_Metrics t k)) ks,
      pt_time = (if t_Timestamp t = 0 then now else time_Unix (t_Timestamp t))\<rparr>"

definition WriteTelemetry ::
  "(string \<Rightarrow> string \<Rightarrow> Point \<Rightarrow> string option) \<Rightarrow> time \<Rightarrow> string list \<Rightarrow> Writer \<Rightarrow> Telemetry \<Rightarrow> string option" where
  "WriteTelemetry write_point now ks w t = write_point (wr_org w) (wr_bucket w) (telemetry_point now ks t)"

text \<open>Every metric becomes one field of the point, whatever the order of the loop.\<close>

lemma point_metrics:
  assumes "range_order (t_Metrics t) ks"
  shows "map_of (pt_added (telemetry_point now ks t)) k = map_option FFloat (t_Metrics t k)"
proof -
  have dist: "distinct ks" and dom: "set ks = dom (t_Metrics t)" using assms by (simp_all add: range_order_def)
  have "map_of (List.map_filter (\<lambda>k. map_option (\<lambda>v. (k, FFloat v)) (m k)) ks) k =
      (if k \<in> set ks then map_option FFloat (m k) else None)" for m
    using dist by (induction ks) (auto simp: List.map_filter_simps split: option.split)
  with dom show ?thesis by (cases "t_Metrics t k") (auto simp: telemetry_point_def)
qed

end
