(* ===== verification/Topic.thy ===== *)
theory Topic
  imports Model
begin

text \<open>
  internal/topic/topic.go: building and parsing MQTT topics. The round trips show that the
  topics the program publishes parse back to the fields they were built from, for fields
  without a slash.
\<close>

record Parsed =
  tp_SiteID :: string
  tp_DeviceType :: string
  tp_DeviceID :: string
  tp_Kind :: string

definition topic_Telemetry :: "string \<Rightarrow> string \<Rightarrow> string \<Rightarrow> string" where
  "topic_Telemetry siteID deviceType deviceID =
     ''vpp/'' @ siteID @ ''/'' @ deviceType @ ''/'' @ deviceID @ ''/telemetry''"

definition topic_Command :: "string \<Rightarrow> string \<Rightarrow> string \<Rightarrow> string" where
  "topic_Command siteID deviceType deviceID =
     ''vpp/'' @ siteID @ ''/'' @ deviceType @ ''/'' @ deviceID @ ''/command''"

definition topic_Wildcard :: "string \<Rightarrow> string" where
  "topic_Wildcard siteID = ''vpp/'' @ siteID @ ''/+/+/+''"

definition topic_CommandAckWildcard :: "string \<Rightarrow> string" where
  "topic_CommandAckWildcard siteID = ''vpp/'' @ siteID @ ''/+/+/command/ack''"

text \<open>\<open>Parse\<close>: \<open>None\<close> is the second result \<open>false\<close>.\<close>

definition topic_Parse :: "string \<Rightarrow> Parsed option" where
  "topic_Parse t =
     (let parts = strings_Split (CHR ''/'') t in
      if length parts < 5 \<or> parts ! 0 \<noteq> ''vpp'' then None
      else
        let p = \<lparr>tp_SiteID = parts ! 1, tp_DeviceType = parts ! 2, tp_DeviceID = parts ! 3,
                 tp_Kind = parts ! 4\<rparr> in
        Some (if length parts = 6 then p\<lparr>tp_Kind := parts ! 4 @ ''/'' @ parts ! 5\<rparr> else p))"

abbreviation slash_free :: "string \<Rightarrow> bool" where
  "slash_free s \<equiv> CHR ''/'' \<notin> set s"

text \<open>
  What a topic of five slash-free levels splits into; every topic the program builds has this
  shape, with the last level absent or present for \<open>command/ack\<close>.
\<close>

lemma split_topic:
  assumes "slash_free s" "slash_free t" "slash_free d"
  shows "strings_Split (CHR ''/'') (''vpp/'' @ s @ ''/'' @ t @ ''/'' @ d @ ''/'' @ k) =
    [''vpp'', s, t, d] @ strings_Split (CHR ''/'') k"
  using assms by simp

lemma topic_Parse_kind:
  assumes "slash_free s" "slash_free t" "slash_free d" "slash_free k"
  shows "topic_Parse (''vpp/'' @ s @ ''/'' @ t @ ''/'' @ d @ ''/'' @ k) =
    Some \<lparr>tp_SiteID = s, tp_DeviceType = t, tp_DeviceID = d, tp_Kind = k\<rparr>"
  unfolding topic_Parse_def split_topic [OF assms(1-3)] using assms by simp

lemma topic_Parse_kind2:
  assumes "slash_free s" "slash_free t" "slash_free d" "slash_free k" "slash_free l"
  shows "topic_Parse (''vpp/'' @ s @ ''/'' @ t @ ''/'' @ d @ ''/'' @ k @ ''/'' @ l) =
    Some \<lparr>tp_SiteID = s, tp_DeviceType = t, tp_DeviceID = d, tp_Kind = k @ ''/'' @ l\<rparr>"
proof -
  have "strings_Split (CHR ''/'') (k @ ''/'' @ l) = [k, l]" using assms by simp
  then show ?thesis
    unfolding topic_Parse_def split_topic [OF assms(1-3)] by simp
qed

lemma topic_Parse_Some:
  assumes "topic_Parse t = Some p"
  shows "slash_free (tp_SiteID p) \<and> slash_free (tp_DeviceType p) \<and> slash_free (tp_DeviceID p)"
  using assms strings_Split_pieces [of _ "CHR ''/''" t]
  by (auto simp: topic_Parse_def Let_def split: if_splits)

text \<open>What a successful parse says about the text: five or more levels, the first of them vpp.\<close>

lemma topic_Parse_shape:
  "topic_Parse t \<noteq> None \<longleftrightarrow> (\<exists>s d i ks. ks \<noteq> [] \<and> strings_Split (CHR ''/'') t = [''vpp'', s, d, i] @ ks)"
proof
  assume "topic_Parse t \<noteq> None"
  then have *: "5 \<le> length (strings_Split (CHR ''/'') t)" "strings_Split (CHR ''/'') t ! 0 = ''vpp''"
    by (auto simp: topic_Parse_def Let_def split: if_splits)
  then obtain a s d i k ks where "strings_Split (CHR ''/'') t = a # s # d # i # k # ks"
    by (auto simp: Suc_le_length_iff numeral_eq_Suc)
  with * show "\<exists>s d i ks. ks \<noteq> [] \<and> strings_Split (CHR ''/'') t = [''vpp'', s, d, i] @ ks" by auto
next
  assume "\<exists>s d i ks. ks \<noteq> [] \<and> strings_Split (CHR ''/'') t = [''vpp'', s, d, i] @ ks"
  then show "topic_Parse t \<noteq> None" by (auto simp: topic_Parse_def Let_def neq_Nil_conv)
qed

section \<open>Properties\<close>

text \<open>
  Topics round trip: the telemetry and command topics built for slash-free names parse back
  to those names with their kind, the topic a device acknowledges a command on parses with the
  kind command/ack, and what \<open>Parse\<close> returns never contains a slash in its site, type or id.
\<close>
theorem topic_round_trip:
  assumes "slash_free s" "slash_free t" "slash_free d"
  shows "topic_Parse (topic_Telemetry s t d) =
      Some \<lparr>tp_SiteID = s, tp_DeviceType = t, tp_DeviceID = d, tp_Kind = ''telemetry''\<rparr> \<and>
    topic_Parse (topic_Command s t d) =
      Some \<lparr>tp_SiteID = s, tp_DeviceType = t, tp_DeviceID = d, tp_Kind = ''command''\<rparr> \<and>
    topic_Parse (topic_Command s t d @ ''/ack'') =
      Some \<lparr>tp_SiteID = s, tp_DeviceType = t, tp_DeviceID = d, tp_Kind = ''command/ack''\<rparr> \<and>
    (\<forall>u p. topic_Parse u = Some p \<longrightarrow> slash_free (tp_SiteID p) \<and> slash_free (tp_DeviceType p) \<and> slash_free (tp_DeviceID p))"
  using topic_Parse_kind [OF assms, of "''telemetry''"] topic_Parse_kind [OF assms, of "''command''"]
    topic_Parse_kind2 [OF assms, of "''command''" "''ack''"] topic_Parse_Some
  by (simp add: topic_Telemetry_def topic_Command_def)

theorem topic_round_trip_witness:
  "topic_Parse ''vpp/site-1/pv/pv-1/telemetry'' =
     Some \<lparr>tp_SiteID = ''site-1'', tp_DeviceType = ''pv'', tp_DeviceID = ''pv-1'', tp_Kind = ''telemetry''\<rparr>"
  using conjunct1 [OF topic_round_trip, of "''site-1''" "''pv''" "''pv-1''"]
  by (simp add: topic_Telemetry_def)

end
