(* ===== verification/Store.thy ===== *)
theory Store
  imports Model "HOL-Library.Product_Lexorder"
begin

text \<open>
  internal/state/state.go: the in-memory state of the platform (devices, latest telemetry,
  recent commands and events) with its optional Redis mirror of the telemetry. Every method
  holds the store's mutex for its whole effect on the maps and slices, so it is one atomic
  function on the record \<open>Store\<close>; a read of the clock and the visiting order of a map loop are
  arguments. \<open>persistTelemetry\<close> runs after the mutex is released and acts on the Redis server
  alone, so it is a separate step.

  Redis is modelled by what its commands document: a database maps a key to a hash of fields,
  \<open>HSET\<close> stores a field, \<open>HGETALL\<close> returns all of them. Whether a command succeeds is an
  argument. The text of a telemetry value (\<open>json.Marshal\<close> and \<open>json.Unmarshal\<close> on the struct)
  is a pair of parameters.

  Contents: the operations; the invariant \<open>store_inv\<close> and that every operation keeps it; two
  interfaces, \<open>site_index\<close> (a map keyed by site and id, for devices and for telemetry) and
  \<open>bounded_log\<close> (a newest-first history, for commands and for events), with their
  interpretations on the store; the facts about summaries and device states.
\<close>

section \<open>State\<close>

type_synonym redis_db = "string \<rightharpoonup> (string \<rightharpoonup> string)"

record Store =
  devices :: "string \<rightharpoonup> Device"
  telemetry :: "string \<rightharpoonup> Telemetry"
  commands :: "CommandRecord list"
  events :: "DeviceEvent list"
  has_redis :: bool
  st_siteID :: string
  st_redisKey :: string

definition NewStore :: Store where
  "NewStore = \<lparr>devices = Map.empty, telemetry = Map.empty, commands = [], events = [],
     has_redis = False, st_siteID = [], st_redisKey = []\<rparr>"

definition telemetryKey :: "string \<Rightarrow> string" where
  "telemetryKey siteID = ''vpp:'' @ siteID @ '':latest_telemetry''"

definition stateKey :: "string \<Rightarrow> string \<Rightarrow> string" where
  "stateKey siteID i = siteID @ [CHR 0x00] @ i"

section \<open>Devices\<close>

definition UpsertDevice :: "time \<Rightarrow> Store \<Rightarrow> Device \<Rightarrow> Store" where
  "UpsertDevice now s d =
     (let d' = (if time_IsZero (d_CreatedAt d) then d\<lparr>d_CreatedAt := now\<rparr> else d) in
      s\<lparr>devices := (devices s)(stateKey (d_SiteID d') (d_ID d') \<mapsto> d')\<rparr>)"

definition Devices :: "string list \<Rightarrow> Store \<Rightarrow> Device list" where
  "Devices ks s = range_vals (devices s) ks"

definition deviceByIDLocked :: "string list \<Rightarrow> Store \<Rightarrow> string \<Rightarrow> Device option" where
  "deviceByIDLocked ks s i =
     (case foldl (\<lambda>(found, matches) d. if d_ID d = i then (d, matches + 1) else (found, matches))
             (zero_Device, 0 :: int) (range_vals (devices s) ks) of
        (found, matches) \<Rightarrow> if matches \<noteq> 1 then None else Some found)"

definition store_Device :: "string list \<Rightarrow> Store \<Rightarrow> string \<Rightarrow> Device option" where
  "store_Device ks s i = deviceByIDLocked ks s i"

definition DeviceInSite :: "Store \<Rightarrow> string \<Rightarrow> string \<Rightarrow> Device option" where
  "DeviceInSite s siteID i = devices s (stateKey siteID i)"

section \<open>Telemetry\<close>

text \<open>\<open>PutTelemetry\<close> up to the release of the mutex: the stored value and the new state.\<close>

definition resolveSite :: "string list \<Rightarrow> Store \<Rightarrow> Telemetry \<Rightarrow> Telemetry" where
  "resolveSite ks s t =
     (if t_SiteID t = [] then
        (case deviceByIDLocked ks s (t_DeviceID t) of
           Some d \<Rightarrow> t\<lparr>t_SiteID := d_SiteID d\<rparr>
         | None \<Rightarrow> if st_siteID s \<noteq> [] then t\<lparr>t_SiteID := st_siteID s\<rparr> else t)
      else t)"

definition memTelemetry :: "Store \<Rightarrow> Telemetry \<Rightarrow> Store" where
  "memTelemetry s t = s\<lparr>telemetry := (telemetry s)(stateKey (t_SiteID t) (t_DeviceID t) \<mapsto> t)\<rparr>"

definition redis_HSet :: "redis_db \<Rightarrow> string \<Rightarrow> string \<Rightarrow> string \<Rightarrow> redis_db" where
  "redis_HSet db key fld v = db(key \<mapsto> (case db key of None \<Rightarrow> [fld \<mapsto> v] | Some h \<Rightarrow> h(fld \<mapsto> v)))"

definition redis_HGetAll :: "redis_db \<Rightarrow> string \<Rightarrow> (string \<rightharpoonup> string)" where
  "redis_HGetAll db key = (case db key of None \<Rightarrow> Map.empty | Some h \<Rightarrow> h)"

definition persistTelemetry ::
  "(Telemetry \<Rightarrow> string option) \<Rightarrow> bool \<Rightarrow> Store \<Rightarrow> Telemetry \<Rightarrow> redis_db \<Rightarrow> redis_db" where
  "persistTelemetry marshal ok s t db =
     (if \<not> has_redis s then db
      else case marshal t of
        None \<Rightarrow> db
      | Some payload \<Rightarrow>
          if ok then redis_HSet db (st_redisKey s) (stateKey (t_SiteID t) (t_DeviceID t)) payload
          else db)"

definition PutTelemetry ::
  "(Telemetry \<Rightarrow> string option) \<Rightarrow> bool \<Rightarrow> string list \<Rightarrow> Store \<Rightarrow> Telemetry \<Rightarrow> redis_db \<Rightarrow> Store \<times> redis_db"
where
  "PutTelemetry marshal ok ks s t db =
     (let t' = resolveSite ks s t; s' = memTelemetry s t' in
      (s', persistTelemetry marshal ok s' t' db))"

definition store_Telemetry :: "Store \<Rightarrow> (string \<rightharpoonup> Telemetry)" where
  "store_Telemetry s = telemetry s"

definition TelemetryForSite :: "string list \<Rightarrow> Store \<Rightarrow> string \<Rightarrow> (string \<rightharpoonup> Telemetry)" where
  "TelemetryForSite ks s siteID =
     foldl (\<lambda>out t. if t_SiteID t = siteID then out(t_DeviceID t \<mapsto> t) else out)
       Map.empty (range_vals (telemetry s) ks)"

text \<open>
  \<open>loadTelemetry\<close>: every field of the hash that decodes is stored; a missing device id is taken
  from the field's name and a missing site from the store. \<open>None\<close> is a failed \<open>HGETALL\<close>.
\<close>

definition loadEntry :: "(string \<Rightarrow> Telemetry option) \<Rightarrow> Store \<Rightarrow> string \<times> string \<Rightarrow> Store" where
  "loadEntry unmarshal s e =
     (case e of (deviceID, raw) \<Rightarrow>
        case unmarshal raw of
          None \<Rightarrow> s
        | Some t \<Rightarrow>
            let t1 = (if t_DeviceID t = [] then t\<lparr>t_DeviceID := deviceID\<rparr> else t);
                t2 = (if t_SiteID t1 = [] then t1\<lparr>t_SiteID := st_siteID s\<rparr> else t1) in
            memTelemetry s t2)"

definition loadTelemetry ::
  "(string \<Rightarrow> Telemetry option) \<Rightarrow> bool \<Rightarrow> string list \<Rightarrow> Store \<Rightarrow> redis_db \<Rightarrow> Store option" where
  "loadTelemetry unmarshal ok ks s db =
     (if \<not> ok then None
      else
        let values = redis_HGetAll db (st_redisKey s) in
        Some (foldl (loadEntry unmarshal) s
          (List.map_filter (\<lambda>k. map_option (Pair k) (values k)) ks)))"

definition NewRedisStore ::
  "(string \<Rightarrow> Telemetry option) \<Rightarrow> bool \<Rightarrow> bool \<Rightarrow> string list \<Rightarrow> string \<Rightarrow> redis_db \<Rightarrow> Store option" where
  "NewRedisStore unmarshal ping_ok ok ks siteID db =
     (if \<not> ping_ok then None
      else loadTelemetry unmarshal ok ks
             (NewStore\<lparr>has_redis := True, st_siteID := siteID, st_redisKey := telemetryKey siteID\<rparr>) db)"

text \<open>\<open>Close\<close> and \<open>Ping\<close> pass the call to the Redis client, whose reply is an argument.\<close>

definition store_Close :: "string option \<Rightarrow> Store \<Rightarrow> string option" where
  "store_Close reply s = (if \<not> has_redis s then None else reply)"

definition store_Ping :: "string option \<Rightarrow> Store \<Rightarrow> string option" where
  "store_Ping reply s = (if \<not> has_redis s then None else reply)"

section \<open>Summaries\<close>

text \<open>One turn of the loop of \<open>Summary\<close>: the summary so far, the sum and the count of SOC values.\<close>

definition summaryStep ::
  "Store \<Rightarrow> string \<Rightarrow> SiteSummary \<times> float64 \<times> int \<Rightarrow> Telemetry \<Rightarrow> SiteSummary \<times> float64 \<times> int" where
  "summaryStep s siteID acc t =
     (case acc of (sm, socSum, socCount) \<Rightarrow>
        case devices s (stateKey (t_SiteID t) (t_DeviceID t)) of
          None \<Rightarrow> acc
        | Some d \<Rightarrow>
            if d_SiteID d \<noteq> siteID then acc
            else
              let power = metric (t_Metrics t) ''power'';
                  (sm1, socSum1, socCount1) =
                    (if d_Type d = DevicePV then
                       (sm\<lparr>s_PVPowerW := f_add (s_PVPowerW sm) power\<rparr>, socSum, socCount)
                     else if d_Type d = DeviceLoad then
                       (sm\<lparr>s_LoadPowerW := f_add (s_LoadPowerW sm) power\<rparr>, socSum, socCount)
                     else if d_Type d = DeviceBattery then
                       (let sm' = sm\<lparr>s_BatteryPower := f_add (s_BatteryPower sm) power\<rparr> in
                        case t_Metrics t ''soc'' of
                          Some soc \<Rightarrow> (sm', f_add socSum soc, socCount + 1)
                        | None \<Rightarrow> (sm', socSum, socCount))
                     else (sm, socSum, socCount));
                  ts = time_Unix (t_Timestamp t);
                  sm2 = (if s_LastUpdated sm1 < ts then sm1\<lparr>s_LastUpdated := ts\<rparr> else sm1) in
              (sm2, socSum1, socCount1))"

definition Summary :: "string list \<Rightarrow> Store \<Rightarrow> string \<Rightarrow> SiteSummary" where
  "Summary ks s siteID =
     (case foldl (summaryStep s siteID) (zero_SiteSummary\<lparr>s_SiteID := siteID\<rparr>, Fin 0, 0)
             (range_vals (telemetry s) ks) of
        (sm, socSum, socCount) \<Rightarrow>
          let sm1 = (if socCount > 0 then sm\<lparr>s_AvgSOC := f_div socSum (f_of_int socCount)\<rparr> else sm) in
          sm1\<lparr>s_NetPowerW := f_sub (f_sub (s_LoadPowerW sm1) (s_PVPowerW sm1)) (s_BatteryPower sm1)\<rparr>)"

definition deviceState :: "Store \<Rightarrow> string \<Rightarrow> time \<Rightarrow> duration \<Rightarrow> Device \<Rightarrow> DeviceRuntimeState" where
  "deviceState s siteID now onlineTTL d =
     (let st = \<lparr>rs_Device = d, rs_Telemetry = None, rs_Online = False, rs_LastSeenAt = 0, rs_StaleForSec = 0\<rparr> in
      case telemetry s (stateKey siteID (d_ID d)) of
        None \<Rightarrow> st
      | Some tele \<Rightarrow>
          let st1 = st\<lparr>rs_Telemetry := Some tele, rs_LastSeenAt := time_Unix (t_Timestamp tele)\<rparr> in
          if time_IsZero (rs_LastSeenAt st1) then st1
          else
            let stale0 = time_Sub now (rs_LastSeenAt st1);
                staleFor = (if stale0 < 0 then 0 else stale0) in
            st1\<lparr>rs_StaleForSec := f_to_int64 (dur_Seconds staleFor), rs_Online := (staleFor \<le> onlineTTL)\<rparr>)"

definition stateLess :: "DeviceRuntimeState \<Rightarrow> DeviceRuntimeState \<Rightarrow> bool" where
  "stateLess x y =
     (if d_Type (rs_Device x) = d_Type (rs_Device y) then d_ID (rs_Device x) < d_ID (rs_Device y)
      else d_Type (rs_Device x) < d_Type (rs_Device y))"

definition DeviceStates ::
  "string list \<Rightarrow> Store \<Rightarrow> string \<Rightarrow> time \<Rightarrow> duration \<Rightarrow> DeviceRuntimeState list" where
  "DeviceStates ks s siteID now onlineTTL =
     sort_Slice stateLess
       (map (deviceState s siteID now onlineTTL)
         (filter (\<lambda>d. d_SiteID d = siteID) (range_vals (devices s) ks)))"

section \<open>Commands and events\<close>

definition issuedRecord :: "time \<Rightarrow> string \<Rightarrow> Device \<Rightarrow> Command \<Rightarrow> CommandRecord" where
  "issuedRecord now siteID d cmd =
     \<lparr>r_SiteID = siteID, r_DeviceID = d_ID d, r_DeviceType = d_Type d, r_Command = cmd,
      r_Status = ''issued'', r_Ack = None, r_UpdatedAt = now\<rparr>"

definition PutCommandIssued :: "time \<Rightarrow> Store \<Rightarrow> string \<Rightarrow> Device \<Rightarrow> Command \<Rightarrow> Store" where
  "PutCommandIssued now s siteID d cmd =
     s\<lparr>commands := push_front_capped 200 (issuedRecord now siteID d cmd) (commands s)\<rparr>"

definition SetCommands :: "Store \<Rightarrow> CommandRecord list \<Rightarrow> Store" where
  "SetCommands s cs = s\<lparr>commands := capped 200 cs\<rparr>"

definition ackMatches :: "string \<Rightarrow> CommandAck \<Rightarrow> CommandRecord \<Rightarrow> bool" where
  "ackMatches deviceID ack r \<longleftrightarrow> r_DeviceID r = deviceID \<and> c_CommandID (r_Command r) = a_CommandID ack"

definition ackRecord :: "time \<Rightarrow> CommandAck \<Rightarrow> CommandRecord \<Rightarrow> CommandRecord" where
  "ackRecord now ack r =
     r\<lparr>r_Ack := Some ack, r_Status := (if a_OK ack then ''acked'' else ''failed''), r_UpdatedAt := now\<rparr>"

definition store_PutCommandAck :: "time \<Rightarrow> Store \<Rightarrow> string \<Rightarrow> CommandAck \<Rightarrow> Store" where
  "store_PutCommandAck now s deviceID ack =
     s\<lparr>commands := update_first (ackMatches deviceID ack) (ackRecord now ack) (commands s)\<rparr>"

definition Commands :: "Store \<Rightarrow> CommandRecord list" where
  "Commands s = commands s"

definition PutEvent :: "Store \<Rightarrow> DeviceEvent \<Rightarrow> Store" where
  "PutEvent s e = s\<lparr>events := push_front_capped 200 e (events s)\<rparr>"

definition SetEvents :: "Store \<Rightarrow> DeviceEvent list \<Rightarrow> Store" where
  "SetEvents s es = s\<lparr>events := capped 200 es\<rparr>"

definition Events :: "Store \<Rightarrow> DeviceEvent list" where
  "Events s = events s"

section \<open>Invariant\<close>

text \<open>
  Every entry is filed under the key of its own site and id, the maps are finite and the
  histories hold at most 200 entries.
\<close>

definition store_inv :: "Store \<Rightarrow> bool" where
  "store_inv s \<longleftrightarrow>
     (\<forall>k d. devices s k = Some d \<longrightarrow> k = stateKey (d_SiteID d) (d_ID d)) \<and>
     (\<forall>k t. telemetry s k = Some t \<longrightarrow> k = stateKey (t_SiteID t) (t_DeviceID t)) \<and>
     finite (dom (devices s)) \<and> finite (dom (telemetry s)) \<and>
     length (commands s) \<le> 200 \<and> length (events s) \<le> 200"

text \<open>The steps the rest of the program can make on a store, in any order.\<close>

inductive store_step :: "Store \<Rightarrow> Store \<Rightarrow> bool" where
  upsert: "store_step s (UpsertDevice now s d)"
| put_telemetry: "store_step s (fst (PutTelemetry marshal ok ks s t db))"
| load: "loadTelemetry unmarshal ok ks s db = Some s' \<Longrightarrow> store_step s s'"
| issued: "store_step s (PutCommandIssued now s siteID d cmd)"
| set_commands: "store_step s (SetCommands s cs)"
| ack: "store_step s (store_PutCommandAck now s deviceID a)"
| put_event: "store_step s (PutEvent s e)"
| set_events: "store_step s (SetEvents s es)"

inductive store_reachable :: "Store \<Rightarrow> bool" where
  new: "store_reachable NewStore"
| new_redis: "NewRedisStore unmarshal ping_ok ok ks siteID db = Some s \<Longrightarrow> store_reachable s"
| step: "store_reachable s \<Longrightarrow> store_step s s' \<Longrightarrow> store_reachable s'"

inductive_cases store_stepE: "store_step s s'"

lemma store_inv_New: "store_inv NewStore"
  by (simp add: store_inv_def NewStore_def)

lemma store_inv_memTelemetry: "store_inv s \<Longrightarrow> store_inv (memTelemetry s t)"
  by (simp add: store_inv_def memTelemetry_def)

lemma store_inv_loadEntry: "store_inv s \<Longrightarrow> store_inv (loadEntry unmarshal s e)"
  by (simp add: loadEntry_def Let_def store_inv_memTelemetry split: option.split prod.split)

lemma store_inv_load:
  assumes "store_inv s" "loadTelemetry unmarshal ok ks s db = Some s'"
  shows "store_inv s'"
proof -
  have "store_inv (foldl (loadEntry unmarshal) s es)" for es
    using assms(1) by (induction es arbitrary: s) (simp_all add: store_inv_loadEntry)
  with assms(2) show ?thesis by (auto simp: loadTelemetry_def Let_def split: if_splits)
qed

lemma store_inv_step: "store_step s s' \<Longrightarrow> store_inv s \<Longrightarrow> store_inv s'"
proof (induction rule: store_step.induct)
  case (put_telemetry s marshal ok ks t db)
  then show ?case by (simp add: PutTelemetry_def Let_def store_inv_memTelemetry)
next
  case (load unmarshal ok ks s db s')
  then show ?case using store_inv_load by blast
qed (simp_all add: store_inv_def UpsertDevice_def PutCommandIssued_def SetCommands_def
       store_PutCommandAck_def PutEvent_def SetEvents_def)

lemma store_inv_NewRedis: "NewRedisStore unmarshal ping_ok ok ks siteID db = Some s \<Longrightarrow> store_inv s"
  by (rule store_inv_load [of "NewStore\<lparr>has_redis := True, st_siteID := siteID, st_redisKey := telemetryKey siteID\<rparr>"])
    (use store_inv_New in \<open>auto simp: store_inv_def NewRedisStore_def split: if_splits\<close>)

lemma store_reachable_inv: "store_reachable s \<Longrightarrow> store_inv s"
  by (induction rule: store_reachable.induct)
    (simp_all add: store_inv_New store_inv_NewRedis store_inv_step)

section \<open>Keys\<close>

abbreviation nul_free :: "string \<Rightarrow> bool" where
  "nul_free s \<equiv> CHR 0x00 \<notin> set s"

lemma stateKey_inj: "nul_free a \<Longrightarrow> nul_free b \<Longrightarrow> stateKey a i = stateKey b j \<longleftrightarrow> a = b \<and> i = j"
proof (induction a arbitrary: b)
  case Nil
  then show ?case by (cases b) (auto simp: stateKey_def)
next
  case (Cons x xs)
  then show ?case by (cases b) (auto simp: stateKey_def)
qed

lemma store_inv_device_key: "store_inv s \<Longrightarrow> devices s k = Some d \<Longrightarrow> k = stateKey (d_SiteID d) (d_ID d)"
  by (simp add: store_inv_def)

lemma store_inv_tele_key: "store_inv s \<Longrightarrow> telemetry s k = Some t \<Longrightarrow> k = stateKey (t_SiteID t) (t_DeviceID t)"
  by (simp add: store_inv_def)

lemma store_inv_same_device:
  "store_inv s \<Longrightarrow> d \<in> ran (devices s) \<Longrightarrow> d' \<in> ran (devices s) \<Longrightarrow>
   d_SiteID d = d_SiteID d' \<Longrightarrow> d_ID d = d_ID d' \<Longrightarrow> d = d'"
  unfolding ran_def by clarsimp (metis option.inject store_inv_device_key)

lemma distinct_Devices: "store_inv s \<Longrightarrow> range_order (devices s) ks \<Longrightarrow> distinct (Devices ks s)"
  unfolding Devices_def by (rule distinct_range_vals) (auto dest: store_inv_device_key)

section \<open>Interface: an index by site and id\<close>

text \<open>
  What a client of the device map and of the telemetry map relies on: a write is seen by the
  lookup of its site and id and by no other. The laws hold for values the operation accepts
  (\<open>ok\<close>), with the value it really files (\<open>filed\<close>).
\<close>

locale site_index =
  fixes put :: "'s \<Rightarrow> 'v \<Rightarrow> 's"
    and look :: "'s \<Rightarrow> string \<Rightarrow> string \<Rightarrow> 'v option"
    and ok :: "'v \<Rightarrow> bool"
    and filed :: "'v \<Rightarrow> 'v"
    and site_of :: "'v \<Rightarrow> string"
    and id_of :: "'v \<Rightarrow> string"
  assumes look_put: "ok v \<Longrightarrow> look (put s v) a i =
      (if stateKey a i = stateKey (site_of v) (id_of v) then Some (filed v) else look s a i)"
    and filed_key: "site_of (filed v) = site_of v" "id_of (filed v) = id_of v"
begin

lemma look_put_same: "ok v \<Longrightarrow> look (put s v) (site_of v) (id_of v) = Some (filed v)"
  by (simp add: look_put)

lemma look_put_other_site:
  "ok v \<Longrightarrow> nul_free a \<Longrightarrow> nul_free (site_of v) \<Longrightarrow> a \<noteq> site_of v \<Longrightarrow> look (put s v) a i = look s a i"
  by (simp add: look_put stateKey_inj)

text \<open>After a sequence of writes a lookup returns the last one of its key.\<close>

lemma look_puts:
  "\<forall>v \<in> set vs. ok v \<Longrightarrow> look (foldl put s vs) a i =
    (case find (\<lambda>v. stateKey (site_of v) (id_of v) = stateKey a i) (rev vs) of
       Some v \<Rightarrow> Some (filed v) | None \<Rightarrow> look s a i)"
proof (induction vs rule: rev_induct)
  case (snoc v vs)
  then show ?case by (auto simp: look_put)
qed simp

end

interpretation dev_index: site_index "UpsertDevice now" DeviceInSite "\<lambda>_. True"
    "\<lambda>d. if time_IsZero (d_CreatedAt d) then d\<lparr>d_CreatedAt := now\<rparr> else d" d_SiteID d_ID for now
  by unfold_locales (auto simp: UpsertDevice_def DeviceInSite_def Let_def)

definition TelemetryAt :: "Store \<Rightarrow> string \<Rightarrow> string \<Rightarrow> Telemetry option" where
  "TelemetryAt s siteID i = telemetry s (stateKey siteID i)"

interpretation tele_index: site_index "\<lambda>s t. fst (PutTelemetry marshal ok ks s t db)" TelemetryAt
    "\<lambda>t. t_SiteID t \<noteq> []" "\<lambda>t. t" t_SiteID t_DeviceID for marshal ok ks db
  by unfold_locales (auto simp: PutTelemetry_def TelemetryAt_def memTelemetry_def resolveSite_def Let_def)

section \<open>Interface: a bounded newest-first history\<close>

locale bounded_log =
  fixes put :: "'s \<Rightarrow> 'i \<Rightarrow> 's" and entry :: "'i \<Rightarrow> 'e" and log :: "'s \<Rightarrow> 'e list" and bound :: nat
  assumes log_put: "log (put s x) = take bound (entry x # log s)"
begin

lemma log_puts:
  "length (log s) \<le> bound \<Longrightarrow> log (foldl put s xs) = take bound (rev (map entry xs) @ log s)"
proof (induction xs rule: rev_induct)
  case (snoc x xs)
  then show ?case by (cases bound) (simp_all add: log_put take_append min_def)
qed simp

text \<open>The newest entries are kept, the newest first.\<close>

lemma log_newest: "length xs \<le> bound \<Longrightarrow> length (log s) \<le> bound \<Longrightarrow>
    take (length xs) (log (foldl put s xs)) = rev (map entry xs)"
  by (simp add: log_puts min_def)

end

interpretation event_log: bounded_log PutEvent "\<lambda>e. e" Events 200
  by unfold_locales (simp add: PutEvent_def Events_def push_front_capped_take)

interpretation command_log: bounded_log
    "\<lambda>s (now, siteID, d, cmd). PutCommandIssued now s siteID d cmd"
    "\<lambda>(now, siteID, d, cmd). issuedRecord now siteID d cmd" Commands 200
  by unfold_locales (auto simp: PutCommandIssued_def Commands_def push_front_capped_take)

section \<open>Lookup by id alone\<close>

lemma deviceByID_fold:
  "foldl (\<lambda>(found, matches) d. if d_ID d = i then (d, matches + 1) else (found, matches)) (z, n) ds =
    (if filter (\<lambda>d. d_ID d = i) ds = [] then z else last (filter (\<lambda>d. d_ID d = i) ds),
     n + int (length (filter (\<lambda>d. d_ID d = i) ds)))"
  by (induction ds arbitrary: z n) auto

lemma deviceByIDLocked_eq:
  "deviceByIDLocked ks s i =
    (case filter (\<lambda>d. d_ID d = i) (Devices ks s) of [d] \<Rightarrow> Some d | _ \<Rightarrow> None)"
  unfolding deviceByIDLocked_def deviceByID_fold Devices_def [symmetric]
  by (auto split: list.split)

lemma deviceByIDLocked_Some:
  assumes "store_inv s" "range_order (devices s) ks"
  shows "deviceByIDLocked ks s i = Some d \<longleftrightarrow>
    d \<in> ran (devices s) \<and> d_ID d = i \<and> (\<forall>d' \<in> ran (devices s). d_ID d' = i \<longrightarrow> d' = d)"
proof -
  let ?f = "filter (\<lambda>d. d_ID d = i) (Devices ks s)"
  have dist: "distinct ?f" using distinct_Devices [OF assms] by simp
  have set: "set ?f = {d \<in> ran (devices s). d_ID d = i}"
    using set_range_vals [OF assms(2)] by (auto simp: Devices_def)
  show ?thesis
  proof
    assume "deviceByIDLocked ks s i = Some d"
    then have "?f = [d]" by (auto simp: deviceByIDLocked_eq split: list.splits)
    with set show "d \<in> ran (devices s) \<and> d_ID d = i \<and> (\<forall>d' \<in> ran (devices s). d_ID d' = i \<longrightarrow> d' = d)"
      by auto
  next
    assume r: "d \<in> ran (devices s) \<and> d_ID d = i \<and> (\<forall>d' \<in> ran (devices s). d_ID d' = i \<longrightarrow> d' = d)"
    with set have "set ?f = {d}" by auto
    with dist have "?f = [d]" by (rule distinct_set_singleton)
    then show "deviceByIDLocked ks s i = Some d" by (simp add: deviceByIDLocked_eq)
  qed
qed

section \<open>Device states\<close>

lemma stateLess_less_on: "stateLess = less_on (\<lambda>x. (d_Type (rs_Device x), d_ID (rs_Device x)))"
  by (auto simp: stateLess_def fun_eq_iff less_prod_def)

lemma rs_Device_deviceState [simp]: "rs_Device (deviceState s siteID now ttl d) = d"
  by (simp add: deviceState_def Let_def split: option.split)

lemma inj_on_states:
  assumes "store_inv s" "range_order (devices s) ks"
  shows "inj_on (\<lambda>x. (d_Type (rs_Device x), d_ID (rs_Device x)))
    (set (map (deviceState s siteID now ttl) (filter (\<lambda>d. d_SiteID d = siteID) (range_vals (devices s) ks))))"
  using store_inv_same_device [OF assms(1)] set_range_vals [OF assms(2)]
  by (clarsimp simp: inj_on_def) metis

lemma DeviceStates_order_indep:
  assumes "store_inv s" "range_order (devices s) ks" "range_order (devices s) ks'"
  shows "DeviceStates ks s siteID now ttl = DeviceStates ks' s siteID now ttl"
  unfolding DeviceStates_def stateLess_less_on
  by (rule sort_Slice_perm [OF _ inj_on_states [OF assms(1,2)]])
    (use mset_range_vals_eq [OF assms(2,3)] in simp)

lemma set_DeviceStates:
  assumes "range_order (devices s) ks"
  shows "set (DeviceStates ks s siteID now ttl) =
    deviceState s siteID now ttl ` {d \<in> ran (devices s). d_SiteID d = siteID}"
  using set_range_vals [OF assms] by (auto simp: DeviceStates_def)

lemma sorted_DeviceStates:
  "sorted (map (\<lambda>x. (d_Type (rs_Device x), d_ID (rs_Device x))) (DeviceStates ks s siteID now ttl))"
  unfolding DeviceStates_def stateLess_less_on by (rule sorted_sort_Slice)

lemma distinct_DeviceStates:
  assumes "store_inv s" "range_order (devices s) ks"
  shows "distinct (map rs_Device (DeviceStates ks s siteID now ttl))"
proof -
  have "mset (map rs_Device (DeviceStates ks s siteID now ttl)) =
      mset (filter (\<lambda>d. d_SiteID d = siteID) (Devices ks s))"
    by (simp add: DeviceStates_def Devices_def image_mset.compositionality comp_def)
  with distinct_Devices [OF assms] show ?thesis
    by (metis distinct_filter mset_eq_imp_distinct_iff)
qed

section \<open>Summary\<close>

text \<open>
  The summary without the loop: the pairs of a device of the site and its telemetry, in visiting
  order, and the totals over them. Sums are float sums in that order.
\<close>

definition site_pair :: "Store \<Rightarrow> string \<Rightarrow> Telemetry \<Rightarrow> (Device \<times> Telemetry) option" where
  "site_pair s siteID t =
     (case devices s (stateKey (t_SiteID t) (t_DeviceID t)) of
        None \<Rightarrow> None
      | Some d \<Rightarrow> if d_SiteID d = siteID then Some (d, t) else None)"

definition site_pairs :: "string list \<Rightarrow> Store \<Rightarrow> string \<Rightarrow> (Device \<times> Telemetry) list" where
  "site_pairs ks s siteID = List.map_filter (site_pair s siteID) (range_vals (telemetry s) ks)"

definition powers_of :: "DeviceType \<Rightarrow> (Device \<times> Telemetry) list \<Rightarrow> float64 list" where
  "powers_of typ dts = [metric (t_Metrics t) ''power''. (d, t) \<leftarrow> dts, d_Type d = typ]"

definition socs_of :: "(Device \<times> Telemetry) list \<Rightarrow> float64 list" where
  "socs_of dts = List.map_filter
     (\<lambda>(d, t). if d_Type d = DeviceBattery then t_Metrics t ''soc'' else None) dts"

definition latest_of :: "time \<Rightarrow> (Device \<times> Telemetry) list \<Rightarrow> time" where
  "latest_of t0 dts = foldl max t0 (map (\<lambda>(d, t). time_Unix (t_Timestamp t)) dts)"

definition summary_ref :: "string \<Rightarrow> (Device \<times> Telemetry) list \<Rightarrow> SiteSummary" where
  "summary_ref siteID dts =
     (let pv = foldl f_add (Fin 0) (powers_of DevicePV dts);
          load = foldl f_add (Fin 0) (powers_of DeviceLoad dts);
          bat = foldl f_add (Fin 0) (powers_of DeviceBattery dts);
          socs = socs_of dts in
      \<lparr>s_SiteID = siteID, s_PVPowerW = pv, s_LoadPowerW = load, s_BatteryPower = bat,
       s_NetPowerW = f_sub (f_sub load pv) bat,
       s_AvgSOC = (if socs = [] then Fin 0 else f_div (foldl f_add (Fin 0) socs) (f_of_int (int (length socs)))),
       s_LastUpdated = latest_of 0 dts\<rparr>)"

lemma summary_loop:
  "foldl (summaryStep s siteID) (sm, socSum, socCount) ts =
    (let dts = List.map_filter (site_pair s siteID) ts in
     (sm\<lparr>s_PVPowerW := foldl f_add (s_PVPowerW sm) (powers_of DevicePV dts),
         s_LoadPowerW := foldl f_add (s_LoadPowerW sm) (powers_of DeviceLoad dts),
         s_BatteryPower := foldl f_add (s_BatteryPower sm) (powers_of DeviceBattery dts),
         s_LastUpdated := latest_of (s_LastUpdated sm) dts\<rparr>,
      foldl f_add socSum (socs_of dts), socCount + int (length (socs_of dts))))"
proof (induction ts arbitrary: sm socSum socCount)
  case Nil
  then show ?case by (simp add: List.map_filter_def powers_of_def socs_of_def latest_of_def)
next
  case (Cons t ts)
  show ?case
  proof (cases "site_pair s siteID t")
    case None
    then have "summaryStep s siteID (sm, socSum, socCount) t = (sm, socSum, socCount)"
      by (auto simp: site_pair_def summaryStep_def split: option.splits if_splits)
    with None show ?thesis by (simp add: Cons List.map_filter_def)
  next
    case (Some p)
    then obtain d where p: "p = (d, t)" "devices s (stateKey (t_SiteID t) (t_DeviceID t)) = Some d"
      "d_SiteID d = siteID"
      by (auto simp: site_pair_def split: option.splits if_splits)
    with Some show ?thesis
      by (simp add: summaryStep_def [of s siteID "(sm, socSum, socCount)" t] Cons Let_def
            List.map_filter_def powers_of_def socs_of_def latest_of_def max_def split: option.split)
  qed
qed

lemma Summary_eq_ref: "Summary ks s siteID = summary_ref siteID (site_pairs ks s siteID)"
  by (simp add: Summary_def summary_loop site_pairs_def summary_ref_def Let_def zero_SiteSummary_def)

text \<open>Which entries of the telemetry map a site's summary reads.\<close>

lemma map_filter_range_vals:
  "List.map_filter f (range_vals m ks) = List.map_filter (\<lambda>k. Option.bind (m k) f) ks"
  by (induction ks) (auto simp: List.map_filter_def split: option.split)

lemma map_filter_cong_set:
  "(\<And>x. x \<in> set xs \<Longrightarrow> f x = g x) \<Longrightarrow> List.map_filter f xs = List.map_filter g xs"
  by (induction xs) (auto simp: List.map_filter_def)

lemma map_filter_removeAll: "f k = None \<Longrightarrow> List.map_filter f (removeAll k xs) = List.map_filter f xs"
  by (induction xs) (auto simp: List.map_filter_def)

definition nul_free_sites :: "Store \<Rightarrow> bool" where
  "nul_free_sites s \<longleftrightarrow> (\<forall>d \<in> ran (devices s). nul_free (d_SiteID d))"

lemma site_pair_update [simp]: "site_pair (s\<lparr>telemetry := m\<rparr>) = site_pair s"
  by (simp add: fun_eq_iff site_pair_def)

lemma site_pair_other_site:
  assumes "store_inv s" "nul_free_sites s" "nul_free (t_SiteID t)" "t_SiteID t \<noteq> siteID"
    and "stateKey (t_SiteID t') (t_DeviceID t') = stateKey (t_SiteID t) (t_DeviceID t)"
  shows "site_pair s siteID t' = None"
proof (cases "devices s (stateKey (t_SiteID t) (t_DeviceID t))")
  case (Some d)
  then have "nul_free (d_SiteID d)" using assms(2) by (auto simp: nul_free_sites_def ran_def)
  with Some store_inv_device_key [OF assms(1) Some] assms(3)
  have "d_SiteID d = t_SiteID t" by (simp add: stateKey_inj)
  with Some assms(4,5) show ?thesis by (simp add: site_pair_def)
qed (simp add: site_pair_def assms(5))

lemma site_pairs_memTelemetry:
  assumes inv: "store_inv s" "nul_free_sites s" and t: "nul_free (t_SiteID t)" "t_SiteID t \<noteq> siteID"
  shows "site_pairs ks (memTelemetry s t) siteID =
    site_pairs (if stateKey (t_SiteID t) (t_DeviceID t) \<in> dom (telemetry s) then ks
      else removeAll (stateKey (t_SiteID t) (t_DeviceID t)) ks) s siteID"
proof -
  let ?k = "stateKey (t_SiteID t) (t_DeviceID t)"
  let ?f = "\<lambda>k. Option.bind (telemetry s k) (site_pair s siteID)"
  have old: "?f ?k = None"
  proof (cases "telemetry s ?k")
    case (Some t')
    with store_inv_tele_key [OF inv(1) Some] show ?thesis
      using site_pair_other_site [OF inv t, of t'] by simp
  qed simp
  have "List.map_filter (\<lambda>k. Option.bind (telemetry (memTelemetry s t) k) (site_pair (memTelemetry s t) siteID)) ks
      = List.map_filter ?f ks"
    using old site_pair_other_site [OF inv t, of t]
    by (intro map_filter_cong_set) (auto simp: memTelemetry_def)
  also have "\<dots> = List.map_filter ?f (removeAll ?k ks)" using old by (simp add: map_filter_removeAll)
  finally show ?thesis
    using map_filter_removeAll [of ?f ?k, OF old, of ks] by (simp add: site_pairs_def map_filter_range_vals)
qed

lemma range_order_update:
  assumes "range_order (m(k \<mapsto> v)) ks"
  shows "range_order m (if k \<in> dom m then ks else removeAll k ks)"
  using assms by (auto simp: range_order_def distinct_removeAll)

section \<open>The Redis mirror\<close>

text \<open>
  The hash of the site holds exactly the encodings of the telemetry in memory. The laws of the
  codec are stated for the values that occur.
\<close>

definition mirrors :: "(Telemetry \<Rightarrow> string option) \<Rightarrow> Store \<Rightarrow> redis_db \<Rightarrow> bool" where
  "mirrors marshal s db \<longleftrightarrow>
     has_redis s \<and> st_redisKey s = telemetryKey (st_siteID s) \<and>
     redis_HGetAll db (st_redisKey s) = (\<lambda>k. Option.bind (telemetry s k) marshal)"

definition codec_on :: "(Telemetry \<Rightarrow> string option) \<Rightarrow> (string \<Rightarrow> Telemetry option) \<Rightarrow> Telemetry \<Rightarrow> bool" where
  "codec_on marshal unmarshal t \<longleftrightarrow> Option.bind (marshal t) unmarshal = Some t"

definition full_ids :: "Telemetry \<Rightarrow> bool" where
  "full_ids t \<longleftrightarrow> t_SiteID t \<noteq> [] \<and> t_DeviceID t \<noteq> []"

definition tele_ok where
  "tele_ok marshal unmarshal s \<longleftrightarrow>
     store_inv s \<and> (\<forall>t \<in> ran (telemetry s). codec_on marshal unmarshal t \<and> full_ids t)"

lemma redis_HGetAll_HSet:
  "redis_HGetAll (redis_HSet db key f v) key = (redis_HGetAll db key)(f \<mapsto> v)"
  by (simp add: redis_HGetAll_def redis_HSet_def split: option.split)

lemma ran_memTelemetry: "ran (telemetry (memTelemetry s t)) \<subseteq> insert t (ran (telemetry s))"
  by (auto simp: memTelemetry_def ran_def)

lemma PutTelemetry_ok:
  assumes "PutTelemetry marshal True ks s t db = (s', db')" "mirrors marshal s db" "tele_ok marshal unmarshal s"
    "t_SiteID t \<noteq> []" "t_DeviceID t \<noteq> []" "codec_on marshal unmarshal t"
  shows "mirrors marshal s' db' \<and> tele_ok marshal unmarshal s' \<and> st_siteID s' = st_siteID s"
proof -
  have s': "s' = memTelemetry s t" and db': "db' = persistTelemetry marshal True s' t db"
    using assms(1,4) by (auto simp: PutTelemetry_def resolveSite_def Let_def)
  from assms(6) obtain p where p: "marshal t = Some p" by (auto simp: codec_on_def bind_eq_Some_conv)
  have "mirrors marshal s' db'"
    using assms(2) p by (auto simp: s' db' mirrors_def persistTelemetry_def memTelemetry_def redis_HGetAll_HSet)
  moreover have "tele_ok marshal unmarshal s'"
    using assms(3-6) ran_memTelemetry [of s t] by (auto simp: s' tele_ok_def full_ids_def store_inv_memTelemetry)
  ultimately show ?thesis by (simp add: s' memTelemetry_def)
qed

lemma PutTelemetry_seq_ok:
  assumes "mirrors marshal s db" "tele_ok marshal unmarshal s" "\<forall>t \<in> set ts. full_ids t \<and> codec_on marshal unmarshal t"
    "foldl (\<lambda>(s, db) t. PutTelemetry marshal True ks s t db) (s, db) ts = (s', db')"
  shows "mirrors marshal s' db' \<and> tele_ok marshal unmarshal s' \<and> st_siteID s' = st_siteID s"
  using assms
proof (induction ts arbitrary: s db)
  case (Cons t ts)
  obtain s1 db1 where 1: "PutTelemetry marshal True ks s t db = (s1, db1)" by force
  with Cons.prems have "mirrors marshal s1 db1 \<and> tele_ok marshal unmarshal s1 \<and> st_siteID s1 = st_siteID s"
    by (intro PutTelemetry_ok) (auto simp: full_ids_def)
  with Cons.IH [of s1 db1] Cons.prems 1 show ?case by simp
qed simp

lemma loadEntry_stored:
  assumes "codec_on marshal unmarshal t" "full_ids t" "marshal t = Some p"
  shows "loadEntry unmarshal s (k, p) = memTelemetry s t"
  using assms by (simp add: codec_on_def full_ids_def loadEntry_def Let_def)

lemma load_loop:
  assumes "tele_ok marshal unmarshal s0" "set ks \<subseteq> dom (telemetry s0)"
  shows "foldl (loadEntry unmarshal) s
      (List.map_filter (\<lambda>k. map_option (Pair k) (Option.bind (telemetry s0 k) marshal)) ks)
    = s\<lparr>telemetry := (telemetry s) ++ (telemetry s0 |` set ks)\<rparr>"
  using assms(2)
proof (induction ks arbitrary: s)
  case (Cons k ks)
  from Cons.prems obtain t where t: "telemetry s0 k = Some t" by auto
  then have ok: "codec_on marshal unmarshal t" "full_ids t" and k: "k = stateKey (t_SiteID t) (t_DeviceID t)"
    using assms(1) store_inv_tele_key [of s0] by (auto simp: tele_ok_def ran_def)
  then obtain p where p: "marshal t = Some p" by (auto simp: codec_on_def bind_eq_Some_conv)
  have *: "(m(k \<mapsto> t)) ++ (telemetry s0 |` set ks) = m ++ (telemetry s0 |` insert k (set ks))" for m
    using t by (auto simp: fun_eq_iff map_add_def restrict_map_def split: option.split)
  have "loadEntry unmarshal s (k, p) = s\<lparr>telemetry := (telemetry s)(k \<mapsto> t)\<rparr>"
    by (simp add: loadEntry_stored [OF ok p] memTelemetry_def k)
  with Cons t p show ?case by (simp add: List.map_filter_def *)
qed (simp add: List.map_filter_def)

lemma restart_loads:
  assumes "mirrors marshal s db" "tele_ok marshal unmarshal s" "range_order (telemetry s) ks"
  shows "\<exists>s'. NewRedisStore unmarshal True True ks (st_siteID s) db = Some s' \<and> telemetry s' = telemetry s"
  using assms load_loop [OF assms(2), of ks]
  by (auto simp: NewRedisStore_def loadTelemetry_def mirrors_def NewStore_def range_order_def Let_def
      fun_eq_iff map_add_def restrict_map_def split: option.split)

section \<open>Facts the properties rest on\<close>

lemma age_saturated: "now - u < 2 ^ 22 * Second \<Longrightarrow> max 0 (time_Sub now u) = max 0 (now - u)"
  by (simp add: time_Sub_def sat64_def)

lemma deviceState_seen:
  assumes "telemetry s (stateKey siteID (d_ID d)) = Some t" "time_Unix (t_Timestamp t) \<noteq> 0"
  shows "deviceState s siteID now ttl d =
    (let age = max 0 (time_Sub now (time_Unix (t_Timestamp t))) in
     \<lparr>rs_Device = d, rs_Telemetry = Some t, rs_Online = (age \<le> ttl),
      rs_LastSeenAt = time_Unix (t_Timestamp t), rs_StaleForSec = f_to_int64 (dur_Seconds age)\<rparr>)"
  using assms by (simp add: deviceState_def Let_def time_IsZero_def max_def)

lemma PutTelemetry_resolved:
  "t_SiteID t \<noteq> [] \<Longrightarrow> fst (PutTelemetry marshal ok ks s t db) = memTelemetry s t"
  by (simp add: PutTelemetry_def resolveSite_def Let_def)

section \<open>Properties\<close>

text \<open>
  C19. Whatever sequence of operations the program makes on a store, starting from an empty one or
  from one loaded from Redis, every device and every telemetry value is filed under the key of
  its own site and id, the maps stay finite and the command and event histories never hold more
  than 200 entries.
\<close>
theorem store_invariant: "store_reachable s \<Longrightarrow> store_inv s"
  by (rule store_reachable_inv)

theorem store_invariant_witness:
  "store_inv (SetEvents (UpsertDevice 5 NewStore (zero_Device\<lparr>d_ID := ''b1'', d_SiteID := ''s1''\<rparr>)) [])"
  by (rule store_invariant) (intro store_reachable.step [OF store_reachable.step [OF store_reachable.new
      store_step.upsert] store_step.set_events])

text \<open>
  C20. An acknowledgement changes the newest record of that device and command id and no other: it
  stores the acknowledgement, sets the status to acked or failed and the time of the update. When
  no record matches, the store is unchanged, and in every case the recorded commands, their
  devices and their order stay as they are.
\<close>
theorem command_ack:
  "(\<forall>newer r older. Commands s = newer @ r # older \<and> ackMatches dev ack r \<and> (\<forall>r' \<in> set newer. \<not> ackMatches dev ack r') \<longrightarrow>
      Commands (store_PutCommandAck now s dev ack) =
        newer @ r\<lparr>r_Ack := Some ack, r_Status := if a_OK ack then ''acked'' else ''failed'', r_UpdatedAt := now\<rparr> # older) \<and>
   ((\<forall>r \<in> set (Commands s). \<not> ackMatches dev ack r) \<longrightarrow> store_PutCommandAck now s dev ack = s) \<and>
   map (\<lambda>r. (r_SiteID r, r_DeviceID r, r_Command r)) (Commands (store_PutCommandAck now s dev ack)) =
     map (\<lambda>r. (r_SiteID r, r_DeviceID r, r_Command r)) (Commands s)"
  by (simp add: Commands_def store_PutCommandAck_def map_update_first_same ackRecord_def
      update_first_split update_first_none)

theorem command_ack_witness:
  "let cmd = \<lparr>c_CommandID = ''b1-1'', c_Action = ''set_mode'', c_Params = None, c_IssuedAt = 1, c_Reason = ''r''\<rparr>;
       ack = \<lparr>a_CommandID = ''b1-1'', a_OK = True, a_Error = [], a_Timestamp = 2\<rparr>;
       s = PutCommandIssued 5 NewStore ''s1'' (zero_Device\<lparr>d_ID := ''b1''\<rparr>) cmd in
   Commands (store_PutCommandAck 9 s ''b1'' ack) =
    [\<lparr>r_SiteID = ''s1'', r_DeviceID = ''b1'', r_DeviceType = [], r_Command = cmd,
      r_Status = ''acked'', r_Ack = Some ack, r_UpdatedAt = 9\<rparr>]"
  using conjunct1 [OF command_ack, rule_format, of
      "PutCommandIssued 5 NewStore ''s1'' (zero_Device\<lparr>d_ID := ''b1''\<rparr>)
        \<lparr>c_CommandID = ''b1-1'', c_Action = ''set_mode'', c_Params = None, c_IssuedAt = 1, c_Reason = ''r''\<rparr>"
      "[]" _ "[]" "''b1''" "\<lparr>a_CommandID = ''b1-1'', a_OK = True, a_Error = [], a_Timestamp = 2\<rparr>" 9]
  by (simp add: PutCommandIssued_def NewStore_def Commands_def push_front_capped_take issuedRecord_def
      ackMatches_def zero_Device_def)

text \<open>
  C37. \<open>Summary\<close> computes what its fields say: the power totals of the site's PV, load and battery
  devices over their latest telemetry, the mean SOC of the batteries that report one, the net
  power load - PV - battery, and the latest timestamp. Every sum is the float sum in the order in
  which the loop visits the telemetry map.
\<close>
theorem summary_totals:
  "Summary ks s siteID = summary_ref siteID
     (List.map_filter (\<lambda>t. case DeviceInSite s (t_SiteID t) (t_DeviceID t) of
          None \<Rightarrow> None | Some d \<Rightarrow> if d_SiteID d = siteID then Some (d, t) else None)
        (range_vals (store_Telemetry s) ks))"
  by (simp add: Summary_eq_ref site_pairs_def site_pair_def [abs_def] DeviceInSite_def store_Telemetry_def)

text \<open>
  Sites are isolated: telemetry that arrives for one site does not change the summary of
  another. Each result the summary can give after the update, whatever the visiting order, is one
  it could give before, for site names without a NUL byte (the separator of the map's keys).
\<close>
theorem summary_site_isolation:
  assumes "store_inv s" "nul_free_sites s" "nul_free (t_SiteID t)" "t_SiteID t \<noteq> []" "t_SiteID t \<noteq> siteID"
    and "range_order (telemetry (fst (PutTelemetry marshal ok dks s t db))) ks"
  shows "\<exists>ks'. range_order (telemetry s) ks' \<and>
    Summary ks (fst (PutTelemetry marshal ok dks s t db)) siteID = Summary ks' s siteID"
proof -
  let ?k = "stateKey (t_SiteID t) (t_DeviceID t)"
  let ?ks = "if ?k \<in> dom (telemetry s) then ks else removeAll ?k ks"
  have mem: "fst (PutTelemetry marshal ok dks s t db) = memTelemetry s t"
    by (rule PutTelemetry_resolved) fact
  have "range_order (telemetry s) ?ks"
    by (rule range_order_update [of _ _ t]) (use assms(6) in \<open>simp add: mem memTelemetry_def\<close>)
  moreover have "Summary ks (memTelemetry s t) siteID = Summary ?ks s siteID"
    by (simp add: Summary_eq_ref site_pairs_memTelemetry [OF assms(1-3,5)])
  ultimately show ?thesis unfolding mem by blast
qed

theorem summary_site_isolation_witness:
  "\<exists>ks'. range_order (telemetry NewStore) ks' \<and>
    Summary [stateKey ''s2'' ''b1''] (fst (PutTelemetry (\<lambda>_. None) True [] NewStore
      (zero_Telemetry\<lparr>t_SiteID := ''s2'', t_DeviceID := ''b1''\<rparr>) Map.empty)) ''s1'' = Summary ks' NewStore ''s1''"
  by (rule summary_site_isolation)
    (simp_all add: store_inv_def nul_free_sites_def NewStore_def zero_Telemetry_def range_order_def
       PutTelemetry_resolved memTelemetry_def)

text \<open>
  \<open>DeviceStates\<close> lists each device of the site exactly once, ordered by type and then id, and
  the result does not depend on the order in which Go's map iteration visits the devices.
\<close>
theorem device_states_listing:
  assumes "store_inv s" "range_order (devices s) ks" "range_order (devices s) ks'"
  shows "set (map rs_Device (DeviceStates ks s siteID now ttl)) = {d \<in> ran (devices s). d_SiteID d = siteID} \<and>
    distinct (map rs_Device (DeviceStates ks s siteID now ttl)) \<and>
    sorted (map (\<lambda>d. (d_Type d, d_ID d)) (map rs_Device (DeviceStates ks s siteID now ttl))) \<and>
    DeviceStates ks s siteID now ttl = DeviceStates ks' s siteID now ttl"
  using set_DeviceStates [OF assms(2)] distinct_DeviceStates [OF assms(1,2)] sorted_DeviceStates
    DeviceStates_order_indep [OF assms]
  by (auto simp: image_image comp_def)

theorem device_states_listing_witness:
  "set (map rs_Device (DeviceStates [stateKey ''s1'' ''b1'']
      (UpsertDevice 5 NewStore (zero_Device\<lparr>d_ID := ''b1'', d_SiteID := ''s1''\<rparr>)) ''s1'' 10 5)) =
    {zero_Device\<lparr>d_ID := ''b1'', d_SiteID := ''s1'', d_CreatedAt := 5\<rparr>}"
  by (subst conjunct1 [OF device_states_listing [where ks' = "[stateKey ''s1'' ''b1'']"]])
    (auto simp: store_inv_def UpsertDevice_def NewStore_def range_order_def zero_Device_def time_IsZero_def Let_def)

text \<open>
  A device counts as online exactly when its last telemetry is at most the TTL old (telemetry
  from the future counts as new), and the age shown is the whole seconds since then, for ages
  below \<open>2 ^ 22\<close> seconds. A device without telemetry is offline.
\<close>
theorem device_freshness:
  assumes "\<And>t. telemetry s (stateKey siteID (d_ID d)) = Some t \<Longrightarrow>
      time_Unix (t_Timestamp t) \<noteq> 0 \<and> now - time_Unix (t_Timestamp t) < 2 ^ 22 * Second"
  shows "case telemetry s (stateKey siteID (d_ID d)) of
      None \<Rightarrow> \<not> rs_Online (deviceState s siteID now ttl d)
    | Some t \<Rightarrow> (let age = max 0 (now - time_Unix (t_Timestamp t)); st = deviceState s siteID now ttl d in
        rs_Online st = (age \<le> ttl) \<and> rs_StaleForSec st = age div Second \<and> rs_Telemetry st = Some t)"
proof (cases "telemetry s (stateKey siteID (d_ID d))")
  case (Some t)
  with assms have t: "time_Unix (t_Timestamp t) \<noteq> 0" "now - time_Unix (t_Timestamp t) < 2 ^ 22 * Second" by auto
  let ?age = "max 0 (now - time_Unix (t_Timestamp t))"
  have "f_to_int64 (dur_Seconds ?age) = ?age div Second"
    by (rule dur_Seconds_trunc) (use t(2) in auto)
  with Some deviceState_seen [OF Some t(1), of now ttl] age_saturated [OF t(2)] show ?thesis
    by (simp only: Let_def option.case) simp
qed (simp add: deviceState_def Let_def)

theorem device_freshness_witness:
  "let s = memTelemetry NewStore (zero_Telemetry\<lparr>t_SiteID := ''s1'', t_DeviceID := ''b1'', t_Timestamp := 100\<rparr>);
       st = deviceState s ''s1'' (time_Unix 107) (15 * Second) (zero_Device\<lparr>d_ID := ''b1''\<rparr>) in
   rs_Online st \<and> rs_StaleForSec st = 7"
  using device_freshness [of "memTelemetry NewStore (zero_Telemetry\<lparr>t_SiteID := ''s1'', t_DeviceID := ''b1'', t_Timestamp := 100\<rparr>)"
      "''s1''" "zero_Device\<lparr>d_ID := ''b1''\<rparr>" "time_Unix 107" "15 * Second"]
  by (simp add: memTelemetry_def NewStore_def zero_Telemetry_def zero_Device_def time_Unix_def wrap64_def Let_def)

text \<open>
  A lookup by device id alone succeeds exactly when one device of all sites has that id, and
  returns that device, whatever the visiting order.
\<close>
theorem device_by_id_unique:
  assumes "store_inv s" "range_order (devices s) ks"
  shows "store_Device ks s i = Some d \<longleftrightarrow>
    d \<in> ran (devices s) \<and> d_ID d = i \<and> (\<forall>d' \<in> ran (devices s). d_ID d' = i \<longrightarrow> d' = d)"
  unfolding store_Device_def by (rule deviceByIDLocked_Some) fact+

theorem device_by_id_unique_witness:
  "store_Device [stateKey ''s1'' ''b1'']
      (UpsertDevice 5 NewStore (zero_Device\<lparr>d_ID := ''b1'', d_SiteID := ''s1''\<rparr>)) ''b1'' =
    Some (zero_Device\<lparr>d_ID := ''b1'', d_SiteID := ''s1'', d_CreatedAt := 5\<rparr>)"
  by (subst device_by_id_unique)
    (auto simp: store_inv_def UpsertDevice_def NewStore_def range_order_def zero_Device_def time_IsZero_def Let_def)

text \<open>
  C38. A restart loses no telemetry: while the Redis commands succeed and the JSON codec decodes
  what it encodes, any sequence of telemetry updates keeps the site's Redis hash equal to the
  memory, and a store created from that hash has the same latest telemetry. Telemetry is taken to
  name its site and device.
\<close>
theorem restart_restores_telemetry:
  assumes "mirrors marshal s db" "tele_ok marshal unmarshal s"
    and "\<forall>t \<in> set ts. full_ids t \<and> codec_on marshal unmarshal t"
    and "foldl (\<lambda>(s, db) t. PutTelemetry marshal True dks s t db) (s, db) ts = (s', db')"
    and "range_order (telemetry s') ks"
  shows "\<exists>r. NewRedisStore unmarshal True True ks (st_siteID s) db' = Some r \<and> telemetry r = telemetry s'"
  using PutTelemetry_seq_ok [OF assms(1-4)] restart_loads [of marshal s' db' unmarshal ks] assms(5) by auto

theorem restart_restores_telemetry_witness:
  "let t = zero_Telemetry\<lparr>t_SiteID := ''s1'', t_DeviceID := ''b1'', t_Timestamp := 7\<rparr>;
       s = NewStore\<lparr>has_redis := True, st_siteID := ''s1'', st_redisKey := telemetryKey ''s1''\<rparr>;
       (s', db') = PutTelemetry (\<lambda>t. Some (t_DeviceID t)) True [] s t Map.empty in
   \<exists>r. NewRedisStore (\<lambda>p. Some (zero_Telemetry\<lparr>t_SiteID := ''s1'', t_DeviceID := p, t_Timestamp := 7\<rparr>))
         True True [stateKey ''s1'' ''b1''] ''s1'' db' = Some r \<and> telemetry r = telemetry s'"
  using restart_restores_telemetry [where ts = "[zero_Telemetry\<lparr>t_SiteID := ''s1'', t_DeviceID := ''b1'', t_Timestamp := 7\<rparr>]"
      and s = "NewStore\<lparr>has_redis := True, st_siteID := ''s1'', st_redisKey := telemetryKey ''s1''\<rparr>"
      and db = Map.empty and marshal = "\<lambda>t. Some (t_DeviceID t)" and dks = "[]" and ks = "[stateKey ''s1'' ''b1'']"
      and unmarshal = "\<lambda>p. Some (zero_Telemetry\<lparr>t_SiteID := ''s1'', t_DeviceID := p, t_Timestamp := 7\<rparr>)"]
  by (simp add: mirrors_def tele_ok_def store_inv_def NewStore_def redis_HGetAll_def full_ids_def codec_on_def
      zero_Telemetry_def range_order_def PutTelemetry_def resolveSite_def memTelemetry_def Let_def)

end
