(* ===== verification/Scheduler.thy ===== *)
theory Scheduler
  imports Store
begin

text \<open>
  internal/scheduler/scheduler.go: the rule-based dispatcher. A tick reads the site's summary,
  devices and telemetry, and publishes commands through a \<open>Commander\<close>.

  The \<open>Commander\<close> is an interface of the source; here it is an argument that answers each call
  with an error or none. Each call of \<open>publish\<close> reads the clock twice (\<open>time.Now\<close> and
  \<open>time.Since\<close>); the readings are an argument \<open>clk\<close>, numbered in the order they are made. A run
  carries the scheduler's state, the number of readings so far and the log of the calls made to
  the commander, oldest first. The scheduler's mutexes make \<open>Policy\<close>, \<open>SetPolicy\<close> and the accesses
  to \<open>lastSent\<close> atomic; only the goroutine of \<open>Run\<close> ticks, so \<open>publish\<close> runs alone.

  Contents: the operations; what one \<open>publish\<close> and a loop of them add to the log; the cooldown, an
  invariant of the log; the decisions of a tick; properties.
\<close>

section \<open>State and operations\<close>

record Scheduler =
  sc_siteID :: string
  sc_policy :: Policy
  sc_lastSent :: "string \<rightharpoonup> time"
  sc_cooldown :: duration

type_synonym Commander = "nat \<Rightarrow> string \<Rightarrow> Device \<Rightarrow> Command \<Rightarrow> string option"

record PublishCall =
  pc_Device :: Device
  pc_Command :: Command
  pc_Now :: time
  pc_Checked :: time
  pc_OK :: bool

record SchedRun =
  run_sched :: Scheduler
  run_clk :: nat
  run_log :: "PublishCall list"

definition scheduler_New :: "string \<Rightarrow> Policy \<Rightarrow> Scheduler" where
  "scheduler_New siteID policy =
     \<lparr>sc_siteID = siteID, sc_policy = policy, sc_lastSent = Map.empty, sc_cooldown = 30 * Second\<rparr>"

definition sched_Policy :: "Scheduler \<Rightarrow> Policy" where
  "sched_Policy s = sc_policy s"

definition SetPolicy :: "Scheduler \<Rightarrow> Policy \<Rightarrow> Scheduler" where
  "SetPolicy s p = s\<lparr>sc_policy := p\<rparr>"

definition commandKey :: "string \<Rightarrow> string \<Rightarrow> gmap \<Rightarrow> string" where
  "commandKey deviceID action params =
     (let payload = (case marshal_gmap params of None \<Rightarrow> [] | Some p \<Rightarrow> p) in
      deviceID @ '':'' @ action @ '':'' @ payload)"

definition lastSent_at :: "Scheduler \<Rightarrow> string \<Rightarrow> time" where
  "lastSent_at s key = (case sc_lastSent s key of None \<Rightarrow> 0 | Some t \<Rightarrow> t)"

definition in_cooldown :: "Scheduler \<Rightarrow> string \<Rightarrow> time \<Rightarrow> bool" where
  "in_cooldown s key since_now =
     (case sc_lastSent s key of
        None \<Rightarrow> False
      | Some sent \<Rightarrow> time_Sub since_now sent < sc_cooldown s)"

definition sched_cmd :: "Device \<Rightarrow> string \<Rightarrow> string \<Rightarrow> gmap \<Rightarrow> time \<Rightarrow> Command" where
  "sched_cmd d action reason params now =
     \<lparr>c_CommandID = d_ID d @ ''-'' @ fmt_d (time_unix_nano now), c_Action = action,
      c_Params = params, c_IssuedAt = time_unix_sec now, c_Reason = reason\<rparr>"

definition publish ::
  "(nat \<Rightarrow> time) \<Rightarrow> Commander \<Rightarrow> Device \<Rightarrow> string \<Rightarrow> string \<Rightarrow> gmap \<Rightarrow> SchedRun \<Rightarrow> bool \<times> SchedRun" where
  "publish clk commander d action reason params r =
     (let key = commandKey (d_ID d) action params;
          n = run_clk r;
          now = clk n;
          since_now = clk (n + 1);
          s = run_sched r;
          r1 = r\<lparr>run_clk := n + 2\<rparr> in
      if in_cooldown s key since_now then (False, r1)
      else
        let s1 = s\<lparr>sc_lastSent := (sc_lastSent s)(key \<mapsto> now)\<rparr>;
            cmd = sched_cmd d action reason params now;
            err = commander n (sc_siteID s1) d cmd;
            call = \<lparr>pc_Device = d, pc_Command = cmd, pc_Now = now, pc_Checked = since_now, pc_OK = (err = None)\<rparr>;
            r2 = r1\<lparr>run_log := run_log r1 @ [call]\<rparr> in
        if err \<noteq> None then
          let s2 = (if lastSent_at s1 key = now
                    then s1\<lparr>sc_lastSent := (sc_lastSent s1)(key := None)\<rparr> else s1) in
          (False, r2\<lparr>run_sched := s2\<rparr>)
        else (True, r2\<lparr>run_sched := s1\<rparr>))"

text \<open>\<open>telemetry[b.ID].Metrics["soc"]\<close>: zero when the device or the metric is missing.\<close>

definition soc_of :: "(string \<rightharpoonup> Telemetry) \<Rightarrow> Device \<Rightarrow> float64" where
  "soc_of tele b = metric (case tele (d_ID b) of None \<Rightarrow> Map.empty | Some t \<Rightarrow> t_Metrics t) ''soc''"

text \<open>The two loops over the batteries; the flag is \<open>dispatched\<close>.\<close>

fun charge_loop where
  "charge_loop clk commander policy tele [] r = r"
| "charge_loop clk commander policy tele (b # bs) r =
     charge_loop clk commander policy tele bs
       (if f_lt (soc_of tele b) (p_BatteryMaxSOC policy) then
          snd (publish clk commander b ''set_mode'' ''pv surplus: charge battery''
                 (Some [(''mode'', GStr ''charging'')]) r)
        else r)"

fun discharge_loop where
  "discharge_loop clk commander policy tele [] (dispatched, r) = (dispatched, r)"
| "discharge_loop clk commander policy tele (b # bs) (dispatched, r) =
     discharge_loop clk commander policy tele bs
       (if f_lt (p_BatteryMinSOC policy) (soc_of tele b) then
          (case publish clk commander b ''set_mode'' ''load deficit: discharge battery''
                 (Some [(''mode'', GStr ''discharging'')]) r of
             (ok, r') \<Rightarrow> (if ok then True else dispatched, r'))
        else (dispatched, r))"

fun shed_loop where
  "shed_loop clk commander [] r = r"
| "shed_loop clk commander (load # loads) r =
     (if \<not> d_CriticalLoad load then
        snd (publish clk commander load ''set_relay'' ''load shed: non-critical load off''
               (Some [(''on'', GBool False)]) r)
      else shed_loop clk commander loads r)"

definition site_devices :: "string list \<Rightarrow> Store \<Rightarrow> string \<Rightarrow> DeviceType \<Rightarrow> Device list" where
  "site_devices ks store siteID typ = filter (\<lambda>d. d_SiteID d = siteID \<and> d_Type d = typ) (Devices ks store)"

text \<open>
  \<open>Tick\<close>: the three visiting orders belong to the loops in \<open>Summary\<close>, \<open>Devices\<close> and
  \<open>TelemetryForSite\<close>.
\<close>

definition Tick ::
  "(nat \<Rightarrow> time) \<Rightarrow> Commander \<Rightarrow> string list \<times> string list \<times> string list \<Rightarrow> Store \<Rightarrow> SchedRun \<Rightarrow> SchedRun" where
  "Tick clk commander orders store r =
     (case orders of (ks1, ks2, ks3) \<Rightarrow>
        let policy = sched_Policy (run_sched r);
            siteID = sc_siteID (run_sched r);
            summary = Summary ks1 store siteID;
            tele = TelemetryForSite ks3 store siteID;
            batteries = site_devices ks2 store siteID DeviceBattery;
            loads = site_devices ks2 store siteID DeviceLoad;
            net = s_NetPowerW summary in
        if f_lt net (Fin (- 10)) then charge_loop clk commander policy tele batteries r
        else
          let (dispatched, r1) =
                (if f_lt (Fin 10) net then discharge_loop clk commander policy tele batteries (False, r)
                 else (False, r)) in
          if dispatched then r1
          else if f_lt (p_LoadShedThreshold policy) net then shed_loop clk commander loads r1
          else r1)"

text \<open>
  \<open>Run\<close>: the loop answers the events its \<open>select\<close> receives, in order: the ticker with the store
  as it is then, a change of the policy made meanwhile by the API, or the end of the context.
\<close>

datatype sched_event =
    CtxDone
  | TickerC "string list \<times> string list \<times> string list" Store
  | PolicySet Policy

fun run_loop :: "(nat \<Rightarrow> time) \<Rightarrow> Commander \<Rightarrow> sched_event list \<Rightarrow> SchedRun \<Rightarrow> SchedRun" where
  "run_loop clk commander [] r = r"
| "run_loop clk commander (CtxDone # _) r = r"
| "run_loop clk commander (TickerC orders store # es) r = run_loop clk commander es (Tick clk commander orders store r)"
| "run_loop clk commander (PolicySet p # es) r =
     run_loop clk commander es (r\<lparr>run_sched := SetPolicy (run_sched r) p\<rparr>)"

definition Run :: "(nat \<Rightarrow> time) \<Rightarrow> Commander \<Rightarrow> duration \<Rightarrow> sched_event list \<Rightarrow> SchedRun \<Rightarrow> SchedRun" where
  "Run clk commander interval es r = (if interval \<le> 0 then r else run_loop clk commander es r)"

definition ValidatePolicy :: "Policy \<Rightarrow> string option" where
  "ValidatePolicy p =
     (if f_lt (p_BatteryMinSOC p) (Fin 0) \<or> f_lt (Fin 1) (p_BatteryMinSOC p) then
        Some ''battery_min_soc must be between 0 and 1''
      else if f_lt (p_BatteryMaxSOC p) (Fin 0) \<or> f_lt (Fin 1) (p_BatteryMaxSOC p) then
        Some ''battery_max_soc must be between 0 and 1''
      else if f_lt (p_BatteryMaxSOC p) (p_BatteryMinSOC p) then
        Some ''battery_min_soc must be <= battery_max_soc''
      else if f_lt (p_LoadShedThreshold p) (Fin 0) then
        Some ''load_shed_threshold_w must be >= 0''
      else None)"

section \<open>One publish\<close>

text \<open>The entry a publish adds to the log when the cooldown lets it through.\<close>

definition call_of ::
  "(nat \<Rightarrow> time) \<Rightarrow> Commander \<Rightarrow> Device \<Rightarrow> string \<Rightarrow> string \<Rightarrow> gmap \<Rightarrow> SchedRun \<Rightarrow> PublishCall" where
  "call_of clk commander d action reason params r =
     (let n = run_clk r; cmd = sched_cmd d action reason params (clk n) in
      \<lparr>pc_Device = d, pc_Command = cmd, pc_Now = clk n, pc_Checked = clk (n + 1),
       pc_OK = (commander n (sc_siteID (run_sched r)) d cmd = None)\<rparr>)"

text \<open>The key under which \<open>lastSent\<close> remembers a call.\<close>

definition call_key :: "PublishCall \<Rightarrow> string" where
  "call_key c = commandKey (d_ID (pc_Device c)) (c_Action (pc_Command c)) (c_Params (pc_Command c))"

definition blocked :: "(nat \<Rightarrow> time) \<Rightarrow> Device \<Rightarrow> string \<Rightarrow> gmap \<Rightarrow> SchedRun \<Rightarrow> bool" where
  "blocked clk d action params r = in_cooldown (run_sched r) (commandKey (d_ID d) action params) (clk (run_clk r + 1))"

lemma publish_eq:
  "publish clk commander d action reason params r =
    (if blocked clk d action params r then (False, r\<lparr>run_clk := run_clk r + 2\<rparr>)
     else let call = call_of clk commander d action reason params r in
       (pc_OK call,
        r\<lparr>run_clk := run_clk r + 2, run_log := run_log r @ [call],
          run_sched := (run_sched r)\<lparr>sc_lastSent := (sc_lastSent (run_sched r))
            (call_key call := if pc_OK call then Some (pc_Now call) else None)\<rparr>\<rparr>))"
  by (simp add: publish_def blocked_def call_of_def call_key_def sched_cmd_def lastSent_at_def Let_def)

lemma call_of_fields [simp]:
  "pc_Device (call_of clk commander d action reason params r) = d"
  "pc_Command (call_of clk commander d action reason params r) = sched_cmd d action reason params (clk (run_clk r))"
  "call_key (call_of clk commander d action reason params r) = commandKey (d_ID d) action params"
  "pc_Now (call_of clk commander d action reason params r) = clk (run_clk r)"
  "pc_Checked (call_of clk commander d action reason params r) = clk (run_clk r + 1)"
  by (simp_all add: call_of_def call_key_def sched_cmd_def Let_def)

text \<open>What every publish keeps, and that it only appends to the log.\<close>

lemma publish_frame:
  assumes "publish clk commander d action reason params r = (ok, r')"
  shows "run_clk r' = run_clk r + 2"
    "sc_siteID (run_sched r') = sc_siteID (run_sched r)" "sc_policy (run_sched r') = sc_policy (run_sched r)"
    "sc_cooldown (run_sched r') = sc_cooldown (run_sched r)"
  using assms by (auto simp: publish_eq Let_def split: if_splits)

section \<open>Sequences of publishes\<close>

text \<open>The loops of a tick all publish one kind of command to a list of devices.\<close>

fun pub_all where
  "pub_all clk commander action reason params [] r = (False, r)"
| "pub_all clk commander action reason params (d # ds) r =
     (case publish clk commander d action reason params r of (ok, r1) \<Rightarrow>
        case pub_all clk commander action reason params ds r1 of (ok', r2) \<Rightarrow> (ok \<or> ok', r2))"

lemma charge_loop_eq:
  "charge_loop clk commander policy tele bs r =
    snd (pub_all clk commander ''set_mode'' ''pv surplus: charge battery'' (Some [(''mode'', GStr ''charging'')])
      (filter (\<lambda>b. f_lt (soc_of tele b) (p_BatteryMaxSOC policy)) bs) r)"
  by (induction bs arbitrary: r) (auto split: prod.split)

lemma discharge_loop_eq:
  "discharge_loop clk commander policy tele bs (dispatched, r) =
    (case pub_all clk commander ''set_mode'' ''load deficit: discharge battery'' (Some [(''mode'', GStr ''discharging'')])
      (filter (\<lambda>b. f_lt (p_BatteryMinSOC policy) (soc_of tele b)) bs) r of (ok, r') \<Rightarrow> (dispatched \<or> ok, r'))"
  by (induction bs arbitrary: dispatched r) (auto split: prod.split)

lemma shed_loop_eq:
  "shed_loop clk commander loads r =
    snd (pub_all clk commander ''set_relay'' ''load shed: non-critical load off'' (Some [(''on'', GBool False)])
      (take 1 (filter (\<lambda>d. \<not> d_CriticalLoad d) loads)) r)"
  by (induction loads arbitrary: r) (auto split: prod.split)

text \<open>
  A run of publishes, each of a command that \<open>A\<close> allows: \<open>A\<close> speaks of the device, the action
  and the parameters.
\<close>

inductive pub_step :: "(nat \<Rightarrow> time) \<Rightarrow> Commander \<Rightarrow> (Device \<Rightarrow> string \<Rightarrow> gmap \<Rightarrow> bool) \<Rightarrow> SchedRun \<Rightarrow> SchedRun \<Rightarrow> bool"
  for clk commander A where
  pub: "A d action params \<Longrightarrow> publish clk commander d action reason params r = (ok, r') \<Longrightarrow> pub_step clk commander A r r'"

inductive_cases pub_stepE: "pub_step clk commander A r r'"

lemma pub_all_steps:
  assumes "\<forall>d \<in> set ds. A d action params"
  shows "(pub_step clk commander A)\<^sup>*\<^sup>* r (snd (pub_all clk commander action reason params ds r))"
  using assms
proof (induction ds arbitrary: r)
  case (Cons d ds)
  obtain ok r1 where 1: "publish clk commander d action reason params r = (ok, r1)" by force
  with Cons.prems have "pub_step clk commander A r r1" by (auto intro: pub)
  also have "(pub_step clk commander A)\<^sup>*\<^sup>* r1 (snd (pub_all clk commander action reason params ds r1))"
    using Cons by simp
  finally show ?case by (simp add: 1 split_beta)
qed simp

lemma pub_steps_mono:
  assumes "(pub_step clk commander A)\<^sup>*\<^sup>* r r'" "\<And>d a p. A d a p \<Longrightarrow> B d a p"
  shows "(pub_step clk commander B)\<^sup>*\<^sup>* r r'"
proof -
  have "pub_step clk commander A \<le> pub_step clk commander B"
    using assms(2) by (auto elim!: pub_stepE intro: pub)
  with assms(1) show ?thesis using rtranclp_mono by blast
qed

text \<open>What a run adds to the log is allowed, and the site, policy and cooldown stay.\<close>

definition log_extends :: "(Device \<Rightarrow> string \<Rightarrow> gmap \<Rightarrow> bool) \<Rightarrow> SchedRun \<Rightarrow> SchedRun \<Rightarrow> bool" where
  "log_extends A r0 r \<longleftrightarrow>
     (\<exists>new. run_log r = run_log r0 @ new \<and>
        (\<forall>c \<in> set new. A (pc_Device c) (c_Action (pc_Command c)) (c_Params (pc_Command c)))) \<and>
     sc_siteID (run_sched r) = sc_siteID (run_sched r0) \<and> sc_policy (run_sched r) = sc_policy (run_sched r0) \<and>
     sc_cooldown (run_sched r) = sc_cooldown (run_sched r0)"

lemma log_extends_refl: "log_extends A r r"
  by (simp add: log_extends_def)

interpretation pub_log: keeps_invariant "pub_step clk commander A" "log_extends A r0" for clk commander A r0
proof
  fix s s'
  assume "log_extends A r0 s" "pub_step clk commander A s s'"
  then show "log_extends A r0 s'"
    by (auto simp: log_extends_def publish_eq Let_def sched_cmd_def split: if_splits elim!: pub_stepE)
qed

section \<open>The cooldown\<close>

text \<open>
  Two successful calls with the same key are a cooldown apart: the check of the later one is made
  at least that long after the time the earlier one was stamped with. Each successful call is
  remembered in \<open>lastSent\<close> until the cooldown is over. The two times of a call are consecutive
  readings of the clock, the first of which its command carries in its id.
\<close>

definition spaced :: "duration \<Rightarrow> PublishCall list \<Rightarrow> bool" where
  "spaced cd cs \<longleftrightarrow> (\<forall>i j. i < j \<and> j < length cs \<and> pc_OK (cs ! i) \<and> pc_OK (cs ! j) \<and> call_key (cs ! i) = call_key (cs ! j) \<longrightarrow>
     pc_Now (cs ! i) + cd \<le> pc_Checked (cs ! j))"

definition clock_stamped :: "(nat \<Rightarrow> time) \<Rightarrow> PublishCall \<Rightarrow> bool" where
  "clock_stamped clk c \<longleftrightarrow> (\<exists>n. pc_Now c = clk n \<and> pc_Checked c = clk (Suc n)) \<and>
     c_CommandID (pc_Command c) = d_ID (pc_Device c) @ ''-'' @ fmt_d (time_unix_nano (pc_Now c))"

definition remembered :: "(nat \<Rightarrow> time) \<Rightarrow> SchedRun \<Rightarrow> PublishCall \<Rightarrow> bool" where
  "remembered clk r c \<longleftrightarrow>
     (\<exists>t. sc_lastSent (run_sched r) (call_key c) = Some t \<and> pc_Now c \<le> t) \<or>
     pc_Now c + sc_cooldown (run_sched r) \<le> clk (run_clk r)"

definition cool_inv :: "(nat \<Rightarrow> time) \<Rightarrow> SchedRun \<Rightarrow> bool" where
  "cool_inv clk r \<longleftrightarrow>
     mono clk \<and> 0 < sc_cooldown (run_sched r) \<and> spaced (sc_cooldown (run_sched r)) (run_log r) \<and>
     (\<forall>c \<in> set (run_log r). clock_stamped clk c \<and> pc_Now c \<le> clk (run_clk r) \<and> (pc_OK c \<longrightarrow> remembered clk r c))"

lemma spaced_snoc:
  "spaced cd (cs @ [c]) \<longleftrightarrow> spaced cd cs \<and>
    (pc_OK c \<longrightarrow> (\<forall>c' \<in> set cs. pc_OK c' \<and> call_key c' = call_key c \<longrightarrow> pc_Now c' + cd \<le> pc_Checked c))"
  by (fastforce simp: spaced_def nth_append less_Suc_eq in_set_conv_nth)

lemma not_in_cooldown:
  assumes "\<not> in_cooldown s key t" "0 < sc_cooldown s" "sc_lastSent s key = Some u"
  shows "u + sc_cooldown s \<le> t"
  using assms by (auto simp: in_cooldown_def time_Sub_def sat64_def split: if_splits)

lemma remembered_not_blocked:
  assumes "remembered clk r c" "mono clk" "0 < sc_cooldown (run_sched r)"
    "\<not> in_cooldown (run_sched r) (call_key c) (clk (run_clk r + 1))"
  shows "pc_Now c + sc_cooldown (run_sched r) \<le> clk (run_clk r + 1)"
  using assms(1) not_in_cooldown [OF assms(4,3)] monoD [OF assms(2), of "run_clk r" "run_clk r + 1"]
  by (fastforce simp: remembered_def)

interpretation cooldown: keeps_invariant "pub_step clk commander A" "cool_inv clk" for clk commander A
proof
  fix r r'
  assume inv: "cool_inv clk r" and "pub_step clk commander A r r'"
  then obtain d action params reason ok where
    p: "publish clk commander d action reason params r = (ok, r')" by (auto elim: pub_stepE)
  let ?n = "run_clk r" and ?call = "call_of clk commander d action reason params r"
  have mono: "clk ?n \<le> clk (?n + 1)" "clk (?n + 1) \<le> clk (?n + 2)" "clk ?n \<le> clk (?n + 2)"
    using inv by (auto simp: cool_inv_def mono_def)
  show "cool_inv clk r'"
  proof (cases "blocked clk d action params r")
    case True
    with p have "r' = r\<lparr>run_clk := ?n + 2\<rparr>" by (simp add: publish_eq)
    with inv mono show ?thesis by (fastforce simp: cool_inv_def remembered_def)
  next
    case False
    with p have r': "r' = r\<lparr>run_clk := ?n + 2, run_log := run_log r @ [?call],
        run_sched := (run_sched r)\<lparr>sc_lastSent := (sc_lastSent (run_sched r))
          (call_key ?call := if pc_OK ?call then Some (pc_Now ?call) else None)\<rparr>\<rparr>"
      by (auto simp: publish_eq Let_def)
    have old: "pc_Now c + sc_cooldown (run_sched r) \<le> clk (?n + 1)"
      if "c \<in> set (run_log r)" "pc_OK c" "call_key c = call_key ?call" for c
      using remembered_not_blocked [of clk r c] that inv False by (auto simp: cool_inv_def blocked_def)
    have "spaced (sc_cooldown (run_sched r)) (run_log r')"
      using inv old by (auto simp: r' cool_inv_def spaced_snoc)
    moreover have "remembered clk r' c" if c: "c \<in> set (run_log r')" "pc_OK c" for c
    proof (cases "c \<in> set (run_log r)")
      case True
      then have "pc_Now c \<le> clk ?n" "remembered clk r c" using inv c by (auto simp: cool_inv_def)
      with mono old [OF True c(2)] show ?thesis by (fastforce simp: r' remembered_def)
    qed (use c in \<open>auto simp: r' remembered_def\<close>)
    moreover have "pc_Now c \<le> clk (?n + 2)" if "c \<in> set (run_log r')" for c
      using that inv mono by (fastforce simp: r' cool_inv_def)
    moreover have "clock_stamped clk ?call" by (auto simp: clock_stamped_def sched_cmd_def)
    ultimately show ?thesis using inv by (simp add: r' cool_inv_def)
  qed
qed

section \<open>The decisions of a tick\<close>

abbreviation charging :: gmap where "charging \<equiv> Some [(''mode'', GStr ''charging'')]"
abbreviation discharging :: gmap where "discharging \<equiv> Some [(''mode'', GStr ''discharging'')]"
abbreviation relay_off :: gmap where "relay_off \<equiv> Some [(''on'', GBool False)]"

text \<open>What a tick may publish, from the net power, the policy and the battery's SOC.\<close>

definition tick_allows :: "string \<Rightarrow> Policy \<Rightarrow> float64 \<Rightarrow> (Device \<Rightarrow> float64) \<Rightarrow> Device \<Rightarrow> string \<Rightarrow> gmap \<Rightarrow> bool" where
  "tick_allows siteID policy net soc d action params \<longleftrightarrow>
     d_SiteID d = siteID \<and>
     (d_Type d = DeviceBattery \<and> action = ''set_mode'' \<and> params = charging \<and>
        f_lt net (Fin (- 10)) \<and> f_lt (soc d) (p_BatteryMaxSOC policy) \<or>
      d_Type d = DeviceBattery \<and> action = ''set_mode'' \<and> params = discharging \<and>
        f_lt (Fin 10) net \<and> f_lt (p_BatteryMinSOC policy) (soc d) \<or>
      d_Type d = DeviceLoad \<and> action = ''set_relay'' \<and> params = relay_off \<and>
        \<not> d_CriticalLoad d \<and> f_lt (p_LoadShedThreshold policy) net \<and> \<not> f_lt net (Fin (- 10)))"

lemma set_site_devices:
  "d \<in> set (site_devices ks store siteID typ) \<Longrightarrow> d_SiteID d = siteID \<and> d_Type d = typ"
  by (simp add: site_devices_def)

lemma Tick_eq:
  "Tick clk commander (ks1, ks2, ks3) store r =
    (let policy = sc_policy (run_sched r); siteID = sc_siteID (run_sched r);
         net = s_NetPowerW (Summary ks1 store siteID); soc = soc_of (TelemetryForSite ks3 store siteID);
         batteries = site_devices ks2 store siteID DeviceBattery;
         (dispatched, r1) = pub_all clk commander ''set_mode'' ''load deficit: discharge battery'' discharging
           (if f_lt (Fin 10) net then filter (\<lambda>b. f_lt (p_BatteryMinSOC policy) (soc b)) batteries else []) r in
     if f_lt net (Fin (- 10)) then
       snd (pub_all clk commander ''set_mode'' ''pv surplus: charge battery'' charging
              (filter (\<lambda>b. f_lt (soc b) (p_BatteryMaxSOC policy)) batteries) r)
     else if dispatched \<or> \<not> f_lt (p_LoadShedThreshold policy) net then r1
     else snd (pub_all clk commander ''set_relay'' ''load shed: non-critical load off'' relay_off
            (take 1 (filter (\<lambda>d. \<not> d_CriticalLoad d) (site_devices ks2 store siteID DeviceLoad))) r1))"
  unfolding Tick_def charge_loop_eq discharge_loop_eq shed_loop_eq sched_Policy_def Let_def
  by (auto split: prod.split)

text \<open>A tick is a run of allowed publishes.\<close>

lemma Tick_steps:
  "(pub_step clk commander (tick_allows (sc_siteID (run_sched r)) (sc_policy (run_sched r))
      (s_NetPowerW (Summary ks1 store (sc_siteID (run_sched r))))
      (soc_of (TelemetryForSite ks3 store (sc_siteID (run_sched r))))))\<^sup>*\<^sup>* r
    (Tick clk commander (ks1, ks2, ks3) store r)"
    (is "(pub_step clk commander ?A)\<^sup>*\<^sup>* r _")
proof -
  let ?S = "\<lambda>a m p ds. pub_all clk commander a m p ds"
  let ?net = "s_NetPowerW (Summary ks1 store (sc_siteID (run_sched r)))"
  let ?soc = "soc_of (TelemetryForSite ks3 store (sc_siteID (run_sched r)))"
  let ?bs = "site_devices ks2 store (sc_siteID (run_sched r)) DeviceBattery"
  let ?ls = "site_devices ks2 store (sc_siteID (run_sched r)) DeviceLoad"
  let ?d = "?S ''set_mode'' ''load deficit: discharge battery'' discharging
      (if f_lt (Fin 10) ?net then filter (\<lambda>b. f_lt (p_BatteryMinSOC (sc_policy (run_sched r))) (?soc b)) ?bs else []) r"
  have dis: "(pub_step clk commander ?A)\<^sup>*\<^sup>* r (snd ?d)"
    by (rule pub_all_steps) (auto simp: tick_allows_def dest: set_site_devices)
  have chg: "(pub_step clk commander ?A)\<^sup>*\<^sup>* r (snd (?S ''set_mode'' ''pv surplus: charge battery'' charging
      (filter (\<lambda>b. f_lt (?soc b) (p_BatteryMaxSOC (sc_policy (run_sched r)))) ?bs) r))" if "f_lt ?net (Fin (- 10))"
    by (rule pub_all_steps) (use that in \<open>auto simp: tick_allows_def dest: set_site_devices\<close>)
  have shed: "(pub_step clk commander ?A)\<^sup>*\<^sup>* r1 (snd (?S ''set_relay'' ''load shed: non-critical load off'' relay_off
      (take 1 (filter (\<lambda>d. \<not> d_CriticalLoad d) ?ls)) r1))"
    if "\<not> f_lt ?net (Fin (- 10))" "f_lt (p_LoadShedThreshold (sc_policy (run_sched r))) ?net" for r1
    by (rule pub_all_steps) (use that in \<open>auto simp: tick_allows_def dest!: in_set_takeD set_site_devices\<close>)
  show ?thesis
    unfolding Tick_eq Let_def using dis chg shed by (auto simp: split_beta intro: rtranclp_trans [OF dis])
qed

lemma Tick_log:
  "log_extends (tick_allows (sc_siteID (run_sched r)) (sc_policy (run_sched r))
      (s_NetPowerW (Summary ks1 store (sc_siteID (run_sched r))))
      (soc_of (TelemetryForSite ks3 store (sc_siteID (run_sched r))))) r
    (Tick clk commander (ks1, ks2, ks3) store r)"
  by (rule pub_log.inv_steps [OF Tick_steps log_extends_refl])

lemma Tick_cool_inv: "cool_inv clk r \<Longrightarrow> cool_inv clk (Tick clk commander orders store r)"
  by (cases orders) (auto intro: cooldown.inv_steps [OF Tick_steps])

lemma Tick_cooldown: "sc_cooldown (run_sched (Tick clk commander orders store r)) = sc_cooldown (run_sched r)"
  using Tick_log by (cases orders) (simp add: log_extends_def)

lemma run_loop_cool_inv:
  "cool_inv clk r \<Longrightarrow> cool_inv clk (run_loop clk commander es r) \<and>
     sc_cooldown (run_sched (run_loop clk commander es r)) = sc_cooldown (run_sched r)"
proof (induction clk commander es r rule: run_loop.induct)
  case (4 clk commander p es r)
  have "cool_inv clk (r\<lparr>run_sched := SetPolicy (run_sched r) p\<rparr>)"
    using 4(2) by (simp add: cool_inv_def remembered_def SetPolicy_def)
  with 4(1) show ?case by (simp add: SetPolicy_def)
qed (simp_all add: Tick_cool_inv Tick_cooldown)

text \<open>The commands a tick intends: the first of the three rules that applies.\<close>

definition tick_plan ::
  "Policy \<Rightarrow> float64 \<Rightarrow> (Device \<Rightarrow> float64) \<Rightarrow> Device list \<Rightarrow> Device list \<Rightarrow> (Device \<times> string \<times> gmap) list" where
  "tick_plan policy net soc batteries loads =
     (let below = filter (\<lambda>b. f_lt (soc b) (p_BatteryMaxSOC policy)) batteries;
          above = filter (\<lambda>b. f_lt (p_BatteryMinSOC policy) (soc b)) batteries in
      if f_lt net (Fin (- 10)) then map (\<lambda>b. (b, ''set_mode'', charging)) below
      else if f_lt (Fin 10) net \<and> above \<noteq> [] then map (\<lambda>b. (b, ''set_mode'', discharging)) above
      else if f_lt (p_LoadShedThreshold policy) net
        then map (\<lambda>l. (l, ''set_relay'', relay_off)) (take 1 (filter (\<lambda>l. \<not> d_CriticalLoad l) loads))
      else [])"

definition sent :: "PublishCall \<Rightarrow> Device \<times> string \<times> gmap" where
  "sent c = (pc_Device c, c_Action (pc_Command c), c_Params (pc_Command c))"

lemma commandKey_inj: "commandKey i a p = commandKey j a p \<longleftrightarrow> i = j"
  by (simp add: commandKey_def Let_def)

definition free_keys :: "(nat \<Rightarrow> time) \<Rightarrow> Device list \<Rightarrow> string \<Rightarrow> gmap \<Rightarrow> SchedRun \<Rightarrow> bool" where
  "free_keys clk ds action params r \<longleftrightarrow>
     (\<forall>d \<in> set ds. \<forall>m. \<not> in_cooldown (run_sched r) (commandKey (d_ID d) action params) (clk m))"

lemma publish_other_key:
  "key \<noteq> commandKey (d_ID d) action params \<Longrightarrow>
    in_cooldown (run_sched (snd (publish clk commander d action reason params r))) key t = in_cooldown (run_sched r) key t"
  by (simp add: publish_eq Let_def in_cooldown_def split: option.split)

definition delivers :: "SchedRun \<Rightarrow> SchedRun \<Rightarrow> (Device \<times> string \<times> gmap) list \<Rightarrow> bool" where
  "delivers r r' xs \<longleftrightarrow> (\<exists>new. run_log r' = run_log r @ new \<and> list_all pc_OK new \<and> map sent new = xs)"

lemma delivers_Nil: "delivers r r []"
  by (simp add: delivers_def)

lemma delivers_trans: "delivers r r1 xs \<Longrightarrow> delivers r1 r2 ys \<Longrightarrow> delivers r r2 (xs @ ys)"
  by (fastforce simp: delivers_def)

lemma publish_free:
  assumes "\<not> blocked clk d action params r" "\<And>n site d cmd. commander n site d cmd = None"
  shows "fst (publish clk commander d action reason params r)"
    "delivers r (snd (publish clk commander d action reason params r)) [(d, action, params)]"
  using assms by (auto simp: publish_eq Let_def delivers_def sent_def sched_cmd_def call_of_def)

lemma pub_all_free:
  assumes "distinct (map d_ID ds)" "free_keys clk ds action params r" "\<And>n site d cmd. commander n site d cmd = None"
  shows "fst (pub_all clk commander action reason params ds r) = (ds \<noteq> []) \<and>
    delivers r (snd (pub_all clk commander action reason params ds r)) (map (\<lambda>d. (d, action, params)) ds)"
  using assms(1,2)
proof (induction ds arbitrary: r)
  case (Cons d ds)
  let ?r1 = "snd (publish clk commander d action reason params r)"
  have nb: "\<not> blocked clk d action params r" using Cons.prems(2) by (simp add: free_keys_def blocked_def)
  note first = publish_free [where commander = commander and reason = reason, OF nb assms(3)]
  have "commandKey (d_ID e) action params \<noteq> commandKey (d_ID d) action params" if "e \<in> set ds" for e
    using that Cons.prems(1) by (metis commandKey_inj distinct.simps(2) image_eqI list.set_map list.simps(9))
  then have "free_keys clk ds action params ?r1"
    using Cons.prems(2) by (simp add: free_keys_def publish_other_key)
  with Cons have "delivers ?r1 (snd (pub_all clk commander action reason params ds ?r1)) (map (\<lambda>d. (d, action, params)) ds)"
    by simp
  with first show ?case
    using delivers_trans [OF first(2)] by (simp add: split_beta)
qed (simp add: delivers_Nil)

lemma distinct_site_devices:
  assumes "store_inv s" "range_order (devices s) ks"
  shows "distinct (map d_ID (site_devices ks s siteID typ))"
proof -
  have "inj_on d_ID (set (site_devices ks s siteID typ))"
    using store_inv_same_device [OF assms(1)] set_range_vals [OF assms(2)]
    by (auto simp: inj_on_def site_devices_def Devices_def)
  with distinct_Devices [OF assms] show ?thesis by (simp add: distinct_map site_devices_def)
qed

lemma distinct_map_filter_take: "distinct (map f xs) \<Longrightarrow> distinct (map f (take n (filter P xs)))"
  by (simp add: distinct_map_filter take_map [symmetric])

lemma Tick_plan:
  assumes inv: "store_inv store" "range_order (devices store) ks2"
    and free: "\<forall>key m. \<not> in_cooldown (run_sched r) key (clk m)"
    and ok: "\<And>n site d cmd. commander n site d cmd = None"
  shows "delivers r (Tick clk commander (ks1, ks2, ks3) store r)
    (tick_plan (sc_policy (run_sched r)) (s_NetPowerW (Summary ks1 store (sc_siteID (run_sched r))))
      (soc_of (TelemetryForSite ks3 store (sc_siteID (run_sched r))))
      (site_devices ks2 store (sc_siteID (run_sched r)) DeviceBattery)
      (site_devices ks2 store (sc_siteID (run_sched r)) DeviceLoad))"
proof -
  have pub: "fst (pub_all clk commander action reason params ds r) = (ds \<noteq> [])"
      "delivers r (snd (pub_all clk commander action reason params ds r)) (map (\<lambda>d. (d, action, params)) ds)"
    if "distinct (map d_ID ds)" for action reason params ds
    using pub_all_free [where commander = commander and reason = reason and r = r, OF that _ ok] free by (simp_all add: free_keys_def)
  note pubs = pub [OF distinct_map_filter [OF distinct_site_devices [OF inv]]]
    pub [OF distinct_map_filter_take [OF distinct_site_devices [OF inv]]]
  show ?thesis
    unfolding Tick_eq tick_plan_def Let_def by (auto simp: split_beta pubs delivers_Nil)
qed

section \<open>An example site\<close>

text \<open>One battery at half charge and one non-critical load of 100 W, for the witnesses.\<close>

definition ex_battery :: Device where
  "ex_battery = zero_Device\<lparr>d_ID := ''b1'', d_SiteID := ''s1'', d_Type := DeviceBattery\<rparr>"

definition ex_load :: Device where
  "ex_load = zero_Device\<lparr>d_ID := ''l1'', d_SiteID := ''s1'', d_Type := DeviceLoad\<rparr>"

definition ex_battery_tele :: Telemetry where
  "ex_battery_tele = zero_Telemetry\<lparr>t_DeviceID := ''b1'', t_SiteID := ''s1'', t_Timestamp := 7,
     t_Metrics := [''power'' \<mapsto> Fin 0, ''soc'' \<mapsto> Fin (1/2)]\<rparr>"

definition ex_load_tele :: Telemetry where
  "ex_load_tele = zero_Telemetry\<lparr>t_DeviceID := ''l1'', t_SiteID := ''s1'', t_Timestamp := 7,
     t_Metrics := [''power'' \<mapsto> Fin 100]\<rparr>"

definition ex_keys :: "string list" where
  "ex_keys = [stateKey ''s1'' ''b1'', stateKey ''s1'' ''l1'']"

definition ex_store :: Store where
  "ex_store = NewStore\<lparr>
     devices := [stateKey ''s1'' ''b1'' \<mapsto> ex_battery, stateKey ''s1'' ''l1'' \<mapsto> ex_load],
     telemetry := [stateKey ''s1'' ''b1'' \<mapsto> ex_battery_tele, stateKey ''s1'' ''l1'' \<mapsto> ex_load_tele]\<rparr>"

definition ex_run :: SchedRun where
  "ex_run = \<lparr>run_sched = scheduler_New ''s1''
      \<lparr>p_BatteryMinSOC = Fin (1/4), p_BatteryMaxSOC = Fin (3/4), p_LoadShedThreshold = Fin 80\<rparr>,
    run_clk = 0, run_log = []\<rparr>"

definition ex_clk :: "nat \<Rightarrow> time" where
  "ex_clk n = time_Unix 1000 + 10 * Second * int (n div 2)"

lemma ex_key_neq [simp]: "stateKey ''s1'' ''b1'' \<noteq> stateKey ''s1'' ''l1''" "stateKey ''s1'' ''l1'' \<noteq> stateKey ''s1'' ''b1''"
  by (simp_all add: stateKey_def)

lemmas ex_site_defs = ex_store_def ex_battery_def ex_load_def ex_battery_tele_def ex_load_tele_def
  NewStore_def zero_Device_def zero_Telemetry_def ex_keys_def

lemma ex_ids [simp]: "d_ID ex_battery = ''b1''" "d_ID ex_load = ''l1''" "\<not> d_CriticalLoad ex_load"
  by (simp_all add: ex_battery_def ex_load_def zero_Device_def)

lemma ex_store_inv: "store_inv ex_store"
  by (auto simp: store_inv_def ex_site_defs)

lemma ex_order: "range_order (devices ex_store) ex_keys" "range_order (telemetry ex_store) ex_keys"
  by (auto simp: range_order_def ex_site_defs)

lemma ex_pairs: "site_pairs ex_keys ex_store ''s1'' = [(ex_battery, ex_battery_tele), (ex_load, ex_load_tele)]"
  by (simp add: site_pairs_def site_pair_def ex_site_defs List.map_filter_def)

lemma ex_net: "s_NetPowerW (Summary ex_keys ex_store ''s1'') = Fin 100"
  unfolding Summary_eq_ref ex_pairs
  by (simp add: summary_ref_def powers_of_def ex_battery_def ex_load_def ex_battery_tele_def ex_load_tele_def
      metric_def zero_Device_def zero_Telemetry_def Let_def f64_ops f64_eval)

lemma ex_devices:
  "site_devices ex_keys ex_store ''s1'' DeviceBattery = [ex_battery]"
  "site_devices ex_keys ex_store ''s1'' DeviceLoad = [ex_load]"
  by (simp_all add: site_devices_def Devices_def ex_site_defs)

lemma ex_soc: "soc_of (TelemetryForSite ex_keys ex_store ''s1'') ex_battery = Fin (1/2)"
  by (simp add: soc_of_def TelemetryForSite_def ex_site_defs metric_def)

lemmas ex_tick = ex_run_def scheduler_New_def ex_net ex_devices ex_soc

lemma ex_free: "\<not> in_cooldown (run_sched ex_run) key t"
  by (simp add: ex_run_def scheduler_New_def in_cooldown_def)

lemma ex_cool_inv: "cool_inv ex_clk ex_run"
  by (auto simp: cool_inv_def ex_run_def scheduler_New_def spaced_def ex_clk_def mono_def div_le_mono)

section \<open>Properties\<close>

text \<open>
  C2. Safety of a tick: whatever the store, the policy, the clock and the commander do, a tick
  only appends commands to the log, each to a device of the scheduler's own site. Each is one of:
  charging, to a battery whose SOC is below the maximum, under a surplus of more than 10 W;
  discharging, to a battery whose SOC is above the minimum, under a deficit of more than 10 W;
  switching off a load that is not critical, when the net load exceeds the shed threshold. The
  policy and the site of the scheduler are unchanged.
\<close>
theorem tick_safety:
  "let s = run_sched r; r' = Tick clk commander (ks1, ks2, ks3) store r;
       net = s_NetPowerW (Summary ks1 store (sc_siteID s));
       tele = TelemetryForSite ks3 store (sc_siteID s) in
   (\<exists>new. run_log r' = run_log r @ new \<and>
      (\<forall>c \<in> set new. let d = pc_Device c; action = c_Action (pc_Command c); params = c_Params (pc_Command c) in
         d_SiteID d = sc_siteID s \<and>
         (d_Type d = DeviceBattery \<and> action = ''set_mode'' \<and> params = Some [(''mode'', GStr ''charging'')] \<and>
            f_lt net (Fin (- 10)) \<and> f_lt (soc_of tele d) (p_BatteryMaxSOC (sc_policy s)) \<or>
          d_Type d = DeviceBattery \<and> action = ''set_mode'' \<and> params = Some [(''mode'', GStr ''discharging'')] \<and>
            f_lt (Fin 10) net \<and> f_lt (p_BatteryMinSOC (sc_policy s)) (soc_of tele d) \<or>
          d_Type d = DeviceLoad \<and> action = ''set_relay'' \<and> params = Some [(''on'', GBool False)] \<and>
            \<not> d_CriticalLoad d \<and> f_lt (p_LoadShedThreshold (sc_policy s)) net))) \<and>
   sc_policy (run_sched r') = sc_policy s \<and> sc_siteID (run_sched r') = sc_siteID s"
  using Tick_log [of r ks1 store ks3 clk commander ks2]
  by (fastforce simp: log_extends_def tick_allows_def Let_def)

theorem tick_safety_witness:
  "let r' = Tick ex_clk (\<lambda>_ _ _ _. None) (ex_keys, ex_keys, ex_keys) ex_store ex_run in
   map sent (run_log r') = [(ex_battery, ''set_mode'', discharging)] \<and> sc_siteID (run_sched r') = ''s1''"
  using tick_safety [of ex_run ex_clk "\<lambda>_ _ _ _. None" ex_keys ex_keys ex_keys ex_store]
  by (simp add: ex_tick Tick_def sched_Policy_def Let_def publish_eq blocked_def in_cooldown_def
      call_of_def sent_def sched_cmd_def)

text \<open>
  C11. A tick carries out its plan: when no command is in its cooldown and the commander accepts
  every call, the commands of a tick are exactly those of the first rule that applies, each sent
  once and successfully, in the order of the devices. Surplus: charge every battery below the
  maximum. Deficit with a battery above the minimum: discharge every such battery. Otherwise,
  above the shed threshold: switch off the first non-critical load.
\<close>
theorem tick_plan_carried_out:
  assumes "store_inv store" "range_order (devices store) ks2"
    and "\<forall>key m. \<not> in_cooldown (run_sched r) key (clk m)"
    and "\<forall>n site d cmd. commander n site d cmd = None"
  shows "\<exists>new. run_log (Tick clk commander (ks1, ks2, ks3) store r) = run_log r @ new \<and> list_all pc_OK new \<and>
    map sent new = tick_plan (sc_policy (run_sched r)) (s_NetPowerW (Summary ks1 store (sc_siteID (run_sched r))))
      (soc_of (TelemetryForSite ks3 store (sc_siteID (run_sched r))))
      (site_devices ks2 store (sc_siteID (run_sched r)) DeviceBattery)
      (site_devices ks2 store (sc_siteID (run_sched r)) DeviceLoad)"
  using Tick_plan [where commander = commander and ?ks1.0 = ks1 and ?ks3.0 = ks3, OF assms(1-3)] assms(4)
  by (simp add: delivers_def)

theorem tick_plan_carried_out_witness:
  "\<exists>new. run_log (Tick ex_clk (\<lambda>_ _ _ _. None) (ex_keys, ex_keys, ex_keys) ex_store ex_run) = new \<and> list_all pc_OK new \<and>
     map sent new = [(ex_battery, ''set_mode'', discharging)]"
  using tick_plan_carried_out [of ex_store ex_keys ex_run ex_clk "\<lambda>_ _ _ _. None" ex_keys ex_keys]
  by (simp add: ex_store_inv ex_order ex_free) (simp add: ex_tick tick_plan_def)

text \<open>
  C10. The cooldown holds over whole runs: with a clock that does not go back, for any events the
  loop receives and whatever the commander answers, two successful commands with the same action and
  parameters to the same device are at least the cooldown apart: the check of the later one reads the
  clock at least a cooldown after the reading the earlier one is stamped with. Every command carries
  its stamp in its id, and the stamp and the check are consecutive readings.
\<close>
theorem run_respects_cooldown:
  assumes "mono clk" "0 < sc_cooldown (run_sched r)" "run_log r = []"
  shows "let log = run_log (Run clk commander interval es r) in
    (\<forall>c \<in> set log. (\<exists>n. pc_Now c = clk n \<and> pc_Checked c = clk (Suc n)) \<and>
       c_CommandID (pc_Command c) = d_ID (pc_Device c) @ ''-'' @ fmt_d (time_unix_nano (pc_Now c))) \<and>
    (\<forall>i j. i < j \<and> j < length log \<and> pc_OK (log ! i) \<and> pc_OK (log ! j) \<and>
       d_ID (pc_Device (log ! i)) = d_ID (pc_Device (log ! j)) \<and>
       c_Action (pc_Command (log ! i)) = c_Action (pc_Command (log ! j)) \<and>
       c_Params (pc_Command (log ! i)) = c_Params (pc_Command (log ! j)) \<longrightarrow>
       pc_Now (log ! i) + sc_cooldown (run_sched r) \<le> pc_Checked (log ! j))"
proof -
  have "cool_inv clk r" using assms by (simp add: cool_inv_def spaced_def)
  with run_loop_cool_inv [of clk r commander es]
  have "cool_inv clk (Run clk commander interval es r)"
    and "sc_cooldown (run_sched (Run clk commander interval es r)) = sc_cooldown (run_sched r)"
    by (simp_all add: Run_def)
  then show ?thesis by (auto simp: Let_def cool_inv_def clock_stamped_def spaced_def call_key_def)
qed

theorem run_respects_cooldown_witness:
  "let log = run_log (Run ex_clk (\<lambda>_ _ _ _. None) Second (replicate 5 (TickerC (ex_keys, ex_keys, ex_keys) ex_store)) ex_run) in
    \<forall>i j. i < j \<and> j < length log \<and> pc_OK (log ! i) \<and> pc_OK (log ! j) \<and>
       d_ID (pc_Device (log ! i)) = d_ID (pc_Device (log ! j)) \<and>
       c_Action (pc_Command (log ! i)) = c_Action (pc_Command (log ! j)) \<and>
       c_Params (pc_Command (log ! i)) = c_Params (pc_Command (log ! j)) \<longrightarrow>
       pc_Now (log ! i) + 30 * Second \<le> pc_Checked (log ! j)"
proof -
  have start: "mono ex_clk" "0 < sc_cooldown (run_sched ex_run)" "run_log ex_run = []" "sc_cooldown (run_sched ex_run) = 30 * Second"
    using ex_cool_inv by (simp_all add: cool_inv_def) (simp_all add: ex_run_def scheduler_New_def)
  show ?thesis
    using conjunct2 [OF run_respects_cooldown [OF start(1-3), of "\<lambda>_ _ _ _. None" Second
        "replicate 5 (TickerC (ex_keys, ex_keys, ex_keys) ex_store)", unfolded Let_def]]
    unfolding Let_def start(4) .
qed

text \<open>
  C18. The outcome of one publish. Inside the cooldown it makes no call and changes nothing. A
  rejected command is reported as not sent and forgotten, so that the next tick may retry it at
  once; an accepted one is remembered with its time. No other key of \<open>lastSent\<close> is touched, and
  the command carries the device's id with the nanosecond time as its id.
\<close>
theorem publish_outcome:
  "let s = run_sched r; n = run_clk r; key = commandKey (d_ID d) action params;
       cmd = \<lparr>c_CommandID = d_ID d @ ''-'' @ fmt_d (time_unix_nano (clk n)), c_Action = action, c_Params = params,
              c_IssuedAt = time_unix_sec (clk n), c_Reason = reason\<rparr>;
       (ok, r') = publish clk commander d action reason params r in
   ok = (\<not> in_cooldown s key (clk (n + 1)) \<and> commander n (sc_siteID s) d cmd = None) \<and>
   sc_lastSent (run_sched r') =
     (if in_cooldown s key (clk (n + 1)) then sc_lastSent s
      else (sc_lastSent s)(key := if ok then Some (clk n) else None)) \<and>
   map (\<lambda>c. (pc_Device c, pc_Command c, pc_OK c)) (run_log r') =
     map (\<lambda>c. (pc_Device c, pc_Command c, pc_OK c)) (run_log r) @
     (if in_cooldown s key (clk (n + 1)) then [] else [(d, cmd, ok)])"
  by (auto simp: publish_eq Let_def blocked_def call_of_def call_key_def sched_cmd_def split: if_splits)

text \<open>
  \<open>ValidatePolicy\<close> accepts, among policies without NaN, exactly those with
  0 <= min SOC <= max SOC <= 1 and a shed threshold that is not negative.
\<close>
theorem validate_policy_iff:
  assumes "p_BatteryMinSOC p \<noteq> NaN" "p_BatteryMaxSOC p \<noteq> NaN" "p_LoadShedThreshold p \<noteq> NaN"
  shows "ValidatePolicy p = None \<longleftrightarrow>
    f_le (Fin 0) (p_BatteryMinSOC p) \<and> f_le (p_BatteryMinSOC p) (p_BatteryMaxSOC p) \<and>
    f_le (p_BatteryMaxSOC p) (Fin 1) \<and> f_le (Fin 0) (p_LoadShedThreshold p)"
  using assms by (auto simp: ValidatePolicy_def f64_order)

theorem validate_policy_iff_witness:
  "ValidatePolicy \<lparr>p_BatteryMinSOC = Fin (1/4), p_BatteryMaxSOC = Fin (3/4), p_LoadShedThreshold = Fin 80\<rparr> = None"
  by (subst validate_policy_iff) simp_all

text \<open>A policy of NaN values passes the validation: every comparison with NaN is false.\<close>

lemma validate_policy_NaN: "ValidatePolicy \<lparr>p_BatteryMinSOC = NaN, p_BatteryMaxSOC = NaN, p_LoadShedThreshold = NaN\<rparr> = None"
  by (simp add: ValidatePolicy_def)

text \<open>
  Two ticks ten seconds apart on the example site, the commander accepting every command: the
  first orders the battery to discharge, and the second, finding that command in its cooldown,
  takes the battery for unavailable and switches the load off.
\<close>
theorem shed_after_discharge:
  "let tick = Tick ex_clk (\<lambda>_ _ _ _. None) (ex_keys, ex_keys, ex_keys) ex_store in
   map sent (run_log (tick (tick ex_run))) =
     [(ex_battery, ''set_mode'', discharging), (ex_load, ''set_relay'', relay_off)]"
proof -
  have "commandKey ''b1'' ''set_mode'' discharging \<noteq> commandKey ''l1'' ''set_relay'' relay_off"
    by (simp add: commandKey_def Let_def)
  then show ?thesis
    by (simp add: ex_tick Tick_def sched_Policy_def Let_def publish_eq blocked_def call_of_def call_key_def
        in_cooldown_def sent_def sched_cmd_def time_Sub_def sat64_def ex_clk_def)
qed

end
