(* ===== verification/Optimizer.thy ===== *)
theory Optimizer
  imports Model
begin

text \<open>
  internal/optimizer/plan.go: the day-ahead plan. Go's \<open>int\<close> arithmetic wraps at 64 bits,
  \<open>make\<close> panics for a capacity the address space cannot hold (\<open>None\<close> here), a \<open>time.Duration\<close> is
  an \<open>int64\<close>. \<open>math.Sin\<close> is a parameter; the wall clock of a time depends on the zone \<open>z\<close> of the
  process. Float operations round one by one, as compiled for amd64.

  Contents: the operations; numbers and shape of the slots; the current slot; bounds of the state
  of charge and of the power; validation of a configuration.
\<close>

section \<open>Data\<close>

record TariffBand =
  tb_Name :: string
  tb_StartHour :: int
  tb_EndHour :: int
  tb_Price :: float64

record Config =
  cfg_HorizonHours :: int
  cfg_SlotMinutes :: int
  cfg_BatteryCapacityWh :: float64
  cfg_BatteryPowerLimitW :: float64
  cfg_MinSOC :: float64
  cfg_MaxSOC :: float64
  cfg_Tariffs :: "TariffBand list"
  cfg_minSOCSet :: bool
  cfg_maxSOCSet :: bool

record Slot =
  sl_StartAt :: time
  sl_EndAt :: time
  sl_BatteryMode :: string
  sl_TargetPowerW :: float64
  sl_ExpectedPrice :: float64
  sl_ForecastPVW :: float64
  sl_ForecastLoadW :: float64
  sl_ForecastSOC :: float64
  sl_NetLoadW :: float64
  sl_Reason :: string

record Plan =
  pl_GeneratedAt :: time
  pl_SiteID :: string
  pl_Config :: Config
  pl_Slots :: "Slot list"

definition slotDuration :: duration where
  "slotDuration = 15 * Minute"

text \<open>
  \<open>UnmarshalJSON\<close>: \<open>decode\<close> is \<open>json.Unmarshal\<close> into the embedded alias of the target and the two
  pointers; it yields the target as the decoder leaves it, the pointers and the error.
\<close>

definition Config_UnmarshalJSON ::
  "(Config \<Rightarrow> string \<Rightarrow> Config \<times> float64 option \<times> float64 option \<times> string option) \<Rightarrow>
   Config \<Rightarrow> string \<Rightarrow> Config \<times> string option" where
  "Config_UnmarshalJSON decode c0 data =
     (case decode c0 data of (c, rawMin, rawMax, err) \<Rightarrow>
        if err \<noteq> None then (c, err)
        else
          let c1 = (case rawMin of None \<Rightarrow> c | Some v \<Rightarrow> c\<lparr>cfg_MinSOC := v, cfg_minSOCSet := True\<rparr>);
              c2 = (case rawMax of None \<Rightarrow> c1 | Some v \<Rightarrow> c1\<lparr>cfg_MaxSOC := v, cfg_maxSOCSet := True\<rparr>) in
          (c2, None))"

text \<open>\<open>CurrentSlot\<close>: the first slot that contains the time; \<open>None\<close> is the result \<open>false\<close>.\<close>

fun find_slot :: "Slot list \<Rightarrow> time \<Rightarrow> Slot option" where
  "find_slot [] at_time = None"
| "find_slot (sl # sls) at_time =
     (if (at_time = sl_StartAt sl \<or> sl_StartAt sl < at_time) \<and> at_time < sl_EndAt sl then Some sl
      else find_slot sls at_time)"

definition CurrentSlot :: "Plan \<Rightarrow> time \<Rightarrow> Slot option" where
  "CurrentSlot plan at_time = find_slot (pl_Slots plan) at_time"

definition DefaultConfig :: Config where
  "DefaultConfig =
     \<lparr>cfg_HorizonHours = 24, cfg_SlotMinutes = 15, cfg_BatteryCapacityWh = f_lit 150,
      cfg_BatteryPowerLimitW = f_lit 50, cfg_MinSOC = f_lit (25/100), cfg_MaxSOC = f_lit (90/100),
      cfg_Tariffs =
        [\<lparr>tb_Name = ''valley'', tb_StartHour = 0, tb_EndHour = 7, tb_Price = f_lit (32/100)\<rparr>,
         \<lparr>tb_Name = ''flat'', tb_StartHour = 7, tb_EndHour = 18, tb_Price = f_lit (58/100)\<rparr>,
         \<lparr>tb_Name = ''peak'', tb_StartHour = 18, tb_EndHour = 23, tb_Price = f_lit (95/100)\<rparr>,
         \<lparr>tb_Name = ''flat'', tb_StartHour = 23, tb_EndHour = 24, tb_Price = f_lit (58/100)\<rparr>],
      cfg_minSOCSet = False, cfg_maxSOCSet = False\<rparr>"

definition normalizeConfig :: "Config \<Rightarrow> Config" where
  "normalizeConfig cfg =
     (let def = DefaultConfig in
      cfg\<lparr>cfg_HorizonHours := (if cfg_HorizonHours cfg = 0 then cfg_HorizonHours def else cfg_HorizonHours cfg),
          cfg_SlotMinutes := (if cfg_SlotMinutes cfg = 0 then cfg_SlotMinutes def else cfg_SlotMinutes cfg),
          cfg_BatteryCapacityWh := (if f_eq (cfg_BatteryCapacityWh cfg) (Fin 0)
            then cfg_BatteryCapacityWh def else cfg_BatteryCapacityWh cfg),
          cfg_BatteryPowerLimitW := (if f_eq (cfg_BatteryPowerLimitW cfg) (Fin 0)
            then cfg_BatteryPowerLimitW def else cfg_BatteryPowerLimitW cfg),
          cfg_MinSOC := (if f_eq (cfg_MinSOC cfg) (Fin 0) \<and> \<not> cfg_minSOCSet cfg
            then cfg_MinSOC def else cfg_MinSOC cfg),
          cfg_MaxSOC := (if f_eq (cfg_MaxSOC cfg) (Fin 0) \<and> \<not> cfg_maxSOCSet cfg
            then cfg_MaxSOC def else cfg_MaxSOC cfg),
          cfg_Tariffs := (if cfg_Tariffs cfg = [] then cfg_Tariffs def else cfg_Tariffs cfg)\<rparr>)"

section \<open>Forecasts and prices\<close>

definition forecastPV :: "(float64 \<Rightarrow> float64) \<Rightarrow> zone \<Rightarrow> time \<Rightarrow> float64 \<Rightarrow> float64" where
  "forecastPV math_Sin z t currentPV =
     (let hour = f_add (f_of_int (time_Hour z t)) (f_div (f_of_int (time_Minute z t)) (Fin 60));
          shape = math_Sin (f_mul (f_div (f_sub hour (Fin 6)) (Fin 12)) math_Pi) in
      if f_lt shape (Fin 0) then Fin 0 else f_mul currentPV shape)"

definition forecastLoad :: "zone \<Rightarrow> time \<Rightarrow> float64 \<Rightarrow> float64" where
  "forecastLoad z t currentLoad =
     (let hour = time_Hour z t;
          multiplier = (if hour \<ge> 7 \<and> hour < 10 then f_lit (115/100)
                        else if hour \<ge> 18 \<and> hour < 23 then f_lit (135/100)
                        else if hour \<ge> 0 \<and> hour < 6 then f_lit (75/100)
                        else Fin 1) in
      f_mul currentLoad multiplier)"

fun price_in :: "int \<Rightarrow> TariffBand list \<Rightarrow> float64" where
  "price_in h [] = f_lit (58/100)"
| "price_in h (band # bands) =
     (if h \<ge> tb_StartHour band \<and> h < tb_EndHour band then tb_Price band else price_in h bands)"

definition priceAt :: "zone \<Rightarrow> time \<Rightarrow> TariffBand list \<Rightarrow> float64" where
  "priceAt z t bands = price_in (time_Hour z t) bands"

text \<open>\<open>bands[0]\<close> panics for an empty slice: \<open>None\<close>.\<close>

definition lowPrice :: "TariffBand list \<Rightarrow> float64 option" where
  "lowPrice bands =
     (case bands of
        [] \<Rightarrow> None
      | b # _ \<Rightarrow> Some (foldl (\<lambda>mn band. if f_lt (tb_Price band) mn then tb_Price band else mn) (tb_Price b) bands))"

definition highPrice :: "TariffBand list \<Rightarrow> float64 option" where
  "highPrice bands =
     (case bands of
        [] \<Rightarrow> None
      | b # _ \<Rightarrow> Some (foldl (\<lambda>mx band. if f_lt mx (tb_Price band) then tb_Price band else mx) (tb_Price b) bands))"

definition clamp :: "float64 \<Rightarrow> float64 \<Rightarrow> float64 \<Rightarrow> float64" where
  "clamp v mn mx = (if f_lt v mn then mn else if f_lt mx v then mx else v)"

definition round2 :: "float64 \<Rightarrow> float64" where
  "round2 v = f_div (math_Round (f_mul v (Fin 100))) (Fin 100)"

definition round4 :: "float64 \<Rightarrow> float64" where
  "round4 v = f_div (math_Round (f_mul v (Fin 10000))) (Fin 10000)"

definition nextSOC :: "float64 \<Rightarrow> string \<Rightarrow> float64 \<Rightarrow> Config \<Rightarrow> float64" where
  "nextSOC soc mode powerW cfg =
     (let delta = f_div (f_div (f_mul powerW (f_of_int (cfg_SlotMinutes cfg))) (Fin 60)) (cfg_BatteryCapacityWh cfg);
          soc' = (if mode = ''charge'' then f_add soc delta
                  else if mode = ''discharge'' then f_sub soc delta
                  else soc) in
      clamp soc' (cfg_MinSOC cfg) (cfg_MaxSOC cfg))"

section \<open>The plan\<close>

text \<open>The \<open>switch\<close> of the slot loop: battery mode, target power and reason.\<close>

definition decide ::
  "Config \<Rightarrow> float64 \<Rightarrow> float64 \<Rightarrow> float64 \<Rightarrow> float64 \<Rightarrow> float64 \<Rightarrow> float64 \<Rightarrow> string \<times> float64 \<times> string" where
  "decide cfg price low high pv load soc =
     (let hasArbitrage = f_lt low high;
          netLoad = f_sub load pv;
          limit = cfg_BatteryPowerLimitW cfg in
      if f_lt (f_add load (Fin 10)) pv \<and> f_lt soc (cfg_MaxSOC cfg) then
        (''charge'', math_Min limit (f_sub pv load), ''pv surplus'')
      else if hasArbitrage \<and> f_le price low \<and> f_lt soc (cfg_MaxSOC cfg) then
        (''charge'', limit, ''low tariff'')
      else if hasArbitrage \<and> f_le high price \<and> f_lt (Fin 0) netLoad \<and> f_lt (cfg_MinSOC cfg) soc then
        (''discharge'', math_Min limit netLoad, ''peak tariff and load deficit'')
      else if f_lt limit netLoad \<and> f_lt (cfg_MinSOC cfg) soc then
        (''discharge'', math_Min limit netLoad, ''reduce net load'')
      else (''idle'', Fin 0, ''balanced or battery held for constraints''))"

text \<open>The body of the loop for slot \<open>i\<close>: the slot and the next state of charge.\<close>

definition slot_step ::
  "(float64 \<Rightarrow> float64) \<Rightarrow> zone \<Rightarrow> Config \<Rightarrow> time \<Rightarrow> float64 \<Rightarrow> float64 \<Rightarrow> int \<Rightarrow> float64 \<Rightarrow> (Slot \<times> float64) option" where
  "slot_step math_Sin z cfg start currentPV currentLoad i soc =
     (let slotStart = time_Add start (wrap64 (wrap64 (i * cfg_SlotMinutes cfg) * Minute));
          price = priceAt z slotStart (cfg_Tariffs cfg) in
      case (lowPrice (cfg_Tariffs cfg), highPrice (cfg_Tariffs cfg)) of
        (Some low, Some high) \<Rightarrow>
          (let pv = forecastPV math_Sin z slotStart currentPV;
               load = forecastLoad z slotStart currentLoad;
               netLoad = f_sub load pv;
               (mode, target, reason) = decide cfg price low high pv load soc;
               soc' = nextSOC soc mode target cfg in
           Some (\<lparr>sl_StartAt = slotStart,
                  sl_EndAt = time_Add slotStart (wrap64 (cfg_SlotMinutes cfg * Minute)),
                  sl_BatteryMode = mode, sl_TargetPowerW = round2 target, sl_ExpectedPrice = price,
                  sl_ForecastPVW = round2 pv, sl_ForecastLoadW = round2 load, sl_ForecastSOC = round4 soc',
                  sl_NetLoadW = round2 netLoad, sl_Reason = reason\<rparr>, soc'))
      | _ \<Rightarrow> None)"

fun slot_loop :: "(int \<Rightarrow> float64 \<Rightarrow> (Slot \<times> float64) option) \<Rightarrow> nat \<Rightarrow> int \<Rightarrow> float64 \<Rightarrow> Slot list option" where
  "slot_loop step 0 i soc = Some []"
| "slot_loop step (Suc n) i soc =
     (case step i soc of
        None \<Rightarrow> None
      | Some (sl, soc') \<Rightarrow> map_option (Cons sl) (slot_loop step n (i + 1) soc'))"

text \<open>
  The largest capacity \<open>make([]Slot, 0, n)\<close> accepts on amd64: a slot has 128 bytes (two times of
  24, two strings of 16, six floats of 8) and an allocation at most \<open>2 ^ 48\<close>.
\<close>

definition max_slot_cap :: int where
  "max_slot_cap = 2 ^ 41"

definition slot_count :: "Config \<Rightarrow> int" where
  "slot_count cfg =
     (let n = wrap64 (go_div (wrap64 (cfg_HorizonHours cfg * 60)) (cfg_SlotMinutes cfg)) in
      if n \<le> 0 then 96 else n)"

definition start_soc :: "Config \<Rightarrow> SiteSummary \<Rightarrow> float64" where
  "start_soc cfg summary =
     (let soc = (if f_eq (s_AvgSOC summary) (Fin 0) then Fin (1/2) else s_AvgSOC summary) in
      clamp soc (cfg_MinSOC cfg) (cfg_MaxSOC cfg))"

definition BuildDayAheadPlan ::
  "(float64 \<Rightarrow> float64) \<Rightarrow> zone \<Rightarrow> time \<Rightarrow> SiteSummary \<Rightarrow> Config \<Rightarrow> Plan option" where
  "BuildDayAheadPlan math_Sin z now summary cfg0 =
     (let cfg = normalizeConfig cfg0;
          start = time_Truncate now slotDuration;
          slotCount = slot_count cfg;
          soc = start_soc cfg summary;
          currentPV = math_Max (s_PVPowerW summary) (Fin 20);
          currentLoad = math_Max (s_LoadPowerW summary) (Fin 30) in
      if slotCount > max_slot_cap then None
      else
        map_option
          (\<lambda>slots. \<lparr>pl_GeneratedAt = now, pl_SiteID = s_SiteID summary, pl_Config = cfg, pl_Slots = slots\<rparr>)
          (slot_loop (slot_step math_Sin z cfg start currentPV currentLoad) (nat slotCount) 0 soc))"

section \<open>Validation\<close>

fun validate_bands :: "nat \<Rightarrow> TariffBand list \<Rightarrow> string option" where
  "validate_bands i [] = None"
| "validate_bands i (band # bands) =
     (if tb_StartHour band < 0 \<or> tb_StartHour band > 24 \<or> tb_EndHour band < 0 \<or> tb_EndHour band > 24 then
        Some (''tariffs['' @ fmt_d (int i) @ ''] hours must be between 0 and 24'')
      else if tb_StartHour band \<ge> tb_EndHour band then
        Some (''tariffs['' @ fmt_d (int i) @ ''] start_hour must be < end_hour'')
      else if f_lt (tb_Price band) (Fin 0) then
        Some (''tariffs['' @ fmt_d (int i) @ ''] price must be >= 0'')
      else validate_bands (Suc i) bands)"

definition ValidateConfig :: "Config \<Rightarrow> string option" where
  "ValidateConfig cfg =
     (if cfg_HorizonHours cfg < 0 then Some ''horizon_hours must be > 0''
      else if cfg_SlotMinutes cfg < 0 then Some ''slot_minutes must be > 0''
      else if cfg_SlotMinutes cfg > 0 \<and> go_mod 60 (cfg_SlotMinutes cfg) \<noteq> 0 then
        Some ''slot_minutes must divide 60''
      else if f_lt (cfg_BatteryCapacityWh cfg) (Fin 0) then Some ''battery_capacity_wh must be > 0''
      else if f_lt (cfg_BatteryPowerLimitW cfg) (Fin 0) then Some ''battery_power_limit_w must be > 0''
      else if f_lt (cfg_MinSOC cfg) (Fin 0) \<or> f_lt (Fin 1) (cfg_MinSOC cfg) then
        Some ''min_soc must be between 0 and 1''
      else if f_lt (cfg_MaxSOC cfg) (Fin 0) \<or> f_lt (Fin 1) (cfg_MaxSOC cfg) then
        Some ''max_soc must be between 0 and 1''
      else if f_lt (cfg_MaxSOC cfg) (cfg_MinSOC cfg) then Some ''min_soc must be <= max_soc''
      else
        let normalized = normalizeConfig cfg in
        case validate_bands 0 (cfg_Tariffs cfg) of
          Some e \<Rightarrow> Some e
        | None \<Rightarrow>
            if cfg_HorizonHours normalized \<le> 0 then Some ''horizon_hours must be > 0''
            else if cfg_SlotMinutes normalized \<le> 0 then Some ''slot_minutes must be > 0''
            else if f_le (cfg_BatteryCapacityWh normalized) (Fin 0) then Some ''battery_capacity_wh must be > 0''
            else if f_le (cfg_BatteryPowerLimitW normalized) (Fin 0) then Some ''battery_power_limit_w must be > 0''
            else if f_lt (cfg_MaxSOC normalized) (cfg_MinSOC normalized) then Some ''min_soc must be <= max_soc''
            else None)"

section \<open>Well-formed configurations\<close>

definition finite_cfg :: "Config \<Rightarrow> bool" where
  "finite_cfg cfg \<longleftrightarrow> (\<forall>x \<in> {cfg_BatteryCapacityWh cfg, cfg_BatteryPowerLimitW cfg, cfg_MinSOC cfg, cfg_MaxSOC cfg}.
     is_f64 x \<and> f_isfin x)"

definition valid_cfg :: "Config \<Rightarrow> bool" where
  "valid_cfg cfg \<longleftrightarrow>
     0 < cfg_HorizonHours cfg \<and> 0 < cfg_SlotMinutes cfg \<and> cfg_SlotMinutes cfg dvd 60 \<and>
     f_lt (Fin 0) (cfg_BatteryCapacityWh cfg) \<and> f_lt (Fin 0) (cfg_BatteryPowerLimitW cfg) \<and>
     f_le (Fin 0) (cfg_MinSOC cfg) \<and> f_le (cfg_MinSOC cfg) (cfg_MaxSOC cfg) \<and> f_le (cfg_MaxSOC cfg) (Fin 1) \<and>
     cfg_Tariffs cfg \<noteq> [] \<and> finite_cfg cfg"

lemma normalizeConfig_sel:
  "cfg_HorizonHours (normalizeConfig c) = (if cfg_HorizonHours c = 0 then 24 else cfg_HorizonHours c)"
  "cfg_SlotMinutes (normalizeConfig c) = (if cfg_SlotMinutes c = 0 then 15 else cfg_SlotMinutes c)"
  "cfg_BatteryCapacityWh (normalizeConfig c) =
     (if f_eq (cfg_BatteryCapacityWh c) (Fin 0) then Fin 150 else cfg_BatteryCapacityWh c)"
  "cfg_BatteryPowerLimitW (normalizeConfig c) =
     (if f_eq (cfg_BatteryPowerLimitW c) (Fin 0) then Fin 50 else cfg_BatteryPowerLimitW c)"
  "cfg_MinSOC (normalizeConfig c) =
     (if f_eq (cfg_MinSOC c) (Fin 0) \<and> \<not> cfg_minSOCSet c then Fin (1/4) else cfg_MinSOC c)"
  "cfg_MaxSOC (normalizeConfig c) =
     (if f_eq (cfg_MaxSOC c) (Fin 0) \<and> \<not> cfg_maxSOCSet c then f_lit (9/10) else cfg_MaxSOC c)"
  "cfg_Tariffs (normalizeConfig c) =
     (if cfg_Tariffs c = [] then cfg_Tariffs DefaultConfig else cfg_Tariffs c)"
  by (simp_all add: normalizeConfig_def DefaultConfig_def Let_def f_lit_def f64_eval)

lemma ValidateConfig_checks:
  assumes "ValidateConfig cfg = None"
  shows "0 \<le> cfg_HorizonHours cfg" "0 \<le> cfg_SlotMinutes cfg"
    "cfg_SlotMinutes cfg > 0 \<Longrightarrow> go_mod 60 (cfg_SlotMinutes cfg) = 0"
    "\<not> f_lt (cfg_BatteryCapacityWh cfg) (Fin 0)" "\<not> f_lt (cfg_BatteryPowerLimitW cfg) (Fin 0)"
    "\<not> f_lt (cfg_MinSOC cfg) (Fin 0)" "\<not> f_lt (Fin 1) (cfg_MaxSOC cfg)"
    "\<not> f_lt (cfg_MaxSOC (normalizeConfig cfg)) (cfg_MinSOC (normalizeConfig cfg))"
  using assms by (auto simp: ValidateConfig_def Let_def not_less split: if_splits option.splits)

text \<open>What the validation establishes for the configuration the plan is built from.\<close>

lemma default_values:
  "is_f64 (Fin 150)" "is_f64 (Fin 50)" "is_f64 (Fin (1/4))" "is_f64 (f_lit (9/10))" "f_isfin (f_lit (9/10))"
proof -
  show "is_f64 (f_lit (9/10))" by (simp only: f_lit_def is_f64_round64)
qed (simp_all add: is_f64_def f64_eval f_lit_09)

lemma finite_normalize: "finite_cfg cfg \<Longrightarrow> finite_cfg (normalizeConfig cfg)"
  using default_values by (simp add: finite_cfg_def normalizeConfig_sel)

lemma ValidateConfig_valid:
  assumes "ValidateConfig cfg = None" "finite_cfg cfg"
  shows "valid_cfg (normalizeConfig cfg)"
proof -
  note chk = ValidateConfig_checks [OF assms(1)]
  have n: "cfg_BatteryCapacityWh cfg \<noteq> NaN" "cfg_BatteryPowerLimitW cfg \<noteq> NaN" "cfg_MinSOC cfg \<noteq> NaN" "cfg_MaxSOC cfg \<noteq> NaN"
    using assms(2) by (auto simp: finite_cfg_def)
  have fin: "finite_cfg (normalizeConfig cfg)" using assms(2) by (rule finite_normalize)
  then have n': "cfg_MinSOC (normalizeConfig cfg) \<noteq> NaN" "cfg_MaxSOC (normalizeConfig cfg) \<noteq> NaN"
    by (auto simp: finite_cfg_def)
  have ints: "0 < cfg_HorizonHours (normalizeConfig cfg) \<and> 0 < cfg_SlotMinutes (normalizeConfig cfg) \<and>
      cfg_SlotMinutes (normalizeConfig cfg) dvd 60"
    using chk(1-3) by (auto simp: normalizeConfig_sel go_mod_nonneg dvd_eq_mod_eq_0)
  have "f_lt (Fin 0) (cfg_BatteryCapacityWh (normalizeConfig cfg))" "f_lt (Fin 0) (cfg_BatteryPowerLimitW (normalizeConfig cfg))"
    using chk(4,5) n by (auto simp: normalizeConfig_sel f_not_lt f64_order)
  moreover have "f_le (Fin 0) (cfg_MinSOC (normalizeConfig cfg))" "f_le (cfg_MaxSOC (normalizeConfig cfg)) (Fin 1)"
    using chk(6,7) n by (auto simp: normalizeConfig_sel f_not_lt f_lit_09)
  moreover have "f_le (cfg_MinSOC (normalizeConfig cfg)) (cfg_MaxSOC (normalizeConfig cfg))"
    using chk(8) n' by (simp add: f_not_lt)
  moreover have "cfg_Tariffs (normalizeConfig cfg) \<noteq> []" by (simp add: normalizeConfig_sel DefaultConfig_def)
  ultimately show ?thesis using ints fin by (simp add: valid_cfg_def)
qed

section \<open>The slots\<close>

lemma lowPrice_Some: "bands \<noteq> [] \<Longrightarrow> \<exists>p. lowPrice bands = Some p"
  by (cases bands) (simp_all add: lowPrice_def)

lemma highPrice_Some: "bands \<noteq> [] \<Longrightarrow> \<exists>p. highPrice bands = Some p"
  by (cases bands) (simp_all add: highPrice_def)

text \<open>The state of charge before each slot of a loop.\<close>

primrec soc_at :: "(int \<Rightarrow> float64 \<Rightarrow> float64) \<Rightarrow> int \<Rightarrow> float64 \<Rightarrow> nat \<Rightarrow> float64" where
  "soc_at h i soc 0 = soc"
| "soc_at h i soc (Suc k) = h (i + int k) (soc_at h i soc k)"

lemma soc_at_shift: "soc_at h (i + 1) (h i soc) k = soc_at h i soc (Suc k)"
  by (induction k) (simp_all add: algebra_simps)

lemma slot_loop_map:
  assumes "\<And>j x. step j x = Some (g j x, h j x)"
  shows "slot_loop step n i soc = Some (map (\<lambda>k. g (i + int k) (soc_at h i soc k)) [0..<n])"
proof (induction n arbitrary: i soc)
  case (Suc n)
  have "slot_loop step n (i + 1) (h i soc) = Some (map (\<lambda>k. g (i + int (Suc k)) (soc_at h i soc (Suc k))) [0..<n])"
    unfolding Suc soc_at_shift by (simp add: algebra_simps)
  with assms [of i soc] show ?case
    unfolding map_upt_Suc by simp
qed simp

text \<open>The parts of a step: the decision, the slot and the next state of charge.\<close>

definition slot_decision where
  "slot_decision math_Sin z cfg start currentPV currentLoad i soc =
     (let slotStart = time_Add start (wrap64 (wrap64 (i * cfg_SlotMinutes cfg) * Minute)) in
      decide cfg (priceAt z slotStart (cfg_Tariffs cfg)) (the (lowPrice (cfg_Tariffs cfg)))
        (the (highPrice (cfg_Tariffs cfg))) (forecastPV math_Sin z slotStart currentPV)
        (forecastLoad z slotStart currentLoad) soc)"

definition next_soc where
  "next_soc math_Sin z cfg start currentPV currentLoad i soc =
     (case slot_decision math_Sin z cfg start currentPV currentLoad i soc of
        (mode, target, _) \<Rightarrow> nextSOC soc mode target cfg)"

definition slot_of where
  "slot_of math_Sin z cfg start currentPV currentLoad i soc =
     fst (the (slot_step math_Sin z cfg start currentPV currentLoad i soc))"

lemma slot_step_Some:
  assumes "cfg_Tariffs cfg \<noteq> []"
  shows "slot_step math_Sin z cfg start currentPV currentLoad i soc =
    Some (slot_of math_Sin z cfg start currentPV currentLoad i soc,
          next_soc math_Sin z cfg start currentPV currentLoad i soc)"
  using lowPrice_Some [OF assms] highPrice_Some [OF assms]
  by (auto simp: slot_of_def next_soc_def slot_step_def slot_decision_def Let_def split: prod.split)

lemma slot_of_sel:
  assumes "cfg_Tariffs cfg \<noteq> []"
    "slot_decision math_Sin z cfg start currentPV currentLoad i soc = (mode, target, reason)"
  defines "sl \<equiv> slot_of math_Sin z cfg start currentPV currentLoad i soc"
  shows "sl_StartAt sl = start + wrap64 (wrap64 (i * cfg_SlotMinutes cfg) * Minute)"
    "sl_EndAt sl = sl_StartAt sl + wrap64 (cfg_SlotMinutes cfg * Minute)"
    "sl_BatteryMode sl = mode" "sl_TargetPowerW sl = round2 target"
    "sl_ForecastSOC sl = round4 (next_soc math_Sin z cfg start currentPV currentLoad i soc)"
  using lowPrice_Some [OF assms(1)] highPrice_Some [OF assms(1)] assms(2)
  by (auto simp: sl_def slot_of_def next_soc_def slot_step_def slot_decision_def time_Add_def Let_def split: prod.split)

section \<open>Bounds\<close>

lemma clamp_bounds:
  assumes "v \<noteq> NaN" "f_le mn mx"
  shows "f_le mn (clamp v mn mx) \<and> f_le (clamp v mn mx) mx"
  using assms by (auto simp: clamp_def f64_order)

lemma clamp_id: "f_le mn v \<Longrightarrow> f_le v mx \<Longrightarrow> clamp v mn mx = v"
  by (auto simp: clamp_def f64_order)

lemma clamp_ge: "f_le mn s \<Longrightarrow> f_le s mx \<Longrightarrow> f_le s v \<Longrightarrow> f_le s (clamp v mn mx)"
  by (auto simp: clamp_def f64_order)

lemma clamp_le: "f_le mn s \<Longrightarrow> f_le s mx \<Longrightarrow> f_le v s \<Longrightarrow> f_le (clamp v mn mx) s"
  by (auto simp: clamp_def f64_order)

lemma is_f64_clamp: "is_f64 v \<Longrightarrow> is_f64 mn \<Longrightarrow> is_f64 mx \<Longrightarrow> is_f64 (clamp v mn mx)"
  by (simp add: clamp_def)

lemma Min_bounds:
  assumes "f_le (Fin 0) a" "f_le (Fin 0) b"
  shows "f_le (Fin 0) (math_Min a b) \<and> f_le (math_Min a b) a \<and> f_le (math_Min a b) b"
  using assms f_key_Min [of a b] by (auto simp: f64_order)

text \<open>What the \<open>switch\<close> can decide.\<close>

lemma decide_bounds:
  assumes "decide cfg price low high pv load soc = (mode, target, reason)" "is_f64 load"
    and "f_lt (Fin 0) (cfg_BatteryPowerLimitW cfg)"
  shows "f_le (Fin 0) target \<and> f_le target (cfg_BatteryPowerLimitW cfg)"
    and "mode = ''charge'' \<and> f_lt soc (cfg_MaxSOC cfg) \<or> mode = ''discharge'' \<and> f_lt (cfg_MinSOC cfg) soc \<or>
         mode = ''idle'' \<and> target = Fin 0"
proof -
  let ?l = "cfg_BatteryPowerLimitW cfg"
  have l: "f_le (Fin 0) ?l" using assms(3) by (rule f_lt_le)
  have surplus: "f_le (Fin 0) (f_sub pv load)" if "f_lt (f_add load (Fin 10)) pv"
    using assms(2) that by (rule f_sub_pos) simp_all
  have deficit: "f_le (Fin 0) x" if "f_lt (Fin 0) x \<or> f_lt ?l x" for x
    using that l by (auto simp: f64_order)
  have lim: "?l \<noteq> NaN" using l by (simp add: f64_order)
  show "f_le (Fin 0) target \<and> f_le target ?l"
    using assms(1) Min_bounds [OF l] surplus deficit l lim
    by (auto simp: decide_def Let_def split: if_splits)
  show "mode = ''charge'' \<and> f_lt soc (cfg_MaxSOC cfg) \<or> mode = ''discharge'' \<and> f_lt (cfg_MinSOC cfg) soc \<or>
         mode = ''idle'' \<and> target = Fin 0"
    using assms(1) by (auto simp: decide_def Let_def split: if_splits)
qed

lemma delta_nonneg:
  assumes "valid_cfg cfg" "f_le (Fin 0) p" "f_le p (cfg_BatteryPowerLimitW cfg)"
  shows "f_le (Fin 0) (f_div (f_div (f_mul p (f_of_int (cfg_SlotMinutes cfg))) (Fin 60)) (cfg_BatteryCapacityWh cfg))"
proof -
  have "cfg_SlotMinutes cfg \<le> 60" "0 < cfg_SlotMinutes cfg"
    using assms(1) zdvd_imp_le [of "cfg_SlotMinutes cfg" 60] by (auto simp: valid_cfg_def)
  then have s: "f_of_int (cfg_SlotMinutes cfg) = Fin (of_int (cfg_SlotMinutes cfg))" "(0 :: rat) \<le> of_int (cfg_SlotMinutes cfg)"
    by (simp_all add: f_of_int_exact)
  have "f_isfin p" using assms by (auto simp: valid_cfg_def finite_cfg_def intro: f_fin_between)
  then have "f_le (Fin 0) (f_mul p (f_of_int (cfg_SlotMinutes cfg)))"
    unfolding s using assms(2) s(2) by (intro f_mul_nonneg) simp_all
  then show ?thesis
    using assms(1) by (intro f_div_nonneg_fin) (simp_all add: valid_cfg_def finite_cfg_def)
qed

text \<open>One step of the state of charge stays in its bounds and moves the way the mode says.\<close>

definition soc_ok :: "Config \<Rightarrow> float64 \<Rightarrow> bool" where
  "soc_ok cfg soc \<longleftrightarrow> is_f64 soc \<and> f_le (cfg_MinSOC cfg) soc \<and> f_le soc (cfg_MaxSOC cfg)"

lemma soc_ok_fin: "valid_cfg cfg \<Longrightarrow> soc_ok cfg soc \<Longrightarrow> f_isfin soc"
  unfolding valid_cfg_def soc_ok_def using f_fin_between [of 0 soc "Fin 1"]
  by (auto intro: f_le_trans)

lemma f_not_NaN_le: "f_le x y \<Longrightarrow> x \<noteq> NaN" "f_le x y \<Longrightarrow> y \<noteq> NaN"
  by (auto simp: f_le_def)

lemma nextSOC_step:
  assumes "valid_cfg cfg" "soc_ok cfg soc" "f_le (Fin 0) p" "f_le p (cfg_BatteryPowerLimitW cfg)"
  shows "soc_ok cfg (nextSOC soc mode p cfg)"
    and "mode = ''charge'' \<Longrightarrow> f_le soc (nextSOC soc mode p cfg)"
    and "mode = ''discharge'' \<Longrightarrow> f_le (nextSOC soc mode p cfg) soc"
    and "mode = ''idle'' \<Longrightarrow> nextSOC soc mode p cfg = soc"
proof -
  let ?d = "f_div (f_div (f_mul p (f_of_int (cfg_SlotMinutes cfg))) (Fin 60)) (cfg_BatteryCapacityWh cfg)"
  have d: "f_le (Fin 0) ?d" using assms by (intro delta_nonneg)
  have soc: "is_f64 soc" "f_isfin soc" "f_le (cfg_MinSOC cfg) soc" "f_le soc (cfg_MaxSOC cfg)"
    using assms soc_ok_fin by (auto simp: soc_ok_def)
  have cfg: "is_f64 (cfg_MinSOC cfg)" "is_f64 (cfg_MaxSOC cfg)" "f_le (cfg_MinSOC cfg) (cfg_MaxSOC cfg)"
    using assms(1) by (auto simp: valid_cfg_def finite_cfg_def)
  have up: "f_le soc (f_add soc ?d)" using soc d by (intro f_le_add_right)
  have down: "f_le (f_sub soc ?d) soc" using soc d by (intro f_sub_le)
  have cl: "soc_ok cfg (clamp v (cfg_MinSOC cfg) (cfg_MaxSOC cfg))" if "is_f64 v" "v \<noteq> NaN" for v
    using that cfg clamp_bounds [of v] by (simp add: soc_ok_def is_f64_clamp)
  show "soc_ok cfg (nextSOC soc mode p cfg)"
    using cl [of "f_add soc ?d"] cl [of "f_sub soc ?d"] cl [of soc] soc f_not_NaN_le [OF up] f_not_NaN_le [OF down]
    by (simp add: nextSOC_def Let_def)
  show "mode = ''charge'' \<Longrightarrow> f_le soc (nextSOC soc mode p cfg)"
    using clamp_ge [OF soc(3,4) up] by (simp add: nextSOC_def Let_def)
  show "mode = ''discharge'' \<Longrightarrow> f_le (nextSOC soc mode p cfg) soc"
    using clamp_le [OF soc(3,4) down] by (simp add: nextSOC_def Let_def)
  show "mode = ''idle'' \<Longrightarrow> nextSOC soc mode p cfg = soc"
    using clamp_id [OF soc(3,4)] by (simp add: nextSOC_def Let_def)
qed

section \<open>The shape of a plan\<close>

text \<open>The longest horizon whose nanoseconds fit a \<open>time.Duration\<close>: 2562047 hours, 292 years.\<close>

abbreviation max_horizon :: int where "max_horizon \<equiv> 2562047"

lemma slot_count_eq:
  assumes "valid_cfg cfg" "cfg_HorizonHours cfg \<le> max_horizon"
  shows "slot_count cfg = cfg_HorizonHours cfg * 60 div cfg_SlotMinutes cfg"
    "slot_count cfg * cfg_SlotMinutes cfg = cfg_HorizonHours cfg * 60"
    "0 < slot_count cfg" "slot_count cfg \<le> max_slot_cap"
proof -
  let ?h = "cfg_HorizonHours cfg * 60" and ?s = "cfg_SlotMinutes cfg"
  have h: "0 < ?h" "?h \<le> max_horizon * 60" and s: "0 < ?s" "?s dvd ?h"
    using assms by (auto simp: valid_cfg_def)
  have q: "?h div ?s * ?s = ?h" using s by simp
  then have pos: "0 < ?h div ?s" using h s by (simp add: pos_imp_zdiv_pos_iff zdvd_imp_le)
  have le: "?h div ?s \<le> ?h" using q pos s(1) mult_left_mono [of 1 ?s "?h div ?s"] by linarith
  have "slot_count cfg = ?h div ?s"
    using h s pos le by (simp add: slot_count_def Let_def go_div_nonneg int64_ok_def)
  with q pos le h show "slot_count cfg = ?h div ?s" "slot_count cfg * ?s = ?h" "0 < slot_count cfg"
    "slot_count cfg \<le> max_slot_cap"
    by (simp_all add: max_slot_cap_def)
qed

lemma slot_offset:
  assumes "valid_cfg cfg" "cfg_HorizonHours cfg \<le> max_horizon" "int k < slot_count cfg"
  shows "wrap64 (wrap64 (int k * cfg_SlotMinutes cfg) * Minute) = int k * cfg_SlotMinutes cfg * Minute"
    "wrap64 (cfg_SlotMinutes cfg * Minute) = cfg_SlotMinutes cfg * Minute"
proof -
  have s: "0 < cfg_SlotMinutes cfg" "cfg_SlotMinutes cfg \<le> 60"
    using assms(1) zdvd_imp_le [of "cfg_SlotMinutes cfg" 60] by (auto simp: valid_cfg_def)
  have "int k * cfg_SlotMinutes cfg \<le> slot_count cfg * cfg_SlotMinutes cfg"
    using s assms(3) by (intro mult_right_mono) auto
  then have "int k * cfg_SlotMinutes cfg \<le> max_horizon * 60" "0 \<le> int k * cfg_SlotMinutes cfg"
    using slot_count_eq(2) [OF assms(1,2)] assms(2) s by auto
  then show "wrap64 (wrap64 (int k * cfg_SlotMinutes cfg) * Minute) = int k * cfg_SlotMinutes cfg * Minute"
    by (simp add: int64_ok_def)
  show "wrap64 (cfg_SlotMinutes cfg * Minute) = cfg_SlotMinutes cfg * Minute"
    using s by (simp add: int64_ok_def)
qed

text \<open>The slots of a plan, with the state of charge before each of them.\<close>

definition plan_soc where
  "plan_soc math_Sin z now summary cfg =
     soc_at (next_soc math_Sin z cfg (time_Truncate now slotDuration)
               (math_Max (s_PVPowerW summary) (Fin 20)) (math_Max (s_LoadPowerW summary) (Fin 30)))
       0 (start_soc cfg summary)"

definition plan_slot where
  "plan_slot math_Sin z now summary cfg k =
     slot_of math_Sin z cfg (time_Truncate now slotDuration)
       (math_Max (s_PVPowerW summary) (Fin 20)) (math_Max (s_LoadPowerW summary) (Fin 30)) (int k)
       (plan_soc math_Sin z now summary cfg k)"

lemma plan_eq:
  assumes "normalizeConfig cfg0 = cfg" "cfg_Tariffs cfg \<noteq> []" "slot_count cfg \<le> max_slot_cap"
  shows "BuildDayAheadPlan math_Sin z now summary cfg0 =
    Some \<lparr>pl_GeneratedAt = now, pl_SiteID = s_SiteID summary, pl_Config = cfg,
      pl_Slots = map (plan_slot math_Sin z now summary cfg) [0..<nat (slot_count cfg)]\<rparr>"
  using assms slot_loop_map [OF slot_step_Some [OF assms(2)]]
  by (simp add: BuildDayAheadPlan_def Let_def plan_slot_def [abs_def] plan_soc_def)

lemma plan_slot_times:
  assumes "valid_cfg cfg" "cfg_HorizonHours cfg \<le> max_horizon" "int k < slot_count cfg"
  shows "sl_StartAt (plan_slot math_Sin z now summary cfg k) =
      time_Truncate now slotDuration + int k * cfg_SlotMinutes cfg * Minute"
    "sl_EndAt (plan_slot math_Sin z now summary cfg k) =
      time_Truncate now slotDuration + (int k + 1) * cfg_SlotMinutes cfg * Minute"
proof -
  have t: "cfg_Tariffs cfg \<noteq> []" using assms(1) by (simp add: valid_cfg_def)
  note sel = slot_of_sel [OF t, of math_Sin z "time_Truncate now slotDuration"]
  obtain mode target reason where d: "slot_decision math_Sin z cfg (time_Truncate now slotDuration)
      (math_Max (s_PVPowerW summary) (Fin 20)) (math_Max (s_LoadPowerW summary) (Fin 30)) (int k)
      (plan_soc math_Sin z now summary cfg k) = (mode, target, reason)" by (metis prod_cases3)
  show "sl_StartAt (plan_slot math_Sin z now summary cfg k) =
      time_Truncate now slotDuration + int k * cfg_SlotMinutes cfg * Minute"
    using sel(1) [OF d] slot_offset [OF assms] by (simp add: plan_slot_def)
  then show "sl_EndAt (plan_slot math_Sin z now summary cfg k) =
      time_Truncate now slotDuration + (int k + 1) * cfg_SlotMinutes cfg * Minute"
    using sel(2) [OF d] slot_offset(2) [OF assms] by (simp add: plan_slot_def algebra_simps)
qed

text \<open>Consecutive slots of one length: a time lies in the slot its offset says.\<close>

lemma find_slot_grid:
  assumes "0 < len" "\<And>k. k < n \<Longrightarrow> sl_StartAt (f k) = t0 + int k * len \<and> sl_EndAt (f k) = t0 + (int k + 1) * len"
  shows "find_slot (map f [m..<n]) t =
    (if t0 + int m * len \<le> t \<and> t < t0 + int n * len then Some (f (nat ((t - t0) div len))) else None)"
proof (induction "n - m" arbitrary: m)
  case 0
  then have "int n * len \<le> int m * len" using assms(1) by (intro mult_right_mono) auto
  with 0 show ?case by auto
next
  case (Suc d)
  then have m: "m < n" by simp
  have here: "(t - t0) div len = int m" if "t0 + int m * len \<le> t" "t < t0 + (int m + 1) * len"
    using that assms(1) by (intro int_div_pos_eq [of _ _ _ "t - t0 - int m * len"]) (auto simp: algebra_simps)
  have "(int m + 1) * len \<le> int n * len" using m assms(1) by (intro mult_right_mono) auto
  with Suc.hyps(1) [of "Suc m"] Suc.hyps(2) assms(2) [OF m] here assms(1) m show ?case
    by (subst upt_conv_Cons) (auto simp: algebra_simps)
qed

lemma grid_index:
  assumes "0 < len" "t0 \<le> u" "u < t0 + int n * len"
  shows "nat ((u - t0) div len) < n"
proof (rule ccontr)
  assume "\<not> ?thesis"
  moreover have "0 \<le> (u - t0) div len" using assms by (simp add: pos_imp_zdiv_nonneg_iff)
  ultimately have "int n \<le> (u - t0) div len" by linarith
  then have "int n * len \<le> (u - t0) div len * len" using assms(1) by (intro mult_right_mono) auto
  also have "\<dots> \<le> u - t0" using assms(1) by (simp add: minus_mod_eq_div_mult [symmetric])
  finally show False using assms(3) by simp
qed

section \<open>What holds of every slot\<close>

lemma start_soc_ok:
  assumes "valid_cfg cfg" "is_f64 (s_AvgSOC summary)" "s_AvgSOC summary \<noteq> NaN"
  shows "soc_ok cfg (start_soc cfg summary)"
proof -
  let ?v = "if f_eq (s_AvgSOC summary) (Fin 0) then Fin (1/2) else s_AvgSOC summary"
  have "is_f64 (Fin (1/2))" by (simp add: is_f64_def f64_eval)
  then have "is_f64 ?v" "?v \<noteq> NaN" using assms by auto
  then show ?thesis
    using assms(1) clamp_bounds [of ?v "cfg_MinSOC cfg" "cfg_MaxSOC cfg"]
    by (simp add: start_soc_def Let_def soc_ok_def is_f64_clamp valid_cfg_def finite_cfg_def)
qed

text \<open>Slot \<open>k\<close> of a plan: its decision, and the state of charge before and after it.\<close>

definition plan_decision where
  "plan_decision math_Sin z now summary cfg k =
     slot_decision math_Sin z cfg (time_Truncate now slotDuration)
       (math_Max (s_PVPowerW summary) (Fin 20)) (math_Max (s_LoadPowerW summary) (Fin 30)) (int k)
       (plan_soc math_Sin z now summary cfg k)"

lemma plan_soc_Suc:
  assumes "plan_decision math_Sin z now summary cfg k = (mode, target, reason)"
  shows "plan_soc math_Sin z now summary cfg (Suc k) = nextSOC (plan_soc math_Sin z now summary cfg k) mode target cfg"
  using assms by (simp add: plan_soc_def plan_decision_def next_soc_def)

lemma plan_decision_bounds:
  assumes "valid_cfg cfg" "plan_decision math_Sin z now summary cfg k = (mode, target, reason)"
  shows "f_le (Fin 0) target \<and> f_le target (cfg_BatteryPowerLimitW cfg)"
    "mode = ''charge'' \<and> f_lt (plan_soc math_Sin z now summary cfg k) (cfg_MaxSOC cfg) \<or>
     mode = ''discharge'' \<and> f_lt (cfg_MinSOC cfg) (plan_soc math_Sin z now summary cfg k) \<or>
     mode = ''idle'' \<and> target = Fin 0"
  using decide_bounds [OF assms(2) [unfolded plan_decision_def slot_decision_def Let_def]] assms(1)
  by (simp_all add: forecastLoad_def Let_def valid_cfg_def)

lemma plan_soc_ok:
  assumes "valid_cfg cfg" "is_f64 (s_AvgSOC summary)" "s_AvgSOC summary \<noteq> NaN"
  shows "soc_ok cfg (plan_soc math_Sin z now summary cfg k)"
proof (induction k)
  case 0
  then show ?case using start_soc_ok [OF assms] by (simp add: plan_soc_def)
next
  case (Suc k)
  obtain mode target reason where d: "plan_decision math_Sin z now summary cfg k = (mode, target, reason)"
    by (metis prod_cases3)
  show ?case
    unfolding plan_soc_Suc [OF d]
    using plan_decision_bounds(1) [OF assms(1) d] Suc assms(1) by (intro nextSOC_step(1)) auto
qed

lemma plan_slot_sel:
  assumes "valid_cfg cfg" "plan_decision math_Sin z now summary cfg k = (mode, target, reason)"
  shows "sl_BatteryMode (plan_slot math_Sin z now summary cfg k) = mode"
    "sl_TargetPowerW (plan_slot math_Sin z now summary cfg k) = round2 target"
    "sl_ForecastSOC (plan_slot math_Sin z now summary cfg k) = round4 (plan_soc math_Sin z now summary cfg (Suc k))"
  using slot_of_sel(3-5) [OF _ assms(2) [unfolded plan_decision_def]] assms(1)
  by (simp_all add: plan_slot_def plan_soc_def valid_cfg_def)

text \<open>A validated configuration with a horizon that fits always yields a plan of the expected slots.\<close>

lemma valid_plan:
  assumes "ValidateConfig cfg = None" "finite_cfg cfg" "cfg_HorizonHours cfg \<le> max_horizon"
  defines "n \<equiv> normalizeConfig cfg"
  shows "valid_cfg n" "cfg_HorizonHours n \<le> max_horizon"
    "BuildDayAheadPlan math_Sin z now summary cfg =
      Some \<lparr>pl_GeneratedAt = now, pl_SiteID = s_SiteID summary, pl_Config = n,
        pl_Slots = map (plan_slot math_Sin z now summary n) [0..<nat (slot_count n)]\<rparr>"
proof -
  show v: "valid_cfg n" unfolding n_def using assms(1,2) by (rule ValidateConfig_valid)
  show h: "cfg_HorizonHours n \<le> max_horizon" using assms(3) by (simp add: n_def normalizeConfig_sel)
  show "BuildDayAheadPlan math_Sin z now summary cfg =
      Some \<lparr>pl_GeneratedAt = now, pl_SiteID = s_SiteID summary, pl_Config = n,
        pl_Slots = map (plan_slot math_Sin z now summary n) [0..<nat (slot_count n)]\<rparr>"
    using v slot_count_eq(4) [OF v h] by (intro plan_eq) (simp_all add: n_def valid_cfg_def)
qed

section \<open>Properties\<close>

text \<open>The zero value of the configuration: every field takes its default.\<close>

definition zero_Config :: Config where
  "zero_Config = \<lparr>cfg_HorizonHours = 0, cfg_SlotMinutes = 0, cfg_BatteryCapacityWh = Fin 0,
     cfg_BatteryPowerLimitW = Fin 0, cfg_MinSOC = Fin 0, cfg_MaxSOC = Fin 0, cfg_Tariffs = [],
     cfg_minSOCSet = False, cfg_maxSOCSet = False\<rparr>"

lemma zero_Config_ok:
  "ValidateConfig zero_Config = None" "finite_cfg zero_Config" "cfg_HorizonHours zero_Config \<le> max_horizon"
  by (simp_all add: ValidateConfig_def normalizeConfig_sel f_lit_09 finite_cfg_def zero_Config_def Let_def)

lemma zero_Config_norm:
  "slot_count (normalizeConfig zero_Config) = 96" "cfg_MinSOC (normalizeConfig zero_Config) = Fin (1/4)"
  "cfg_MaxSOC (normalizeConfig zero_Config) = f_lit (9/10)" "cfg_BatteryPowerLimitW (normalizeConfig zero_Config) = Fin 50"
  by (simp_all add: slot_count_def normalizeConfig_sel zero_Config_def go_div_def wrap64_def)

lemmas zero_plan = valid_plan(3) [OF zero_Config_ok, unfolded zero_Config_norm]

text \<open>
  C31. A configuration that passes \<open>ValidateConfig\<close>, with finite numbers and a horizon that fits a
  duration, always yields a plan: one slot for every slot length of the horizon, the first at the
  current quarter of an hour, each starting where the previous one ends, the last ending exactly
  the horizon after the start.
\<close>
theorem plan_covers_horizon:
  assumes "ValidateConfig cfg = None" "finite_cfg cfg" "cfg_HorizonHours cfg \<le> max_horizon"
  shows "\<exists>plan. BuildDayAheadPlan math_Sin z now summary cfg = Some plan \<and>
    (let n = normalizeConfig cfg; slots = pl_Slots plan; start = time_Truncate now (15 * Minute) in
     int (length slots) = cfg_HorizonHours n * 60 div cfg_SlotMinutes n \<and> slots \<noteq> [] \<and>
     sl_StartAt (hd slots) = start \<and>
     (\<forall>k. Suc k < length slots \<longrightarrow> sl_StartAt (slots ! Suc k) = sl_EndAt (slots ! k)) \<and>
     (\<forall>sl \<in> set slots. sl_EndAt sl = sl_StartAt sl + cfg_SlotMinutes n * Minute) \<and>
     sl_EndAt (last slots) = start + cfg_HorizonHours n * 60 * Minute)"
proof -
  let ?n = "normalizeConfig cfg"
  note v = valid_plan [OF assms]
  note c = slot_count_eq [OF v(1,2)]
  note times = plan_slot_times [OF v(1,2), of _ math_Sin z now summary]
  let ?slots = "map (plan_slot math_Sin z now summary ?n) [0..<nat (slot_count ?n)]"
  have ne: "0 < nat (slot_count ?n)" using c(3) by simp
  have "int (nat (slot_count ?n - 1)) + 1 = slot_count ?n" using c(3) by simp
  then have "sl_EndAt (last ?slots) = time_Truncate now (15 * Minute) + cfg_HorizonHours ?n * 60 * Minute"
    using ne times(2) [of "nat (slot_count ?n) - 1"] c(2)
    by (simp add: last_map slotDuration_def nat_diff_distrib)
  moreover have "sl_StartAt (hd ?slots) = time_Truncate now (15 * Minute)"
    using ne times(1) [of 0] by (simp add: hd_map slotDuration_def)
  moreover have "\<forall>k. Suc k < length ?slots \<longrightarrow> sl_StartAt (?slots ! Suc k) = sl_EndAt (?slots ! k)"
    using times by (auto simp: algebra_simps)
  moreover have "sl_EndAt (plan_slot math_Sin z now summary ?n k) =
      sl_StartAt (plan_slot math_Sin z now summary ?n k) + cfg_SlotMinutes ?n * Minute" if "int k < slot_count ?n" for k
    using times [OF that] by (simp add: algebra_simps)
  then have "\<forall>sl \<in> set ?slots. sl_EndAt sl = sl_StartAt sl + cfg_SlotMinutes ?n * Minute"
    by (auto simp: zless_nat_eq_int_zless)
  moreover have "int (length ?slots) = cfg_HorizonHours ?n * 60 div cfg_SlotMinutes ?n" "?slots \<noteq> []"
    using c(1,3) by simp_all
  ultimately show ?thesis
    unfolding v(3) Let_def by - (intro exI conjI, rule refl, simp_all only: Plan.select_convs not_False_eq_True)
qed

theorem plan_covers_horizon_witness:
  "\<exists>plan. BuildDayAheadPlan (\<lambda>x. x) (\<lambda>_. 0) (time_Unix 1000) zero_SiteSummary zero_Config = Some plan \<and>
     length (pl_Slots plan) = 96"
  using plan_covers_horizon [OF zero_Config_ok, of "\<lambda>x. x" "\<lambda>_. 0" "time_Unix 1000" zero_SiteSummary]
  by (auto simp: Let_def normalizeConfig_sel zero_Config_def)

text \<open>
  \<open>CurrentSlot\<close> on such a plan finds, for every time of the horizon, the slot that the time's
  offset from the start says, and no slot for a time outside; for the time the plan is made for
  it always finds one.
\<close>
theorem current_slot_of_plan:
  assumes "ValidateConfig cfg = None" "finite_cfg cfg" "cfg_HorizonHours cfg \<le> max_horizon"
    and "BuildDayAheadPlan math_Sin z now summary cfg = Some plan"
  shows "let n = normalizeConfig cfg; start = time_Truncate now (15 * Minute); len = cfg_SlotMinutes n * Minute in
    CurrentSlot plan t =
      (if start \<le> t \<and> t < start + cfg_HorizonHours n * 60 * Minute
       then Some (pl_Slots plan ! nat ((t - start) div len)) else None) \<and>
    CurrentSlot plan now \<noteq> None"
proof -
  let ?n = "normalizeConfig cfg" and ?start = "time_Truncate now slotDuration"
  note v = valid_plan [OF assms(1-3)]
  note c = slot_count_eq [OF v(1,2)]
  let ?f = "plan_slot math_Sin z now summary ?n" and ?N = "nat (slot_count ?n)"
  let ?len = "cfg_SlotMinutes ?n * Minute"
  have len: "0 < ?len" using v(1) by (simp add: valid_cfg_def)
  have slots: "pl_Slots plan = map ?f [0..<?N]" using v(3) [of math_Sin z now summary] assms(4) by auto
  have total: "int ?N * ?len = cfg_HorizonHours ?n * 60 * Minute" using c(2,3) by (simp add: mult.assoc [symmetric])
  have times: "sl_StartAt (?f k) = ?start + int k * ?len \<and> sl_EndAt (?f k) = ?start + (int k + 1) * ?len"
    if "k < ?N" for k using plan_slot_times [OF v(1,2), of k] that by (simp add: mult.assoc)
  have grid: "find_slot (map ?f [0..<?N]) u =
      (if ?start \<le> u \<and> u < ?start + cfg_HorizonHours ?n * 60 * Minute then Some (?f (nat ((u - ?start) div ?len))) else None)" for u
    unfolding total [symmetric] using find_slot_grid [OF len times, where m = 0 and t = u]
    by (simp only: of_nat_0 mult_zero_left add_0_right)
  have idx: "nat ((u - ?start) div ?len) < ?N" if "?start \<le> u" "u < ?start + cfg_HorizonHours ?n * 60 * Minute" for u
    by (rule grid_index [OF len that(1)]) (simp only: total that(2))
  have slot_at: "map ?f [0..<?N] ! nat ((u - ?start) div ?len) = ?f (nat ((u - ?start) div ?len))"
    if "?start \<le> u" "u < ?start + cfg_HorizonHours ?n * 60 * Minute" for u
    using idx [OF that] by (simp only: nth_map length_upt diff_zero nth_upt add_0)
  have "?start \<le> now \<and> now < ?start + slotDuration" by (rule time_Truncate_bounds) (simp add: slotDuration_def)
  moreover have "slotDuration \<le> cfg_HorizonHours ?n * 60 * Minute" using v(1) by (simp add: valid_cfg_def slotDuration_def)
  ultimately have "CurrentSlot plan now \<noteq> None" by (simp add: CurrentSlot_def slots grid)
  moreover have "CurrentSlot plan t = (if ?start \<le> t \<and> t < ?start + cfg_HorizonHours ?n * 60 * Minute
      then Some (pl_Slots plan ! nat ((t - ?start) div ?len)) else None)"
    by (auto simp only: CurrentSlot_def slots grid slot_at split: if_splits)
  ultimately show ?thesis by (simp add: Let_def slotDuration_def)
qed

theorem current_slot_of_plan_witness:
  "CurrentSlot (the (BuildDayAheadPlan (\<lambda>x. x) (\<lambda>_. 0) (time_Unix 1000) zero_SiteSummary zero_Config)) (time_Unix 1000) \<noteq> None"
  unfolding zero_plan option.sel
  by (rule conjunct2 [OF current_slot_of_plan [OF zero_Config_ok zero_plan, unfolded Let_def]])

text \<open>
  C7. The state of charge a plan carries from slot to slot stays between the configured minimum
  and maximum. A charging slot starts below the maximum and does not lower it, a discharging one
  starts above the minimum and does not raise it, an idle one keeps it, and there is no other
  mode. The forecast in a slot is the value after it, rounded to four digits.
\<close>
theorem plan_soc_within_limits:
  assumes "ValidateConfig cfg = None" "finite_cfg cfg" "cfg_HorizonHours cfg \<le> max_horizon"
    and "is_f64 (s_AvgSOC summary)" "s_AvgSOC summary \<noteq> NaN"
    and "BuildDayAheadPlan math_Sin z now summary cfg = Some plan"
  shows "\<exists>soc. soc 0 = start_soc (pl_Config plan) summary \<and>
    (\<forall>k. f_le (cfg_MinSOC (pl_Config plan)) (soc k) \<and> f_le (soc k) (cfg_MaxSOC (pl_Config plan))) \<and>
    (\<forall>k < length (pl_Slots plan). let sl = pl_Slots plan ! k; mode = sl_BatteryMode sl in
       sl_ForecastSOC sl = round4 (soc (Suc k)) \<and>
       (mode = ''charge'' \<and> f_lt (soc k) (cfg_MaxSOC (pl_Config plan)) \<and> f_le (soc k) (soc (Suc k)) \<or>
        mode = ''discharge'' \<and> f_lt (cfg_MinSOC (pl_Config plan)) (soc k) \<and> f_le (soc (Suc k)) (soc k) \<or>
        mode = ''idle'' \<and> soc (Suc k) = soc k))"
proof -
  let ?n = "normalizeConfig cfg" and ?soc = "plan_soc math_Sin z now summary (normalizeConfig cfg)"
  note v = valid_plan [OF assms(1-3)]
  have plan: "pl_Config plan = ?n" "pl_Slots plan = map (plan_slot math_Sin z now summary ?n) [0..<nat (slot_count ?n)]"
    using v(3) [of math_Sin z now summary] assms(6) by auto
  note ok = plan_soc_ok [OF v(1) assms(4,5), of math_Sin z now]
  have step: "let sl = plan_slot math_Sin z now summary ?n k; mode = sl_BatteryMode sl in
      sl_ForecastSOC sl = round4 (?soc (Suc k)) \<and>
      (mode = ''charge'' \<and> f_lt (?soc k) (cfg_MaxSOC ?n) \<and> f_le (?soc k) (?soc (Suc k)) \<or>
       mode = ''discharge'' \<and> f_lt (cfg_MinSOC ?n) (?soc k) \<and> f_le (?soc (Suc k)) (?soc k) \<or>
       mode = ''idle'' \<and> ?soc (Suc k) = ?soc k)" for k
  proof -
    obtain mode target reason where d: "plan_decision math_Sin z now summary ?n k = (mode, target, reason)"
      by (metis prod_cases3)
    note b = plan_decision_bounds [OF v(1) d]
    show ?thesis
      using b plan_slot_sel [OF v(1) d] nextSOC_step [OF v(1) ok [of k], of target mode] plan_soc_Suc [OF d]
      by (auto simp: Let_def)
  qed
  show ?thesis
    using ok step by (intro exI [of _ ?soc]) (simp add: plan plan_soc_def soc_ok_def)
qed

theorem plan_soc_within_limits_witness:
  "\<exists>soc. (\<forall>k :: nat. f_le (Fin (1/4)) (soc k) \<and> f_le (soc k) (f_lit (9/10))) \<and>
     sl_ForecastSOC (pl_Slots (the (BuildDayAheadPlan (\<lambda>x. x) (\<lambda>_. 0) 0 zero_SiteSummary zero_Config)) ! 95) = round4 (soc 96)"
proof -
  have "is_f64 (s_AvgSOC zero_SiteSummary)" "s_AvgSOC zero_SiteSummary \<noteq> NaN"
    by (simp_all add: zero_SiteSummary_def)
  from plan_soc_within_limits [OF zero_Config_ok this zero_plan] obtain soc where
    soc: "\<forall>k. f_le (cfg_MinSOC (normalizeConfig zero_Config)) (soc k) \<and> f_le (soc k) (cfg_MaxSOC (normalizeConfig zero_Config))"
    "\<forall>k < 96. sl_ForecastSOC (map (plan_slot (\<lambda>x. x) (\<lambda>_. 0) 0 zero_SiteSummary (normalizeConfig zero_Config)) [0..<96] ! k) =
        round4 (soc (Suc k))"
    unfolding Let_def by fastforce
  from soc(1) spec [OF soc(2), of 95] show ?thesis
    unfolding zero_plan option.sel zero_Config_norm by (intro exI [of _ soc]) simp
qed

text \<open>
  The power a plan asks of the battery is never negative and, before it is rounded to two
  digits for the slot, never above the configured limit; an idle slot asks for none.
\<close>
theorem plan_power_within_limit:
  assumes "ValidateConfig cfg = None" "finite_cfg cfg" "cfg_HorizonHours cfg \<le> max_horizon"
    and "BuildDayAheadPlan math_Sin z now summary cfg = Some plan" "sl \<in> set (pl_Slots plan)"
  shows "\<exists>target. sl_TargetPowerW sl = round2 target \<and> f_le (Fin 0) target \<and>
    f_le target (cfg_BatteryPowerLimitW (pl_Config plan)) \<and> (sl_BatteryMode sl = ''idle'' \<longrightarrow> target = Fin 0)"
proof -
  let ?n = "normalizeConfig cfg"
  note v = valid_plan [OF assms(1-3)]
  from v(3) [of math_Sin z now summary] assms(4,5) obtain k where
    k: "sl = plan_slot math_Sin z now summary ?n k" "pl_Config plan = ?n" by auto
  obtain mode target reason where d: "plan_decision math_Sin z now summary ?n k = (mode, target, reason)"
    by (metis prod_cases3)
  show ?thesis
    using plan_decision_bounds [OF v(1) d] plan_slot_sel [OF v(1) d] k by auto
qed

theorem plan_power_within_limit_witness:
  "\<exists>target. sl_TargetPowerW (pl_Slots (the (BuildDayAheadPlan (\<lambda>x. x) (\<lambda>_. 0) 0 zero_SiteSummary zero_Config)) ! 3) = round2 target \<and>
     f_le (Fin 0) target \<and> f_le target (Fin 50)"
proof -
  let ?f = "plan_slot (\<lambda>x. x) (\<lambda>_. 0) 0 zero_SiteSummary (normalizeConfig zero_Config)"
  have "?f 3 \<in> set (pl_Slots (the (BuildDayAheadPlan (\<lambda>x. x) (\<lambda>_. 0) 0 zero_SiteSummary zero_Config)))"
    by (simp add: zero_plan)
  from plan_power_within_limit [OF zero_Config_ok zero_plan this [unfolded zero_plan option.sel]]
  show ?thesis by (auto simp: zero_plan zero_Config_norm)
qed

text \<open>
  \<open>ValidateConfig\<close> is sound: when it accepts a configuration of finite numbers, the
  configuration with the defaults filled in has a positive horizon, slots that divide an hour, a
  positive capacity and power limit, 0 <= min SOC <= max SOC <= 1 and at least one tariff band.
\<close>
theorem validate_config_sound:
  assumes "ValidateConfig cfg = None" "finite_cfg cfg"
  shows "let n = normalizeConfig cfg in
    0 < cfg_HorizonHours n \<and> 0 < cfg_SlotMinutes n \<and> cfg_SlotMinutes n dvd 60 \<and>
    f_lt (Fin 0) (cfg_BatteryCapacityWh n) \<and> f_lt (Fin 0) (cfg_BatteryPowerLimitW n) \<and>
    f_le (Fin 0) (cfg_MinSOC n) \<and> f_le (cfg_MinSOC n) (cfg_MaxSOC n) \<and> f_le (cfg_MaxSOC n) (Fin 1) \<and>
    cfg_Tariffs n \<noteq> []"
  using ValidateConfig_valid [OF assms] by (simp add: valid_cfg_def Let_def)

theorem validate_config_sound_witness:
  "f_le (cfg_MinSOC (normalizeConfig zero_Config)) (cfg_MaxSOC (normalizeConfig zero_Config))"
  using validate_config_sound [OF zero_Config_ok(1,2)] by (simp add: Let_def)

text \<open>
  A limit given as zero is kept and a missing one is replaced: after a successful decoding the
  plan uses the limits of the document, also when they are zero, and the default of 0.25 or 0.9
  for a limit the document does not name, when the target held no limits before.
\<close>
theorem config_explicit_zero:
  assumes "decode zero_Config data = (c, rawMin, rawMax, None)"
    "cfg_MinSOC c = Fin 0" "cfg_MaxSOC c = Fin 0" "\<not> cfg_minSOCSet c" "\<not> cfg_maxSOCSet c"
  shows "\<exists>c'. Config_UnmarshalJSON decode zero_Config data = (c', None) \<and>
    cfg_MinSOC (normalizeConfig c') = (case rawMin of Some v \<Rightarrow> v | None \<Rightarrow> f_lit (25/100)) \<and>
    cfg_MaxSOC (normalizeConfig c') = (case rawMax of Some v \<Rightarrow> v | None \<Rightarrow> f_lit (90/100))"
  using assms by (auto simp: Config_UnmarshalJSON_def normalizeConfig_sel Let_def f_lit_def f64_eval split: option.split)

theorem config_explicit_zero_witness:
  "\<exists>c'. Config_UnmarshalJSON (\<lambda>c _. (c, Some (Fin 0), None, None)) zero_Config ''{}'' = (c', None) \<and>
     cfg_MinSOC (normalizeConfig c') = Fin 0"
  using config_explicit_zero [of "\<lambda>c _. (c, Some (Fin 0), None, None)" "''{}''" zero_Config "Some (Fin 0)" None]
  by (auto simp: zero_Config_def)

text \<open>
  A document that only raises the minimum, such as min_soc 0.5, is rejected by
  \<open>ValidateConfig\<close>, because the bounds are compared before the default of the missing maximum is
  filled in, although the configuration with its defaults is valid.
\<close>
theorem partial_config_rejected:
  "let (c, err) = Config_UnmarshalJSON (\<lambda>c _. (c, Some (Fin (1/2)), None, None)) zero_Config data in
   err = None \<and> ValidateConfig c = Some ''min_soc must be <= max_soc'' \<and> valid_cfg (normalizeConfig c)"
proof -
  have "is_f64 (Fin (1/2))" by (simp add: is_f64_def f64_eval)
  moreover have "cfg_Tariffs DefaultConfig \<noteq> []" by (simp add: DefaultConfig_def)
  ultimately show ?thesis
    using default_values
    by (simp add: Config_UnmarshalJSON_def zero_Config_def ValidateConfig_def valid_cfg_def finite_cfg_def
        normalizeConfig_sel f_lit_09 Let_def)
qed

text \<open>
  Rounding the forecast can leave the configured bounds: with a maximum of 32767/32768 a full
  battery is shown as 1.
\<close>

lemma round4_exceeds: "round4 (Fin (32767/32768)) = Fin 1"
proof -
  have "round64 (81917500 / 8192) = Fin (81917500 / 8192)"
    using round64_exact [of 81917500 "- 13"] by (simp add: f64_eval)
  then show ?thesis by (simp add: round4_def f64_ops f64_eval)
qed

section \<open>Prices\<close>

lemma foldl_min_le:
  assumes "\<forall>b \<in> set bs. tb_Price b \<noteq> NaN" "p \<noteq> NaN"
  defines "m \<equiv> foldl (\<lambda>mn band. if f_lt (tb_Price band) mn then tb_Price band else mn) p bs"
  shows "f_le m p \<and> (\<forall>b \<in> set bs. f_le m (tb_Price b))"
  unfolding m_def using assms(1,2)
proof (induction bs arbitrary: p)
  case (Cons b bs)
  let ?p = "if f_lt (tb_Price b) p then tb_Price b else p"
  have "?p \<noteq> NaN" "f_le ?p p" "f_le ?p (tb_Price b)"
    using Cons.prems by (auto simp: f_not_lt intro: f_lt_le)
  with Cons.IH [of ?p] Cons.prems show ?case by (auto intro: f_le_trans)
qed simp

lemma foldl_max_ge:
  assumes "\<forall>b \<in> set bs. tb_Price b \<noteq> NaN" "p \<noteq> NaN"
  defines "m \<equiv> foldl (\<lambda>mx band. if f_lt mx (tb_Price band) then tb_Price band else mx) p bs"
  shows "f_le p m \<and> (\<forall>b \<in> set bs. f_le (tb_Price b) m)"
  unfolding m_def using assms(1,2)
proof (induction bs arbitrary: p)
  case (Cons b bs)
  let ?p = "if f_lt p (tb_Price b) then tb_Price b else p"
  have "?p \<noteq> NaN" "f_le p ?p" "f_le (tb_Price b) ?p"
    using Cons.prems by (auto simp: f_not_lt intro: f_lt_le)
  with Cons.IH [of ?p] Cons.prems show ?case by (auto intro: f_le_trans)
qed simp

lemma foldl_pick:
  "foldl (\<lambda>m (b :: TariffBand). if P (tb_Price b) m then tb_Price b else m) p bs \<in> insert p (tb_Price ` set bs)"
proof (induction bs arbitrary: p)
  case (Cons b bs)
  then show ?case using Cons [of p] Cons [of "tb_Price b"] by auto
qed simp

lemma price_in_cases: "price_in h bs \<in> insert (f_lit (58/100)) (tb_Price ` set bs)"
  by (induction bs) auto

text \<open>
  The low and the high price of a non-empty tariff are prices of the tariff, and every band's
  price lies between them. The price of a time is that of the first band that contains its hour
  in the zone, and 0.58 when none does.
\<close>
lemma tariff_price_range:
  assumes "bands \<noteq> []" "\<forall>b \<in> set bands. tb_Price b \<noteq> NaN"
  shows "\<exists>low high. lowPrice bands = Some low \<and> highPrice bands = Some high \<and>
    low \<in> tb_Price ` set bands \<and> high \<in> tb_Price ` set bands \<and>
    (\<forall>b \<in> set bands. f_le low (tb_Price b) \<and> f_le (tb_Price b) high) \<and>
    priceAt z t bands = (case find (\<lambda>b. tb_StartHour b \<le> time_Hour z t \<and> time_Hour z t < tb_EndHour b) bands of
       Some b \<Rightarrow> tb_Price b | None \<Rightarrow> f_lit (58/100))"
proof -
  obtain b bs where b: "bands = b # bs" using assms(1) by (cases bands) auto
  then have n: "tb_Price b \<noteq> NaN" using assms(2) by simp
  have price: "priceAt z t bands = (case find (\<lambda>b. tb_StartHour b \<le> time_Hour z t \<and> time_Hour z t < tb_EndHour b) bands of
       Some b \<Rightarrow> tb_Price b | None \<Rightarrow> f_lit (58/100))"
    unfolding priceAt_def by (induction bands) auto
  show ?thesis
    using foldl_min_le [OF assms(2) n] foldl_max_ge [OF assms(2) n] price
      foldl_pick [of f_lt "tb_Price b" bands] foldl_pick [of "\<lambda>x y. f_lt y x" "tb_Price b" bands]
    by (intro exI [of _ "the (lowPrice bands)"] exI [of _ "the (highPrice bands)"])
      (simp add: lowPrice_def highPrice_def b)
qed

end
