(* ===== verification/Dispatch.thy ===== *)
theory Dispatch
  imports Optimizer
begin

text \<open>
  internal/dispatch/preview.go: the preview of the command the current slot of a fresh plan asks
  for, and the decision whether it may be applied. \<open>None\<close> is the panic of the plan for an
  impossible number of slots. The last property joins the optimizer and this package: what a
  decision lets through.
\<close>

section \<open>Definitions\<close>

record Preview =
  pv_GeneratedAt :: time
  pv_SiteID :: string
  pv_Summary :: SiteSummary
  pv_Slot :: Slot
  pv_TrackingErrorW :: float64
  pv_CandidateDeviceID :: string
  pv_CandidateCommand :: "Command option"
  pv_SafeToApply :: bool
  pv_Reason :: string
  pv_Plan :: Plan

record ApplyRequest =
  rq_Confirm :: bool
  rq_MaxAbsTrackingErrorW :: float64
  rq_Config :: Config

record ApplyDecision =
  dc_CanApply :: bool
  dc_Reason :: string
  dc_Preview :: Preview

definition zero_Slot :: Slot where
  "zero_Slot = \<lparr>sl_StartAt = 0, sl_EndAt = 0, sl_BatteryMode = [], sl_TargetPowerW = Fin 0,
     sl_ExpectedPrice = Fin 0, sl_ForecastPVW = Fin 0, sl_ForecastLoadW = Fin 0, sl_ForecastSOC = Fin 0,
     sl_NetLoadW = Fin 0, sl_Reason = []\<rparr>"

fun firstDevice :: "Device list \<Rightarrow> string \<Rightarrow> DeviceType \<Rightarrow> Device option" where
  "firstDevice [] siteID typ = None"
| "firstDevice (d # ds) siteID typ =
     (if d_SiteID d = siteID \<and> d_Type d = typ then Some d else firstDevice ds siteID typ)"

definition batteryCommandMode :: "string \<Rightarrow> string" where
  "batteryCommandMode planMode =
     (if planMode = ''charge'' then ''charging''
      else if planMode = ''discharge'' then ''discharging''
      else if planMode = ''idle'' then ''idle''
      else [])"

text \<open>The recursive call of the source is for a value that is not negative.\<close>

definition dispatch_round2_pos :: "float64 \<Rightarrow> float64" where
  "dispatch_round2_pos v = f_div (f_of_int (f_to_int64 (f_add (f_mul v (Fin 100)) (Fin (1/2))))) (Fin 100)"

definition dispatch_round2 :: "float64 \<Rightarrow> float64" where
  "dispatch_round2 v =
     (if f_lt v (Fin 0) then f_neg (dispatch_round2_pos (f_neg v)) else dispatch_round2_pos v)"

text \<open>\<open>%.2f\<close>: the exact value to two digits, halves to even.\<close>

definition pad2 :: "nat \<Rightarrow> string" where
  "pad2 n = (if n < 10 then ''0'' @ nat_str n else nat_str n)"

fun fmt_2f :: "float64 \<Rightarrow> string" where
  "fmt_2f NaN = ''NaN''"
| "fmt_2f PInf = ''+Inf''"
| "fmt_2f NInf = ''-Inf''"
| "fmt_2f NZero = ''-0.00''"
| "fmt_2f (Fin q) =
     (let k = nat (rne (\<bar>q\<bar> * 100)) in
      (if q < 0 then ''-'' else []) @ nat_str (k div 100) @ ''.'' @ pad2 (k mod 100))"

definition BuildPreview ::
  "(float64 \<Rightarrow> float64) \<Rightarrow> zone \<Rightarrow> time \<Rightarrow> SiteSummary \<Rightarrow> Device list \<Rightarrow> Config \<Rightarrow> Preview option" where
  "BuildPreview math_Sin z now summary ds cfg =
     (case BuildDayAheadPlan math_Sin z now summary cfg of
        None \<Rightarrow> None
      | Some plan \<Rightarrow> Some (
          let preview = \<lparr>pv_GeneratedAt = now, pv_SiteID = s_SiteID summary, pv_Summary = summary,
                pv_Slot = (case CurrentSlot plan now of None \<Rightarrow> zero_Slot | Some sl \<Rightarrow> sl),
                pv_TrackingErrorW = Fin 0, pv_CandidateDeviceID = [], pv_CandidateCommand = None,
                pv_SafeToApply = False, pv_Reason = [], pv_Plan = plan\<rparr> in
          case CurrentSlot plan now of
            None \<Rightarrow> preview\<lparr>pv_Reason := ''no active plan slot''\<rparr>
          | Some sl \<Rightarrow>
              let p1 = preview\<lparr>pv_TrackingErrorW := dispatch_round2 (f_sub (s_NetPowerW summary) (sl_NetLoadW sl))\<rparr> in
              if sl_BatteryMode sl = ''idle'' \<or> f_eq (sl_TargetPowerW sl) (Fin 0) then
                p1\<lparr>pv_Reason := ''active slot does not require battery action''\<rparr>
              else
                case firstDevice ds (s_SiteID summary) DeviceBattery of
                  None \<Rightarrow> p1\<lparr>pv_Reason := ''no battery device registered''\<rparr>
                | Some battery \<Rightarrow>
                    let p2 = p1\<lparr>pv_CandidateDeviceID := d_ID battery\<rparr>;
                        mode = batteryCommandMode (sl_BatteryMode sl) in
                    if mode = [] then p2\<lparr>pv_Reason := ''active slot has unsupported battery mode''\<rparr>
                    else
                      p2\<lparr>pv_CandidateCommand := Some
                          \<lparr>c_CommandID = d_ID battery @ ''-preview-'' @ fmt_d (time_unix_nano now),
                           c_Action = ''set_mode'',
                           c_Params = Some [(''mode'', GStr mode), (''target_power_w'', GNum (sl_TargetPowerW sl))],
                           c_IssuedAt = time_unix_sec now,
                           c_Reason = ''day-ahead plan tracking preview: '' @ sl_Reason sl\<rparr>,
                         pv_Reason := ''candidate command generated from active plan slot''\<rparr>))"

definition apply_limit :: "ApplyRequest \<Rightarrow> float64" where
  "apply_limit req =
     (if f_eq (rq_MaxAbsTrackingErrorW req) (Fin 0) then Fin 100 else rq_MaxAbsTrackingErrorW req)"

definition DecideApply :: "Preview \<Rightarrow> ApplyRequest \<Rightarrow> ApplyDecision" where
  "DecideApply preview req =
     (let decision = \<lparr>dc_CanApply = False, dc_Reason = [], dc_Preview = preview\<rparr> in
      if \<not> rq_Confirm req then decision\<lparr>dc_Reason := ''confirm must be true''\<rparr>
      else if pv_CandidateCommand preview = None \<or> pv_CandidateDeviceID preview = [] then
        decision\<lparr>dc_Reason := ''no candidate command''\<rparr>
      else
        let maxErr = apply_limit req in
        if f_lt maxErr (math_Abs (pv_TrackingErrorW preview)) then
          decision\<lparr>dc_Reason := ''tracking error '' @ fmt_2f (pv_TrackingErrorW preview) @
            ''W exceeds limit '' @ fmt_2f maxErr @ ''W''\<rparr>
        else decision\<lparr>dc_CanApply := True, dc_Reason := ''confirmed and within tracking error limit''\<rparr>)"

section \<open>Lemmas\<close>

lemma firstDevice_find: "firstDevice ds siteID typ = find (\<lambda>d. d_SiteID d = siteID \<and> d_Type d = typ) ds"
  by (induction ds) auto

lemma firstDevice_Some:
  "firstDevice ds siteID typ = Some d \<Longrightarrow> d \<in> set ds \<and> d_SiteID d = siteID \<and> d_Type d = typ"
  by (auto simp: firstDevice_find find_Some_iff)

lemma firstDevice_None:
  "firstDevice ds siteID typ = None \<longleftrightarrow> (\<forall>d \<in> set ds. d_SiteID d \<noteq> siteID \<or> d_Type d \<noteq> typ)"
  by (auto simp: firstDevice_find find_None_iff)

lemma batteryCommandMode_Nil: "batteryCommandMode m = [] \<longleftrightarrow> m \<noteq> ''charge'' \<and> m \<noteq> ''discharge'' \<and> m \<noteq> ''idle''"
  by (simp add: batteryCommandMode_def)

text \<open>When a preview has a candidate, and what it is.\<close>

definition candidate_slot :: "Plan \<Rightarrow> time \<Rightarrow> Slot \<Rightarrow> bool" where
  "candidate_slot plan now sl \<longleftrightarrow>
     CurrentSlot plan now = Some sl \<and> sl_BatteryMode sl \<in> {''charge'', ''discharge''} \<and>
     \<not> f_eq (sl_TargetPowerW sl) (Fin 0)"

definition candidate_command :: "Device \<Rightarrow> time \<Rightarrow> Slot \<Rightarrow> Command" where
  "candidate_command battery now sl =
     \<lparr>c_CommandID = d_ID battery @ ''-preview-'' @ fmt_d (time_unix_nano now), c_Action = ''set_mode'',
      c_Params = Some [(''mode'', GStr (if sl_BatteryMode sl = ''charge'' then ''charging'' else ''discharging'')),
                       (''target_power_w'', GNum (sl_TargetPowerW sl))],
      c_IssuedAt = time_unix_sec now, c_Reason = ''day-ahead plan tracking preview: '' @ sl_Reason sl\<rparr>"

lemma BuildPreview_candidate:
  assumes "BuildPreview math_Sin z now summary ds cfg = Some pv"
  shows "pv_CandidateCommand pv = Some cmd \<longleftrightarrow>
    (\<exists>sl b. candidate_slot (pv_Plan pv) now sl \<and> firstDevice ds (s_SiteID summary) DeviceBattery = Some b \<and>
       pv_CandidateDeviceID pv = d_ID b \<and> cmd = candidate_command b now sl)"
proof -
  from assms obtain plan where plan: "BuildDayAheadPlan math_Sin z now summary cfg = Some plan"
    by (auto simp: BuildPreview_def split: option.splits)
  show ?thesis
  proof (cases "CurrentSlot plan now")
    case None
    with assms plan show ?thesis by (auto simp: BuildPreview_def candidate_slot_def)
  next
    case (Some sl)
    show ?thesis
    proof (cases "candidate_slot plan now sl \<and> firstDevice ds (s_SiteID summary) DeviceBattery \<noteq> None")
      case True
      with Some assms plan show ?thesis
        by (auto simp: BuildPreview_def candidate_slot_def candidate_command_def batteryCommandMode_def Let_def)
    next
      case False
      with Some assms plan show ?thesis
        by (cases "firstDevice ds (s_SiteID summary) DeviceBattery")
          (auto simp: BuildPreview_def candidate_slot_def batteryCommandMode_Nil Let_def split: if_splits)
    qed
  qed
qed

lemma BuildPreview_frame:
  assumes "BuildPreview math_Sin z now summary ds cfg = Some pv"
  shows "BuildDayAheadPlan math_Sin z now summary cfg = Some (pv_Plan pv)" "\<not> pv_SafeToApply pv"
    "CurrentSlot (pv_Plan pv) now = Some sl \<Longrightarrow>
       pv_Slot pv = sl \<and> pv_TrackingErrorW pv = dispatch_round2 (f_sub (s_NetPowerW summary) (sl_NetLoadW sl))"
  using assms by (auto simp: BuildPreview_def Let_def split: option.splits if_splits)

lemma DecideApply_iff:
  "dc_CanApply (DecideApply pv req) \<longleftrightarrow>
    rq_Confirm req \<and> pv_CandidateCommand pv \<noteq> None \<and> pv_CandidateDeviceID pv \<noteq> [] \<and>
    \<not> f_lt (apply_limit req) (math_Abs (pv_TrackingErrorW pv))"
  by (simp add: DecideApply_def Let_def)

lemma CurrentSlot_in: "CurrentSlot plan t = Some sl \<Longrightarrow> sl \<in> set (pl_Slots plan)"
proof -
  have "find_slot sls t = Some sl \<Longrightarrow> sl \<in> set sls" for sls
    by (induction sls) (auto split: if_splits)
  then show "CurrentSlot plan t = Some sl \<Longrightarrow> sl \<in> set (pl_Slots plan)" by (simp add: CurrentSlot_def)
qed

section \<open>An example plan\<close>

text \<open>A two-band tariff and a forecast load of 22.5 W at midnight: the battery charges at the low price.\<close>

definition plan_ex_cfg :: Config where
  "plan_ex_cfg = \<lparr>cfg_HorizonHours = 24, cfg_SlotMinutes = 15, cfg_BatteryCapacityWh = Fin 128,
     cfg_BatteryPowerLimitW = Fin 50, cfg_MinSOC = Fin (1/4), cfg_MaxSOC = Fin (3/4),
     cfg_Tariffs = [\<lparr>tb_Name = ''night'', tb_StartHour = 0, tb_EndHour = 12, tb_Price = Fin 1\<rparr>,
       \<lparr>tb_Name = ''day'', tb_StartHour = 12, tb_EndHour = 24, tb_Price = Fin 2\<rparr>],
     cfg_minSOCSet = True, cfg_maxSOCSet = True\<rparr>"

definition plan_ex_summary :: SiteSummary where
  "plan_ex_summary = zero_SiteSummary\<lparr>s_SiteID := ''s1''\<rparr>"

definition plan_ex_dev :: Device where
  "plan_ex_dev = zero_Device\<lparr>d_ID := ''b1'', d_SiteID := ''s1'', d_Type := DeviceBattery, d_CreatedAt := 5\<rparr>"

lemma plan_ex_norm: "normalizeConfig plan_ex_cfg = plan_ex_cfg"
  by (simp add: normalizeConfig_def plan_ex_cfg_def Let_def)

lemma plan_ex_ok: "ValidateConfig plan_ex_cfg = None" "finite_cfg plan_ex_cfg" "cfg_HorizonHours plan_ex_cfg \<le> max_horizon"
  by (simp_all add: ValidateConfig_def plan_ex_norm Let_def) (simp_all add: plan_ex_cfg_def finite_cfg_def go_mod_nonneg is_f64_def f64_eval)

lemma plan_ex_parts:
  "forecastPV (\<lambda>_. Fin 0) z t (Fin 20) = Fin 0" "forecastLoad (\<lambda>_. 0) 0 (Fin 30) = Fin (45/2)"
  "priceAt (\<lambda>_. 0) 0 (cfg_Tariffs plan_ex_cfg) = Fin 1" "lowPrice (cfg_Tariffs plan_ex_cfg) = Some (Fin 1)"
  "highPrice (cfg_Tariffs plan_ex_cfg) = Some (Fin 2)" "f_sub (Fin (45/2)) (Fin 0) = Fin (45/2)"
  "f_add (Fin (45/2)) (Fin 10) = Fin (65/2)"
  by (simp_all add: forecastPV_def forecastLoad_def time_Hour_def priceAt_def lowPrice_def highPrice_def plan_ex_cfg_def
     f64_ops f64_eval f_zero_def Let_def)

lemma plan_ex_decide: "decide plan_ex_cfg (Fin 1) (Fin 1) (Fin 2) (Fin 0) (Fin (45/2)) (Fin (1/2)) = (''charge'', Fin 50, ''low tariff'')"
  by (simp add: decide_def plan_ex_parts Let_def) (simp add: plan_ex_cfg_def)

lemma plan_ex_round: "round2 (Fin 50) = Fin 50" "round2 (Fin (45/2)) = Fin (45/2)"
  by (simp_all add: round2_def f64_ops f64_eval)

lemma plan_ex_cfg_sel: "cfg_SlotMinutes plan_ex_cfg = 15" "cfg_HorizonHours plan_ex_cfg = 24"
  by (simp_all add: plan_ex_cfg_def)

lemma plan_ex_slot:
  "\<exists>sl soc. slot_step (\<lambda>_. Fin 0) (\<lambda>_. 0) plan_ex_cfg 0 (Fin 20) (Fin 30) 0 (Fin (1/2)) = Some (sl, soc) \<and>
     sl_BatteryMode sl = ''charge'' \<and> sl_TargetPowerW sl = Fin 50 \<and> sl_NetLoadW sl = Fin (45/2) \<and>
    sl_StartAt sl = 0 \<and> sl_EndAt sl = 15 * Minute"
  by (simp add: slot_step_def time_Add_def plan_ex_parts plan_ex_decide plan_ex_cfg_sel plan_ex_round wrap64_def Let_def)

lemma plan_ex_start: "start_soc plan_ex_cfg plan_ex_summary = Fin (1/2)" "math_Max (s_PVPowerW plan_ex_summary) (Fin 20) = Fin 20"
   "math_Max (s_LoadPowerW plan_ex_summary) (Fin 30) = Fin 30" "time_Truncate 0 slotDuration = 0"
   "slot_count plan_ex_cfg = 96"
  by (simp_all add: start_soc_def plan_ex_cfg_def plan_ex_summary_def zero_SiteSummary_def clamp_def math_Max_def time_Truncate_def slotDuration_def
    slot_count_def go_div_def wrap64_def)

lemma plan_ex_preview: "\<exists>pv. BuildPreview (\<lambda>_. Fin 0) (\<lambda>_. 0) 0 plan_ex_summary [plan_ex_dev] plan_ex_cfg = Some pv \<and> 
    pv_CandidateCommand pv \<noteq> None \<and> pv_CandidateDeviceID pv = ''b1'' \<and> pv_TrackingErrorW pv = Fin (- 45/2)"
proof -
  let ?f = "plan_slot (\<lambda>_. Fin 0) (\<lambda>_. 0) 0 plan_ex_summary plan_ex_cfg"
  obtain sl soc where sl: "slot_step (\<lambda>_. Fin 0) (\<lambda>_. 0) plan_ex_cfg 0 (Fin 20) (Fin 30) 0 (Fin (1/2)) = Some (sl, soc)"
     "sl_BatteryMode sl = ''charge''" "sl_TargetPowerW sl = Fin 50" "sl_NetLoadW sl = Fin (45/2)"
    "sl_StartAt sl = 0" "sl_EndAt sl = 15 * Minute" using plan_ex_slot by blast
  have f0: "?f 0 = sl" by (simp add: plan_slot_def plan_soc_def slot_of_def plan_ex_start sl)
  have cons: "[0..<nat 96] = 0 # [1..<nat 96]" by (subst upt_conv_Cons) simp_all
  have z: "dispatch_round2 (f_sub (Fin 0) (Fin (45/2))) = Fin (- 45/2)"
  proof -
    have "\<lfloor>4501 / 2 :: rat\<rfloor> = 2250" by (simp add: floor_eq_iff)
    then show ?thesis
      by (simp add: dispatch_round2_def dispatch_round2_pos_def f64_ops f64_eval f_zero_def Let_def)
  qed
  have cur: "find_slot (map ?f [0..<96]) 0 = Some sl"
    using cons by (simp add: f0 sl)
  have sel: "s_SiteID plan_ex_summary = ''s1''" "s_NetPowerW plan_ex_summary = Fin 0" "d_ID plan_ex_dev = ''b1''"
      "d_SiteID plan_ex_dev = ''s1''" "d_Type plan_ex_dev = DeviceBattery"
    by (simp_all add: plan_ex_summary_def plan_ex_dev_def zero_Device_def zero_SiteSummary_def)
  show ?thesis
    using valid_plan(3) [OF plan_ex_ok, of "\<lambda>_. Fin 0" "\<lambda>_. 0" 0 plan_ex_summary]
    by (simp add: BuildPreview_def plan_ex_norm plan_ex_start CurrentSlot_def cur sel sl z batteryCommandMode_def Let_def)
qed

text \<open>What an applied decision carries.\<close>

lemma CurrentSlot_covers: "CurrentSlot plan t = Some sl \<Longrightarrow> sl_StartAt sl \<le> t \<and> t < sl_EndAt sl"
proof -
  have "find_slot sls t = Some sl \<Longrightarrow> sl_StartAt sl \<le> t \<and> t < sl_EndAt sl" for sls
    by (induction sls) (auto split: if_splits)
  then show "CurrentSlot plan t = Some sl \<Longrightarrow> sl_StartAt sl \<le> t \<and> t < sl_EndAt sl" by (simp add: CurrentSlot_def)
qed

text \<open>The command of an accepted request comes from the plan's slot for now.\<close>

lemma DecideApply_candidate:
  assumes "ValidateConfig cfg = None" "finite_cfg cfg" "cfg_HorizonHours cfg \<le> max_horizon"
    and "BuildPreview math_Sin z now summary ds cfg = Some pv" "dc_CanApply (DecideApply pv req)"
    and "pv_CandidateCommand pv = Some cmd"
  shows "\<exists>sl b target. candidate_slot (pv_Plan pv) now sl \<and> cmd = candidate_command b now sl \<and>
    firstDevice ds (s_SiteID summary) DeviceBattery = Some b \<and> pv_CandidateDeviceID pv = d_ID b \<and>
    BuildDayAheadPlan math_Sin z now summary cfg = Some (pv_Plan pv) \<and> rq_Confirm req \<and>
    \<not> f_lt (apply_limit req) (math_Abs (dispatch_round2 (f_sub (s_NetPowerW summary) (sl_NetLoadW sl)))) \<and>
    sl_TargetPowerW sl = round2 target \<and> f_le (Fin 0) target \<and>
    f_le target (cfg_BatteryPowerLimitW (normalizeConfig cfg))"
proof -
  note d = assms(5) [unfolded DecideApply_iff]
  note frame = BuildPreview_frame [OF assms(4)]
  from assms(6) [unfolded BuildPreview_candidate [OF assms(4)]] obtain sl b where
    sl: "candidate_slot (pv_Plan pv) now sl" and b: "firstDevice ds (s_SiteID summary) DeviceBattery = Some b"
    and id: "pv_CandidateDeviceID pv = d_ID b" and c: "cmd = candidate_command b now sl" by blast
  note n = valid_plan [OF assms(1-3)]
  from sl have "sl \<in> set (pl_Slots (pv_Plan pv))" by (auto simp: candidate_slot_def intro: CurrentSlot_in)
  with n(3) [of math_Sin z now summary] frame(1) obtain k where
    "sl = plan_slot math_Sin z now summary (normalizeConfig cfg) k" by auto
  then obtain target where t: "sl_TargetPowerW sl = round2 target" "f_le (Fin 0) target"
    "f_le target (cfg_BatteryPowerLimitW (normalizeConfig cfg))"
    using plan_decision_bounds(1) [OF n(1)] plan_slot_sel(2) [OF n(1)] by (metis prod_cases3)
  have "pv_TrackingErrorW pv = dispatch_round2 (f_sub (s_NetPowerW summary) (sl_NetLoadW sl))"
    using sl frame(3) by (simp add: candidate_slot_def)
  then show ?thesis using d sl b id c t frame(1) by (intro exI conjI) auto
qed

lemma DecideApply_bounds:
  assumes "ValidateConfig cfg = None" "finite_cfg cfg" "cfg_HorizonHours cfg \<le> max_horizon"
    and "BuildPreview math_Sin z now summary ds cfg = Some pv" "dc_CanApply (DecideApply pv req)"
  shows "rq_Confirm req \<and>
    \<not> f_lt (if f_eq (rq_MaxAbsTrackingErrorW req) (Fin 0) then Fin 100 else rq_MaxAbsTrackingErrorW req)
        (math_Abs (pv_TrackingErrorW pv)) \<and>
    (\<exists>b \<in> set ds. \<exists>cmd mode target. pv_CandidateCommand pv = Some cmd \<and> pv_CandidateDeviceID pv = d_ID b \<and>
       d_ID b \<noteq> [] \<and> d_SiteID b = s_SiteID summary \<and> d_Type b = DeviceBattery \<and> c_Action cmd = ''set_mode'' \<and>
       c_Params cmd = Some [(''mode'', GStr mode), (''target_power_w'', GNum (round2 target))] \<and>
       mode \<in> {''charging'', ''discharging''} \<and> f_le (Fin 0) target \<and>
       f_le target (cfg_BatteryPowerLimitW (normalizeConfig cfg)))"
proof -
  note d = assms(5) [unfolded DecideApply_iff]
  from d obtain cmd where cmd: "pv_CandidateCommand pv = Some cmd" by blast
  from DecideApply_candidate [OF assms cmd] obtain sl b target where
    c: "cmd = candidate_command b now sl" and b: "firstDevice ds (s_SiteID summary) DeviceBattery = Some b"
    and id: "pv_CandidateDeviceID pv = d_ID b" and t: "sl_TargetPowerW sl = round2 target" "f_le (Fin 0) target"
      "f_le target (cfg_BatteryPowerLimitW (normalizeConfig cfg))" by blast
  show ?thesis
    using d id cmd firstDevice_Some [OF b] t
    by (auto simp: apply_limit_def c candidate_command_def)
qed

section \<open>Properties\<close>

text \<open>
  A preview offers a command exactly when the plan's slot for now charges or discharges with a
  target other than zero and the list has a battery of the site. The command is then for the
  first such battery, sets the mode the slot asks for with the slot's target power, and is never
  marked safe to apply by itself; the tracking error compares the net power with the slot's.
\<close>
theorem preview_candidate:
  assumes "BuildPreview math_Sin z now summary ds cfg = Some pv"
  shows "BuildDayAheadPlan math_Sin z now summary cfg = Some (pv_Plan pv) \<and> \<not> pv_SafeToApply pv \<and>
    (\<forall>cmd. pv_CandidateCommand pv = Some cmd \<longleftrightarrow>
      (\<exists>sl b. CurrentSlot (pv_Plan pv) now = Some sl \<and> sl_BatteryMode sl \<in> {''charge'', ''discharge''} \<and>
         \<not> f_eq (sl_TargetPowerW sl) (Fin 0) \<and>
         find (\<lambda>d. d_SiteID d = s_SiteID summary \<and> d_Type d = DeviceBattery) ds = Some b \<and>
         pv_CandidateDeviceID pv = d_ID b \<and>
         cmd = \<lparr>c_CommandID = d_ID b @ ''-preview-'' @ fmt_d (time_unix_nano now), c_Action = ''set_mode'',
                c_Params = Some [(''mode'', GStr (if sl_BatteryMode sl = ''charge'' then ''charging'' else ''discharging'')),
                                 (''target_power_w'', GNum (sl_TargetPowerW sl))],
                c_IssuedAt = time_unix_sec now,
                c_Reason = ''day-ahead plan tracking preview: '' @ sl_Reason sl\<rparr>)) \<and>
    (\<forall>sl. CurrentSlot (pv_Plan pv) now = Some sl \<longrightarrow>
      pv_TrackingErrorW pv = dispatch_round2 (f_sub (s_NetPowerW summary) (sl_NetLoadW sl)))"
  using BuildPreview_candidate [OF assms] BuildPreview_frame [OF assms]
  by (simp add: candidate_slot_def candidate_command_def firstDevice_find conj_assoc)

theorem preview_candidate_witness:
  "\<exists>pv. BuildPreview (\<lambda>x. x) (\<lambda>_. 0) (time_Unix 1000) zero_SiteSummary [] zero_Config = Some pv \<and>
     pv_CandidateCommand pv = None"
proof -
  obtain pv where pv: "BuildPreview (\<lambda>x. x) (\<lambda>_. 0) (time_Unix 1000) zero_SiteSummary [] zero_Config = Some pv"
    by (simp add: BuildPreview_def zero_plan)
  then show ?thesis using preview_candidate [OF pv] by (cases "pv_CandidateCommand pv") auto
qed

text \<open>
  C32. What an apply request can let through: with a valid configuration, a command is applied only
  when the request confirms it, the tracking error is within the request's limit (100 W when it
  names none), and the command charges or discharges a battery of the site by a power that is
  not negative and, before rounding to two digits, within the battery's configured limit.
\<close>
theorem applied_command_bounds:
  assumes "ValidateConfig cfg = None" "finite_cfg cfg" "cfg_HorizonHours cfg \<le> max_horizon"
    and "BuildPreview math_Sin z now summary ds cfg = Some pv" "dc_CanApply (DecideApply pv req)"
  shows "rq_Confirm req \<and>
    \<not> f_lt (if f_eq (rq_MaxAbsTrackingErrorW req) (Fin 0) then Fin 100 else rq_MaxAbsTrackingErrorW req)
        (math_Abs (pv_TrackingErrorW pv)) \<and>
    (\<exists>b \<in> set ds. \<exists>cmd mode target. pv_CandidateCommand pv = Some cmd \<and> pv_CandidateDeviceID pv = d_ID b \<and>
       d_ID b \<noteq> [] \<and> d_SiteID b = s_SiteID summary \<and> d_Type b = DeviceBattery \<and> c_Action cmd = ''set_mode'' \<and>
       c_Params cmd = Some [(''mode'', GStr mode), (''target_power_w'', GNum (round2 target))] \<and>
       mode \<in> {''charging'', ''discharging''} \<and> f_le (Fin 0) target \<and>
       f_le target (cfg_BatteryPowerLimitW (normalizeConfig cfg)))"
  using assms by (rule DecideApply_bounds)

theorem applied_command_bounds_witness:
  "\<exists>pv. BuildPreview (\<lambda>_. Fin 0) (\<lambda>_. 0) 0 plan_ex_summary [plan_ex_dev] plan_ex_cfg = Some pv \<and>
     dc_CanApply (DecideApply pv \<lparr>rq_Confirm = True, rq_MaxAbsTrackingErrorW = Fin 0, rq_Config = plan_ex_cfg\<rparr>) \<and>
     d_Type plan_ex_dev = DeviceBattery"
proof -
  obtain pv where pv: "BuildPreview (\<lambda>_. Fin 0) (\<lambda>_. 0) 0 plan_ex_summary [plan_ex_dev] plan_ex_cfg = Some pv"
    "pv_CandidateCommand pv \<noteq> None" "pv_CandidateDeviceID pv = ''b1''" "pv_TrackingErrorW pv = Fin (- 45/2)"
    using plan_ex_preview by blast
  then have can: "dc_CanApply (DecideApply pv \<lparr>rq_Confirm = True, rq_MaxAbsTrackingErrorW = Fin 0, rq_Config = plan_ex_cfg\<rparr>)"
    by (simp add: DecideApply_iff apply_limit_def math_Abs_def)
  from applied_command_bounds [OF plan_ex_ok pv(1) can] pv(1) can show ?thesis by auto
qed

end
