(* ===== verification/Edge_Cache.thy ===== *)
theory Edge_Cache
  imports Go_Time
begin

text \<open>
  internal/edge/cache.go: the gateway's store-and-forward cache. Its table lives in SQLite; a
  statement of the source is the operation its text describes on a list of rows. \<open>AUTOINCREMENT\<close>
  gives every new row an id above all ids ever given, kept in \<open>seq\<close>. Whether a statement
  succeeds is an argument: a failed one changes nothing and returns the error.

  Contents: the operations; the invariant of the table; the interface \<open>fifo_cache\<close> (what a
  forwarder relies on), with its interpretation; properties.
\<close>

section \<open>State and operations\<close>

record CachedMessage =
  m_ID :: int
  m_Topic :: string
  m_Payload :: string
  m_CreatedAt :: time
  m_SentAt :: "time option"

record Cache =
  rows :: "CachedMessage list"
  seq :: int

record CacheStats =
  cs_Pending :: int
  cs_Total :: int
  cs_OldestPendingAt :: "time option"

text \<open>
  \<open>OpenCache\<close> runs \<open>migrate\<close>, which creates the table when the file has none: \<open>None\<close> is a file
  without the table. A failed statement closes the database.
\<close>

definition cache_migrate :: "bool \<Rightarrow> Cache option \<Rightarrow> Cache option" where
  "cache_migrate ok file =
     (if \<not> ok then None
      else Some (case file of None \<Rightarrow> \<lparr>rows = [], seq = 0\<rparr> | Some c \<Rightarrow> c))"

definition OpenCache :: "bool \<Rightarrow> bool \<Rightarrow> Cache option \<Rightarrow> Cache option" where
  "OpenCache open_ok migrate_ok file = (if \<not> open_ok then None else cache_migrate migrate_ok file)"

definition cache_Put :: "bool \<Rightarrow> time \<Rightarrow> string \<Rightarrow> string \<Rightarrow> Cache \<Rightarrow> Cache \<times> bool" where
  "cache_Put ok now topic payload c =
     (if \<not> ok then (c, False)
      else (c\<lparr>rows := rows c @ [\<lparr>m_ID = seq c + 1, m_Topic = topic, m_Payload = payload,
               m_CreatedAt = now, m_SentAt = None\<rparr>], seq := seq c + 1\<rparr>, True))"

definition cache_Pending :: "bool \<Rightarrow> int \<Rightarrow> Cache \<Rightarrow> CachedMessage list option" where
  "cache_Pending ok limit c =
     (let limit' = (if limit \<le> 0 \<or> limit > 1000 then 100 else limit) in
      if \<not> ok then None
      else Some (take (nat limit') (sort_key m_ID (filter (\<lambda>m. m_SentAt m = None) (rows c)))))"

definition cache_MarkSent :: "bool \<Rightarrow> time \<Rightarrow> int \<Rightarrow> Cache \<Rightarrow> Cache \<times> bool" where
  "cache_MarkSent ok now i c =
     (if \<not> ok then (c, False)
      else (c\<lparr>rows := map (\<lambda>m. if m_ID m = i then m\<lparr>m_SentAt := Some now\<rparr> else m) (rows c)\<rparr>, True))"

definition sent_before :: "time \<Rightarrow> CachedMessage \<Rightarrow> bool" where
  "sent_before cutoff m = (case m_SentAt m of None \<Rightarrow> False | Some t \<Rightarrow> t < cutoff)"

definition cache_DeleteSentBefore :: "bool \<Rightarrow> time \<Rightarrow> Cache \<Rightarrow> Cache \<times> int option" where
  "cache_DeleteSentBefore ok cutoff c =
     (if \<not> ok then (c, None)
      else (c\<lparr>rows := filter (\<lambda>m. \<not> sent_before cutoff m) (rows c)\<rparr>,
            Some (int (length (filter (sent_before cutoff) (rows c))))))"

definition cache_Stats :: "bool \<Rightarrow> bool \<Rightarrow> bool \<Rightarrow> Cache \<Rightarrow> CacheStats option" where
  "cache_Stats ok1 ok2 ok3 c =
     (if \<not> ok1 then None
      else if \<not> ok2 then None
      else if \<not> ok3 then None
      else Some
        \<lparr>cs_Pending = int (length (filter (\<lambda>m. m_SentAt m = None) (rows c))),
         cs_Total = int (length (rows c)),
         cs_OldestPendingAt =
           (case sort_key m_ID (filter (\<lambda>m. m_SentAt m = None) (rows c)) of
              [] \<Rightarrow> None
            | m # _ \<Rightarrow> Some (m_CreatedAt m))\<rparr>)"

section \<open>Invariant\<close>

definition cache_inv :: "Cache \<Rightarrow> bool" where
  "cache_inv c \<longleftrightarrow> sorted_wrt (<) (map m_ID (rows c)) \<and> (\<forall>m \<in> set (rows c). 1 \<le> m_ID m \<and> m_ID m \<le> seq c) \<and> 0 \<le> seq c"

definition queue :: "Cache \<Rightarrow> CachedMessage list" where
  "queue c = filter (\<lambda>m. m_SentAt m = None) (rows c)"

lemma cache_inv_empty: "cache_inv \<lparr>rows = [], seq = 0\<rparr>"
  by (simp add: cache_inv_def)

lemma cache_inv_Put: "cache_inv c \<Longrightarrow> cache_inv (fst (cache_Put ok now topic payload c))"
  by (fastforce simp: cache_inv_def cache_Put_def sorted_wrt_append)

lemma map_mark: "map m_ID (map (\<lambda>m. if m_ID m = i then m\<lparr>m_SentAt := Some now\<rparr> else m) ms) = map m_ID ms"
  by (induction ms) auto

lemma cache_inv_MarkSent: "cache_inv c \<Longrightarrow> cache_inv (fst (cache_MarkSent ok now i c))"
  by (auto simp: cache_inv_def cache_MarkSent_def map_mark simp del: map_map)

lemma sorted_wrt_map_filter: "sorted_wrt R (map f xs) \<Longrightarrow> sorted_wrt R (map f (filter P xs))"
  by (induction xs) auto

lemma cache_inv_Delete: "cache_inv c \<Longrightarrow> cache_inv (fst (cache_DeleteSentBefore ok cutoff c))"
  by (auto simp: cache_inv_def cache_DeleteSentBefore_def sorted_wrt_map_filter)

lemma queue_sorted: "cache_inv c \<Longrightarrow> sorted_wrt (<) (map m_ID (queue c))"
  by (simp add: cache_inv_def queue_def sorted_wrt_map_filter)

lemma sort_queue: "cache_inv c \<Longrightarrow> sort_key m_ID (filter (\<lambda>m. m_SentAt m = None) (rows c)) = queue c"
  using queue_sorted [of c] by (simp add: queue_def sort_key_id_if_sorted strict_sorted_imp_sorted)

lemma Pending_queue:
  "cache_inv c \<Longrightarrow> cache_Pending True limit c = Some (take (if limit \<le> 0 \<or> limit > 1000 then 100 else nat limit) (queue c))"
  by (simp add: cache_Pending_def Let_def sort_queue)

section \<open>Interface: a first-in first-out cache\<close>

text \<open>
  What the forwarder relies on. \<open>pending\<close> is the abstract queue; putting appends a message with a
  new id, marking removes the one with the id, cleaning up leaves the queue alone, and the ids in
  the queue increase.
\<close>

locale fifo_cache =
  fixes put :: "time \<Rightarrow> string \<Rightarrow> string \<Rightarrow> 'c \<Rightarrow> 'c"
    and mark :: "time \<Rightarrow> int \<Rightarrow> 'c \<Rightarrow> 'c"
    and cleanup :: "time \<Rightarrow> 'c \<Rightarrow> 'c"
    and pending :: "'c \<Rightarrow> CachedMessage list"
    and last_id :: "'c \<Rightarrow> int"
    and ok :: "'c \<Rightarrow> bool"
  assumes put_ok: "ok c \<Longrightarrow> ok (put now t p c)"
    and mark_ok: "ok c \<Longrightarrow> ok (mark now i c)"
    and cleanup_ok: "ok c \<Longrightarrow> ok (cleanup cutoff c)"
    and put_pending: "ok c \<Longrightarrow> pending (put now t p c) = pending c @
      [\<lparr>m_ID = last_id c + 1, m_Topic = t, m_Payload = p, m_CreatedAt = now, m_SentAt = None\<rparr>]"
    and mark_pending: "ok c \<Longrightarrow> pending (mark now i c) = filter (\<lambda>m. m_ID m \<noteq> i) (pending c)"
    and cleanup_pending: "ok c \<Longrightarrow> pending (cleanup cutoff c) = pending c"
    and put_last: "last_id (put now t p c) = last_id c + 1"
    and mark_last: "last_id (mark now i c) = last_id c"
    and cleanup_last: "last_id (cleanup cutoff c) = last_id c"
    and pending_ids: "ok c \<Longrightarrow> sorted_wrt (<) (map m_ID (pending c)) \<and> (\<forall>m \<in> set (pending c). 1 \<le> m_ID m \<and> m_ID m \<le> last_id c)"
begin

text \<open>Marking the head takes it off the queue.\<close>

lemma mark_head:
  assumes "ok c" "pending c = m # ms"
  shows "pending (mark now (m_ID m) c) = ms"
proof -
  have "\<forall>x \<in> set ms. m_ID m < m_ID x" using pending_ids [OF assms(1)] assms(2) by auto
  then have "filter (\<lambda>x. m_ID x \<noteq> m_ID m) ms = ms" by (auto simp: filter_id_conv)
  with assms show ?thesis by (simp add: mark_pending)
qed

text \<open>Messages put in order come out in order, after those that waited.\<close>

lemma puts_pending:
  assumes "ok c"
  shows "map (\<lambda>m. (m_Topic m, m_Payload m)) (pending (foldl (\<lambda>c (now, t, p). put now t p c) c xs)) =
    map (\<lambda>m. (m_Topic m, m_Payload m)) (pending c) @ map (\<lambda>(now, t, p). (t, p)) xs"
  using assms
proof (induction xs arbitrary: c)
  case (Cons x xs)
  then show ?case by (cases x) (simp add: put_ok put_pending)
qed simp

end

lemma filter_mark:
  "filter (\<lambda>m. m_SentAt m = None) (map (\<lambda>m. if m_ID m = i then m\<lparr>m_SentAt := Some now\<rparr> else m) ms) =
    filter (\<lambda>m. m_ID m \<noteq> i) (filter (\<lambda>m. m_SentAt m = None) ms)"
  by (induction ms) auto

lemma cache_updates:
  "queue (fst (cache_Put True now t p c)) = queue c @
    [\<lparr>m_ID = seq c + 1, m_Topic = t, m_Payload = p, m_CreatedAt = now, m_SentAt = None\<rparr>]"
  "seq (fst (cache_Put True now t p c)) = seq c + 1"
  "seq (fst (cache_MarkSent True now i c)) = seq c"
  "seq (fst (cache_DeleteSentBefore True cutoff c)) = seq c"
  by (simp_all add: queue_def cache_Put_def cache_MarkSent_def cache_DeleteSentBefore_def)

interpretation sqlite: fifo_cache
    "\<lambda>now t p c. fst (cache_Put True now t p c)" "\<lambda>now i c. fst (cache_MarkSent True now i c)"
    "\<lambda>cutoff c. fst (cache_DeleteSentBefore True cutoff c)" queue seq cache_inv
proof unfold_locales
  fix c now i
  show "queue (fst (cache_MarkSent True now i c)) = filter (\<lambda>m. m_ID m \<noteq> i) (queue c)"
    by (simp add: queue_def cache_MarkSent_def filter_mark)
next
  fix c cutoff
  show "queue (fst (cache_DeleteSentBefore True cutoff c)) = queue c"
    by (auto simp: queue_def cache_DeleteSentBefore_def sent_before_def intro: filter_cong split: option.split)
next
  fix c :: Cache assume "cache_inv c"
  with queue_sorted [OF this]
  show "sorted_wrt (<) (map m_ID (queue c)) \<and> (\<forall>m \<in> set (queue c). 1 \<le> m_ID m \<and> m_ID m \<le> seq c)"
    by (simp add: cache_inv_def queue_def)
qed (simp_all add: cache_inv_Put cache_inv_MarkSent cache_inv_Delete cache_updates)

lemma puts_inv: "cache_inv c \<Longrightarrow> cache_inv (foldl (\<lambda>c (now, t, p). fst (cache_Put True now t p c)) c xs)"
  by (induction xs arbitrary: c) (auto simp: cache_inv_Put)

section \<open>Properties\<close>

text \<open>
  The cache is a first-in first-out queue: after any messages have been put, \<open>Pending\<close> returns
  the waiting ones in the order of their arrival, the oldest first, up to the limit (100 when the
  limit asked for is not between 1 and 1000).
\<close>
theorem cache_fifo:
  assumes "cache_inv c"
  shows "\<exists>ms. cache_Pending True limit (foldl (\<lambda>c (now, t, p). fst (cache_Put True now t p c)) c xs) = Some ms \<and>
    map (\<lambda>m. (m_Topic m, m_Payload m)) ms =
      take (if 1 \<le> limit \<and> limit \<le> 1000 then nat limit else 100)
        (map (\<lambda>m. (m_Topic m, m_Payload m)) (filter (\<lambda>m. m_SentAt m = None) (rows c)) @ map (\<lambda>(now, t, p). (t, p)) xs)"
proof -
  let ?c = "foldl (\<lambda>c (now, t, p). fst (cache_Put True now t p c)) c xs"
  let ?L = "if 1 \<le> limit \<and> limit \<le> 1000 then nat limit else 100"
  have "cache_Pending True limit ?c = Some (take ?L (queue ?c))"
    using Pending_queue [OF puts_inv [OF assms], of limit xs] by auto
  moreover have "map (\<lambda>m. (m_Topic m, m_Payload m)) (take ?L (queue ?c)) =
      take ?L (map (\<lambda>m. (m_Topic m, m_Payload m)) (queue c) @ map (\<lambda>(now, t, p). (t, p)) xs)"
    by (simp only: take_map [symmetric] sqlite.puts_pending [OF assms])
  ultimately show ?thesis unfolding queue_def by blast
qed

theorem cache_fifo_witness:
  "\<exists>ms. cache_Pending True 5 (fst (cache_Put True 9 ''t2'' ''p2'' (fst (cache_Put True 8 ''t1'' ''p1'' \<lparr>rows = [], seq = 0\<rparr>)))) = Some ms \<and>
     map (\<lambda>m. (m_Topic m, m_Payload m)) ms = [(''t1'', ''p1''), (''t2'', ''p2'')]"
  using cache_fifo [OF cache_inv_empty, of 5 "[(8, ''t1'', ''p1''), (9, ''t2'', ''p2'')]"] by simp

text \<open>
  Cleaning up removes exactly the messages that were sent before the cutoff: it returns their
  number, keeps every other row with its content and order, and so never loses a message that has
  not been forwarded, whatever the cutoff; \<open>Stats\<close> then shows the same pending messages.
\<close>
theorem cleanup_keeps_pending:
  assumes "cache_DeleteSentBefore True cutoff c = (c', r)"
  shows "rows c' = filter (\<lambda>m. case m_SentAt m of None \<Rightarrow> True | Some t \<Rightarrow> cutoff \<le> t) (rows c) \<and> seq c' = seq c \<and>
    r = Some (int (length (rows c)) - int (length (rows c'))) \<and>
    map_option (\<lambda>s. (cs_Pending s, cs_OldestPendingAt s)) (cache_Stats True True True c') =
      map_option (\<lambda>s. (cs_Pending s, cs_OldestPendingAt s)) (cache_Stats True True True c)"
proof -
  have c': "c' = c\<lparr>rows := filter (\<lambda>m. \<not> sent_before cutoff m) (rows c)\<rparr>"
    and r: "r = Some (int (length (filter (sent_before cutoff) (rows c))))"
    using assms by (simp_all add: cache_DeleteSentBefore_def)
  have "filter (\<lambda>m. m_SentAt m = None) (filter (\<lambda>m. \<not> sent_before cutoff m) (rows c)) =
      filter (\<lambda>m. m_SentAt m = None) (rows c)"
    by (auto simp: sent_before_def intro: filter_cong)
  moreover have "(\<lambda>m. \<not> sent_before cutoff m) = (\<lambda>m. case m_SentAt m of None \<Rightarrow> True | Some t \<Rightarrow> cutoff \<le> t)"
    by (auto simp: sent_before_def split: option.split)
  moreover have "length (filter (sent_before cutoff) (rows c)) + length (filter (\<lambda>m. \<not> sent_before cutoff m) (rows c)) =
      length (rows c)" by (rule sum_length_filter_compl)
  ultimately show ?thesis by (simp add: c' r cache_Stats_def)
qed

theorem cleanup_keeps_pending_witness:
  "snd (cache_DeleteSentBefore True 10 \<lparr>rows =
      [\<lparr>m_ID = 1, m_Topic = ''a'', m_Payload = ''x'', m_CreatedAt = 1, m_SentAt = Some 5\<rparr>,
       \<lparr>m_ID = 2, m_Topic = ''b'', m_Payload = ''y'', m_CreatedAt = 2, m_SentAt = None\<rparr>], seq = 2\<rparr>) = Some 1"
  using cleanup_keeps_pending [of 10 "\<lparr>rows =
      [\<lparr>m_ID = 1, m_Topic = ''a'', m_Payload = ''x'', m_CreatedAt = 1, m_SentAt = Some 5\<rparr>,
       \<lparr>m_ID = 2, m_Topic = ''b'', m_Payload = ''y'', m_CreatedAt = 2, m_SentAt = None\<rparr>], seq = 2\<rparr>"]
  by (simp add: cache_DeleteSentBefore_def sent_before_def)

end
