(* ===== verification/Edge_Gateway.thy ===== *)
theory Edge_Gateway
  imports Edge_Cache Topic "HOL-Library.Word"
begin

text \<open>
  cmd/edge-gateway/main.go: the edge gateway captures messages of the local broker into the cache,
  forwards them to an upstream broker, cleans up old ones, and serves a small HTTP interface.
  The MQTT clients are arguments: whether they are connected and whether the broker accepts a
  publish. The capture handler, the flush loop, the cleanup loop and restarts of the process
  interleave; \<open>gw_step\<close> has one step for each atomic action of theirs.

  Contents: the pure functions; the HTTP interface; the loops; the step relation with its
  invariant; properties, among them at-least-once delivery in order.
\<close>

section \<open>Pure functions\<close>

definition parseKindSet :: "string \<Rightarrow> (string \<rightharpoonup> bool)" where
  "parseKindSet raw =
     foldl (\<lambda>out part. let kind = strings_TrimSpace part in if kind = [] then out else out(kind \<mapsto> True))
       Map.empty (strings_Split (CHR '','') raw)"

definition edgeSubscribeTopics :: "string \<Rightarrow> string list" where
  "edgeSubscribeTopics siteID = [topic_Wildcard siteID, topic_CommandAckWildcard siteID]"

definition upstreamTopic :: "string \<Rightarrow> string \<Rightarrow> string" where
  "upstreamTopic original pfx =
     (let pfx' = strings_Trim pfx (CHR ''/'') in
      if pfx' = [] then original else pfx' @ ''/'' @ strings_TrimLeft original (CHR ''/''))"

definition bearerToken :: "string \<Rightarrow> string" where
  "bearerToken header =
     (if \<not> strings_HasPrefix header ''Bearer '' then []
      else strings_TrimSpace (strings_TrimPrefix header ''Bearer ''))"

text \<open>The two headers of the request, empty when missing. \<open>ConstantTimeCompare\<close> is equality.\<close>

definition edgeAuthorized :: "string \<Rightarrow> string \<Rightarrow> string \<Rightarrow> bool" where
  "edgeAuthorized edgeHeader authHeader token =
     (let token' = strings_TrimSpace token in
      if token' = [] then False
      else
        let got0 = strings_TrimSpace edgeHeader;
            got = (if got0 = [] then bearerToken authHeader else got0) in
        got = token')"

definition boolFloat :: "bool \<Rightarrow> float64" where
  "boolFloat b = (if b then Fin 1 else Fin 0)"

definition oldestPendingAgeSeconds :: "time \<Rightarrow> time option \<Rightarrow> float64" where
  "oldestPendingAgeSeconds now at_time =
     (case at_time of
        None \<Rightarrow> Fin 0
      | Some t \<Rightarrow> let age = time_Sub now t in if age < 0 then Fin 0 else dur_Seconds age)"

section \<open>The counter of local commands\<close>

record edgeCounter =
  ec_counts :: "string \<rightharpoonup> 64 word"
  ec_order :: "string list"

definition newEdgeCounter :: "string list \<Rightarrow> edgeCounter" where
  "newEdgeCounter labels = \<lparr>ec_counts = foldl (\<lambda>m l. m(l \<mapsto> 0)) Map.empty labels, ec_order = labels\<rparr>"

definition counter_get :: "edgeCounter \<Rightarrow> string \<Rightarrow> 64 word" where
  "counter_get c label = (case ec_counts c label of None \<Rightarrow> 0 | Some v \<Rightarrow> v)"

definition counter_Inc :: "string \<Rightarrow> edgeCounter \<Rightarrow> edgeCounter" where
  "counter_Inc label c =
     (let c1 = (if ec_counts c label = None then c\<lparr>ec_order := ec_order c @ [label]\<rparr> else c) in
      c1\<lparr>ec_counts := (ec_counts c1)(label \<mapsto> counter_get c1 label + 1)\<rparr>)"

text \<open>\<open>ks\<close> is the visiting order of the second loop.\<close>

definition counter_Snapshot :: "string list \<Rightarrow> edgeCounter \<Rightarrow> (string \<times> 64 word) list" where
  "counter_Snapshot ks c =
     map (\<lambda>l. (l, counter_get c l)) (ec_order c) @
     map (\<lambda>l. (l, counter_get c l)) (filter (\<lambda>l. l \<notin> set (ec_order c)) ks)"

section \<open>The local command\<close>

record localCommandRequest =
  lc_SiteID :: string
  lc_DeviceType :: string
  lc_DeviceID :: string
  lc_Action :: string
  lc_Params :: gmap
  lc_Reason :: string

text \<open>\<open>decoded\<close> is the result of the JSON decoder on the body.\<close>

definition decodeLocalCommand :: "string + localCommandRequest \<Rightarrow> string + localCommandRequest" where
  "decodeLocalCommand decoded =
     (case decoded of
        Inl err \<Rightarrow> Inl err
      | Inr req \<Rightarrow>
          let req' = req\<lparr>lc_SiteID := strings_TrimSpace (lc_SiteID req),
                lc_DeviceType := strings_TrimSpace (lc_DeviceType req),
                lc_DeviceID := strings_TrimSpace (lc_DeviceID req),
                lc_Action := strings_TrimSpace (lc_Action req),
                lc_Reason := strings_TrimSpace (lc_Reason req)\<rparr> in
          if lc_DeviceType req' = [] \<or> lc_DeviceID req' = [] \<or> lc_Action req' = [] then
            Inl ''device_type, device_id and action are required''
          else if lc_Params req' = None then Inr (req'\<lparr>lc_Params := Some []\<rparr>)
          else Inr req')"

text \<open>
  \<open>POST /api/v1/local-command\<close>. \<open>local_up\<close> says whether the local client exists and is
  connected, \<open>stamped\<close> and \<open>now\<close> are the readings of the clock for the command id and the time of
  issue, \<open>z\<close> is the zone, \<open>marshal\<close> the JSON encoder of a command, \<open>publish\<close> the local broker's
  answer. The state is the counter and the log of the messages handed to the local broker, with
  topic and payload, oldest first; the reply is the status with an error or the accepted command
  with its topic.
\<close>

datatype local_reply = LRError int string | LRAccepted string Command

type_synonym local_log = "(string \<times> string) list"

definition local_command ::
  "bool \<Rightarrow> string \<Rightarrow> string \<Rightarrow> string \<Rightarrow> string \<Rightarrow> zone \<Rightarrow> time \<Rightarrow> time \<Rightarrow> (Command \<Rightarrow> string + string) \<Rightarrow>
   (string \<Rightarrow> string \<Rightarrow> string option) \<Rightarrow> string + localCommandRequest \<Rightarrow> edgeCounter \<times> local_log \<Rightarrow>
   local_reply \<times> edgeCounter \<times> local_log"
where
  "local_command local_up siteID controlToken edgeHeader authHeader z stamped now marshal publish decoded st =
     (case st of (cnt, out) \<Rightarrow>
      if \<not> edgeAuthorized edgeHeader authHeader controlToken then
        (LRError 401 ''edge control token required'', counter_Inc ''failed'' cnt, out)
      else if \<not> local_up then
        (LRError 503 ''local mqtt disconnected'', counter_Inc ''failed'' cnt, out)
      else
        case decodeLocalCommand decoded of
          Inl err \<Rightarrow> (LRError 400 err, counter_Inc ''failed'' cnt, out)
        | Inr req \<Rightarrow>
            let site = (if lc_SiteID req = [] then siteID else lc_SiteID req);
                cmd = \<lparr>c_CommandID = lc_DeviceID req @ ''-'' @ time_FormatNano z stamped, c_Action = lc_Action req,
                       c_Params = lc_Params req, c_IssuedAt = time_unix_sec now,
                       c_Reason = ''edge local: '' @ lc_Reason req\<rparr> in
            case marshal cmd of
              Inl err \<Rightarrow> (LRError 500 err, counter_Inc ''failed'' cnt, out)
            | Inr payload \<Rightarrow>
                let targetTopic = topic_Command site (lc_DeviceType req) (lc_DeviceID req);
                    out1 = out @ [(targetTopic, payload)] in
                case publish targetTopic payload of
                  Some err \<Rightarrow> (LRError 502 err, counter_Inc ''failed'' cnt, out1)
                | None \<Rightarrow> (LRAccepted targetTopic cmd, counter_Inc ''accepted'' cnt, out1))"

text \<open>\<open>GET /healthz\<close>: the status code and the body's fields.\<close>

definition edge_healthz :: "bool \<Rightarrow> bool \<Rightarrow> bool \<Rightarrow> int \<times> (string \<times> gany) list" where
  "edge_healthz local_up upstream_set upstream_up =
     (if local_up then 200 else 503,
      [(''status'', GStr (if local_up then ''ok'' else ''degraded'')),
       (''local_mqtt'', GBool local_up), (''upstream_configured'', GBool upstream_set),
       (''upstream_mqtt'', GBool (upstream_set \<and> upstream_up))])"

section \<open>Capture, flush and cleanup\<close>

text \<open>The handler of the local client: a message of a captured kind is put into the cache.\<close>

definition captured_kind :: "(string \<rightharpoonup> bool) \<Rightarrow> string \<Rightarrow> bool" where
  "captured_kind kinds topic =
     (case topic_Parse topic of None \<Rightarrow> False | Some p \<Rightarrow> kinds (tp_Kind p) = Some True)"

definition capture :: "(string \<rightharpoonup> bool) \<Rightarrow> bool \<Rightarrow> time \<Rightarrow> string \<Rightarrow> string \<Rightarrow> Cache \<Rightarrow> Cache" where
  "capture kinds ok now topic payload c =
     (if \<not> captured_kind kinds topic then c else fst (cache_Put ok now topic payload c))"

text \<open>
  \<open>flushPending\<close>: the outcome of message number \<open>n\<close> is the broker's answer, the success of the mark
  and the clock of the mark. The second result is what the broker accepted, with the row's id.
\<close>

type_synonym upstream_log = "(int \<times> string \<times> string) list"

fun forward_all :: "(nat \<Rightarrow> bool \<times> bool \<times> time) \<Rightarrow> string \<Rightarrow> nat \<Rightarrow> CachedMessage list \<Rightarrow> Cache \<times> upstream_log \<Rightarrow> Cache \<times> upstream_log" where
  "forward_all outcome pfx n [] (c, up) = (c, up)"
| "forward_all outcome pfx n (m # ms) (c, up) =
     (case outcome n of (accepted, marked, now) \<Rightarrow>
        if \<not> accepted then (c, up)
        else
          let up' = up @ [(m_ID m, upstreamTopic (m_Topic m) pfx, m_Payload m)] in
          case cache_MarkSent marked now (m_ID m) c of (c', ok) \<Rightarrow>
            if \<not> ok then (c', up') else forward_all outcome pfx (Suc n) ms (c', up'))"

definition flushPending ::
  "bool \<Rightarrow> bool \<Rightarrow> (nat \<Rightarrow> bool \<times> bool \<times> time) \<Rightarrow> string \<Rightarrow> Cache \<times> upstream_log \<Rightarrow> Cache \<times> upstream_log" where
  "flushPending conn load_ok outcome pfx cu =
     (if \<not> conn then cu
      else
        case cache_Pending load_ok 100 (fst cu) of
          None \<Rightarrow> cu
        | Some ms \<Rightarrow> forward_all outcome pfx 0 ms cu)"

definition cleanupSent :: "bool \<Rightarrow> time \<Rightarrow> duration \<Rightarrow> Cache \<Rightarrow> Cache" where
  "cleanupSent ok now retention c = fst (cache_DeleteSentBefore ok (time_Add now (- retention)) c)"

text \<open>
  \<open>flushLoop\<close>: \<open>time.NewTicker\<close> panics (\<open>None\<close>) for an interval that is not positive. The events
  are the ticks, with what happens at each, until the context ends.
\<close>

definition flushLoop ::
  "duration \<Rightarrow> (bool \<times> bool \<times> (nat \<Rightarrow> bool \<times> bool \<times> time)) list \<Rightarrow> string \<Rightarrow> Cache \<times> upstream_log \<Rightarrow> (Cache \<times> upstream_log) option"
where
  "flushLoop interval ticks pfx cu =
     (if interval \<le> 0 then None
      else Some (foldl (\<lambda>cu (conn, load_ok, outcome). flushPending conn load_ok outcome pfx cu) cu ticks))"

text \<open>\<open>cleanupLoop\<close> cleans up once at its start and once for every tick; \<open>main\<close> starts it only for a
  positive retention and interval.\<close>

definition cleanupLoop :: "duration \<Rightarrow> duration \<Rightarrow> bool \<times> time \<Rightarrow> (bool \<times> time) list \<Rightarrow> Cache \<Rightarrow> Cache option" where
  "cleanupLoop retention interval first ticks c =
     (if interval \<le> 0 then None
      else Some (foldl (\<lambda>c (ok, now). cleanupSent ok now retention c) c (first # ticks)))"

definition start_cleanup :: "duration \<Rightarrow> duration \<Rightarrow> bool \<times> time \<Rightarrow> (bool \<times> time) list \<Rightarrow> Cache \<Rightarrow> Cache option" where
  "start_cleanup retention interval first ticks c =
     (if retention > 0 \<and> interval > 0 then cleanupLoop retention interval first ticks c else Some c)"

section \<open>The gateway as a step relation\<close>

text \<open>
  \<open>gw_queue\<close> is the rest of the batch the flush loop has loaded, \<open>gw_unmarked\<close> a message the
  upstream broker has accepted and that is about to be marked, \<open>gw_up\<close> what the broker accepted,
  oldest first. \<open>gw_captured\<close> and \<open>gw_risk\<close> only record history: the captured messages in order,
  and whether a mark failed or the process stopped between an accepted publish and its mark.
\<close>

record Gateway =
  gw_cache :: Cache
  gw_queue :: "CachedMessage list"
  gw_unmarked :: "int option"
  gw_up :: upstream_log
  gw_captured :: "(string \<times> string) list"
  gw_risk :: bool

definition gw_init :: Gateway where
  "gw_init = \<lparr>gw_cache = \<lparr>rows = [], seq = 0\<rparr>, gw_queue = [], gw_unmarked = None, gw_up = [],
     gw_captured = [], gw_risk = False\<rparr>"

definition up_entry :: "string \<Rightarrow> CachedMessage \<Rightarrow> int \<times> string \<times> string" where
  "up_entry pfx m = (m_ID m, upstreamTopic (m_Topic m) pfx, m_Payload m)"

text \<open>
  A publish the broker has accepted but whose confirmation is lost is \<open>forward\<close> followed by
  \<open>mark_failed\<close>: the message is upstream, the batch ends and the row stays pending.
\<close>

inductive gw_step :: "(string \<rightharpoonup> bool) \<Rightarrow> string \<Rightarrow> Gateway \<Rightarrow> Gateway \<Rightarrow> bool" for kinds pfx where
  capture_stored: "captured_kind kinds t \<Longrightarrow>
    gw_step kinds pfx g (g\<lparr>gw_cache := capture kinds True now t p (gw_cache g), gw_captured := gw_captured g @ [(t, p)]\<rparr>)"
| capture_failed: "gw_step kinds pfx g (g\<lparr>gw_cache := capture kinds False now t p (gw_cache g)\<rparr>)"
| flush_load: "gw_queue g = [] \<Longrightarrow> gw_unmarked g = None \<Longrightarrow> cache_Pending True 100 (gw_cache g) = Some ms \<Longrightarrow>
    gw_step kinds pfx g (g\<lparr>gw_queue := ms\<rparr>)"
| forward: "gw_queue g = m # ms \<Longrightarrow> gw_unmarked g = None \<Longrightarrow>
    gw_step kinds pfx g (g\<lparr>gw_queue := ms, gw_unmarked := Some (m_ID m), gw_up := gw_up g @ [up_entry pfx m]\<rparr>)"
| forward_failed: "gw_unmarked g = None \<Longrightarrow> gw_step kinds pfx g (g\<lparr>gw_queue := []\<rparr>)"
| mark: "gw_unmarked g = Some i \<Longrightarrow>
    gw_step kinds pfx g (g\<lparr>gw_cache := fst (cache_MarkSent True now i (gw_cache g)), gw_unmarked := None\<rparr>)"
| mark_failed: "gw_unmarked g = Some i \<Longrightarrow>
    gw_step kinds pfx g (g\<lparr>gw_queue := [], gw_unmarked := None, gw_risk := True\<rparr>)"
| cleanup: "gw_step kinds pfx g (g\<lparr>gw_cache := cleanupSent ok now retention (gw_cache g)\<rparr>)"
| restart: "gw_step kinds pfx g (g\<lparr>gw_queue := [], gw_unmarked := None, gw_risk := (gw_risk g \<or> gw_unmarked g \<noteq> None)\<rparr>)"

inductive_cases gw_stepE: "gw_step kinds pfx g g'"

definition gw_reachable :: "(string \<rightharpoonup> bool) \<Rightarrow> string \<Rightarrow> Gateway \<Rightarrow> bool" where
  "gw_reachable kinds pfx g \<longleftrightarrow> (gw_step kinds pfx)\<^sup>*\<^sup>* gw_init g"

text \<open>The function \<open>flushPending\<close> is a run of these steps.\<close>

definition at_rest :: "Gateway \<Rightarrow> bool" where
  "at_rest g \<longleftrightarrow> gw_queue g = [] \<and> gw_unmarked g = None"

lemma forward_all_steps:
  assumes "gw_unmarked g = None"
  shows "\<exists>g'. (gw_step kinds pfx)\<^sup>*\<^sup>* g g' \<and> at_rest g' \<and> gw_captured g' = gw_captured g \<and>
    (gw_cache g', gw_up g') = forward_all outcome pfx n (gw_queue g) (gw_cache g, gw_up g)"
  using assms
proof (induction "gw_queue g" arbitrary: g n)
  case Nil
  then show ?case by (intro exI [of _ g]) (simp add: at_rest_def)
next
  case (Cons m ms)
  obtain accepted marked now where o: "outcome n = (accepted, marked, now)" by (metis prod_cases3)
  let ?g1 = "g\<lparr>gw_queue := ms, gw_unmarked := Some (m_ID m), gw_up := gw_up g @ [up_entry pfx m]\<rparr>"
  let ?g2 = "?g1\<lparr>gw_cache := fst (cache_MarkSent True now (m_ID m) (gw_cache g)), gw_unmarked := None\<rparr>"
  let ?g3 = "?g1\<lparr>gw_queue := [], gw_unmarked := None, gw_risk := True\<rparr>"
  have q: "gw_queue g = m # ms" using Cons.hyps(2) by simp
  have 1: "gw_step kinds pfx g ?g1" using q Cons.prems by (rule forward)
  have 2: "gw_step kinds pfx ?g1 ?g2" using mark [of ?g1 "m_ID m"] by simp
  have 3: "gw_step kinds pfx ?g1 ?g3" using mark_failed [of ?g1 "m_ID m"] by simp
  show ?case
  proof (cases "accepted \<and> marked")
    case True
    from Cons.hyps(1) [of ?g2 "Suc n"] obtain g' where "(gw_step kinds pfx)\<^sup>*\<^sup>* ?g2 g'" "at_rest g'"
      "gw_captured g' = gw_captured g"
      "(gw_cache g', gw_up g') = forward_all outcome pfx (Suc n) ms (gw_cache ?g2, gw_up ?g2)" by auto
    with True 1 2 show ?thesis
      by (intro exI [of _ g'])
        (auto simp: q o up_entry_def cache_MarkSent_def intro: converse_rtranclp_into_rtranclp)
  next
    case False
    show ?thesis
    proof (cases accepted)
      case True
      with False 1 3 show ?thesis
        by (intro exI [of _ ?g3])
          (auto simp: q o up_entry_def cache_MarkSent_def at_rest_def intro: converse_rtranclp_into_rtranclp)
    next
      case False
      have "gw_step kinds pfx g (g\<lparr>gw_queue := []\<rparr>)" using Cons.prems by (rule forward_failed)
      with False show ?thesis
        by (intro exI [of _ "g\<lparr>gw_queue := []\<rparr>"]) (auto simp: q o at_rest_def Cons.prems)
    qed
  qed
qed

lemma flushPending_steps:
  assumes "at_rest g"
  shows "\<exists>g'. (gw_step kinds pfx)\<^sup>*\<^sup>* g g' \<and> at_rest g' \<and> gw_captured g' = gw_captured g \<and>
    (gw_cache g', gw_up g') = flushPending conn load_ok outcome pfx (gw_cache g, gw_up g)"
proof (cases "conn \<and> load_ok")
  case True
  then obtain ms where ms: "cache_Pending load_ok 100 (gw_cache g) = Some ms" by (simp add: cache_Pending_def Let_def)
  with True assms have "gw_step kinds pfx g (g\<lparr>gw_queue := ms\<rparr>)"
    by (intro flush_load) (auto simp: at_rest_def)
  moreover obtain g' where "(gw_step kinds pfx)\<^sup>*\<^sup>* (g\<lparr>gw_queue := ms\<rparr>) g'" "at_rest g'"
    "gw_captured g' = gw_captured g"
    "(gw_cache g', gw_up g') = forward_all outcome pfx 0 ms (gw_cache g, gw_up g)"
    using forward_all_steps [of "g\<lparr>gw_queue := ms\<rparr>" kinds pfx outcome 0] assms by (auto simp: at_rest_def)
  ultimately show ?thesis
    using True ms by (intro exI [of _ g']) (auto simp: flushPending_def intro: converse_rtranclp_into_rtranclp)
next
  case False
  then show ?thesis
    using assms by (intro exI [of _ g]) (auto simp: flushPending_def cache_Pending_def Let_def)
qed

section \<open>Delivery invariant\<close>

definition delivered :: "Gateway \<Rightarrow> int set" where
  "delivered g = fst ` set (gw_up g)"

definition msg_ok :: "Gateway \<Rightarrow> CachedMessage \<Rightarrow> bool" where
  "msg_ok g m \<longleftrightarrow> 1 \<le> m_ID m \<and> m_ID m \<le> int (length (gw_captured g)) \<and>
     (m_Topic m, m_Payload m) = gw_captured g ! nat (m_ID m - 1)"

definition up_ok :: "string \<Rightarrow> Gateway \<Rightarrow> int \<times> string \<times> string \<Rightarrow> bool" where
  "up_ok pfx g e \<longleftrightarrow> (case e of (i, t, p) \<Rightarrow> 1 \<le> i \<and> i \<le> int (length (gw_captured g)) \<and>
     (t, p) = (case gw_captured g ! nat (i - 1) of (t', p') \<Rightarrow> (upstreamTopic t' pfx, p')))"

text \<open>
  The messages on record are the captured ones; what is not delivered waits in the cache; the
  batch of the flush loop skips nothing; the delivered messages are a prefix of the captured ones.
\<close>

definition gw_inv :: "string \<Rightarrow> Gateway \<Rightarrow> bool" where
  "gw_inv pfx g \<longleftrightarrow>
     cache_inv (gw_cache g) \<and> seq (gw_cache g) = int (length (gw_captured g)) \<and>
     (\<forall>m \<in> set (rows (gw_cache g)) \<union> set (gw_queue g). msg_ok g m) \<and>
     (\<forall>e \<in> set (gw_up g). up_ok pfx g e) \<and>
     (\<forall>i. 1 \<le> i \<and> i \<le> int (length (gw_captured g)) \<and> i \<notin> delivered g \<longrightarrow> i \<in> m_ID ` set (queue (gw_cache g))) \<and>
     sorted_wrt (<) (map m_ID (gw_queue g)) \<and>
     (\<forall>m \<in> set (gw_queue g). \<forall>i. 1 \<le> i \<and> i < m_ID m \<and> i \<notin> delivered g \<longrightarrow> i \<in> m_ID ` set (gw_queue g)) \<and>
     (\<forall>i. gw_unmarked g = Some i \<longrightarrow> i \<in> delivered g) \<and>
     (\<forall>i \<in> delivered g. \<forall>j. 1 \<le> j \<and> j < i \<longrightarrow> j \<in> delivered g)"

lemma queue_rows: "set (queue c) \<subseteq> set (rows c)"
  by (auto simp: queue_def)

lemma delivered_simps [simp]:
  "delivered (g\<lparr>gw_cache := c\<rparr>) = delivered g" "delivered (g\<lparr>gw_queue := ms\<rparr>) = delivered g"
  "delivered (g\<lparr>gw_unmarked := u\<rparr>) = delivered g" "delivered (g\<lparr>gw_captured := xs\<rparr>) = delivered g"
  "delivered (g\<lparr>gw_risk := b\<rparr>) = delivered g"
  by (simp_all add: delivered_def)

lemma gw_inv_init: "gw_inv pfx gw_init"
  by (auto simp: gw_inv_def gw_init_def cache_inv_empty delivered_def)

lemma msg_ok_capture: "msg_ok g m \<Longrightarrow> msg_ok (g\<lparr>gw_cache := c, gw_captured := gw_captured g @ [x]\<rparr>) m"
  by (auto simp: msg_ok_def nth_append)

lemma up_ok_capture: "up_ok pfx g e \<Longrightarrow> up_ok pfx (g\<lparr>gw_cache := c, gw_captured := gw_captured g @ [x]\<rparr>) e"
  by (auto simp: up_ok_def nth_append split: prod.splits)

lemma gw_inv_capture:
  assumes "gw_inv pfx g"
  shows "gw_inv pfx (g\<lparr>gw_cache := fst (cache_Put True now t p (gw_cache g)), gw_captured := gw_captured g @ [(t, p)]\<rparr>)"
    (is "gw_inv pfx ?g")
proof -
  let ?n = "\<lparr>m_ID = seq (gw_cache g) + 1, m_Topic = t, m_Payload = p, m_CreatedAt = now, m_SentAt = None\<rparr>"
  have c: "cache_inv (gw_cache g)" and sq: "seq (gw_cache g) = int (length (gw_captured g))"
    using assms by (auto simp: gw_inv_def)
  have r: "rows (fst (cache_Put True now t p (gw_cache g))) = rows (gw_cache g) @ [?n]" by (simp add: cache_Put_def)
  have d: "delivered ?g = delivered g" by (simp add: delivered_def)
  have "msg_ok ?g ?n" using sq by (simp add: msg_ok_def nth_append)
  then have "\<forall>m \<in> set (rows (gw_cache ?g)) \<union> set (gw_queue ?g). msg_ok ?g m"
    using assms by (auto simp: gw_inv_def r intro: msg_ok_capture)
  moreover have "\<forall>e \<in> set (gw_up ?g). up_ok pfx ?g e"
    using assms by (auto simp: gw_inv_def intro: up_ok_capture)
  moreover have "\<forall>i. 1 \<le> i \<and> i \<le> int (length (gw_captured ?g)) \<and> i \<notin> delivered ?g \<longrightarrow>
      i \<in> m_ID ` set (queue (gw_cache ?g))"
  proof (intro allI impI)
    fix i assume i: "1 \<le> i \<and> i \<le> int (length (gw_captured ?g)) \<and> i \<notin> delivered ?g"
    show "i \<in> m_ID ` set (queue (gw_cache ?g))"
    proof (cases "i = seq (gw_cache g) + 1")
      case True
      then show ?thesis by (simp add: cache_updates)
    next
      case False
      with i sq have "1 \<le> i \<and> i \<le> int (length (gw_captured g)) \<and> i \<notin> delivered g" by (auto simp: d)
      with assms have "i \<in> m_ID ` set (queue (gw_cache g))" by (simp add: gw_inv_def)
      then show ?thesis by (simp add: cache_updates)
    qed
  qed
  ultimately show ?thesis
    using assms cache_inv_Put [OF c] by (simp add: gw_inv_def d cache_updates)
qed

lemma gw_inv_cache:
  assumes "gw_inv pfx g" "cache_inv c" "seq c = seq (gw_cache g)"
    and "\<forall>m \<in> set (rows c). \<exists>m' \<in> set (rows (gw_cache g)). m_ID m = m_ID m' \<and> m_Topic m = m_Topic m' \<and> m_Payload m = m_Payload m'"
    and "m_ID ` set (queue (gw_cache g)) \<subseteq> m_ID ` set (queue c) \<union> set_option (gw_unmarked g)"
    and "u \<in> {None, gw_unmarked g}"
  shows "gw_inv pfx (g\<lparr>gw_cache := c, gw_unmarked := u\<rparr>)"
proof -
  let ?g = "g\<lparr>gw_cache := c, gw_unmarked := u\<rparr>"
  have d: "delivered ?g = delivered g" by (simp add: delivered_def)
  have ok: "msg_ok ?g m = msg_ok g m" "up_ok pfx ?g e = up_ok pfx g e" for m e by (simp_all add: msg_ok_def up_ok_def)
  have "msg_ok g m" if m: "m \<in> set (rows c)" for m
  proof -
    obtain m' where "m' \<in> set (rows (gw_cache g))" "m_ID m = m_ID m'" "m_Topic m = m_Topic m'" "m_Payload m = m_Payload m'"
      using assms(4) m by blast
    moreover from this(1) have "msg_ok g m'" using assms(1) by (simp add: gw_inv_def)
    ultimately show ?thesis by (simp add: msg_ok_def)
  qed
  moreover have "i \<in> m_ID ` set (queue c)" if "1 \<le> i" "i \<le> int (length (gw_captured g))" "i \<notin> delivered g" for i
  proof -
    have "i \<in> m_ID ` set (queue (gw_cache g))" "i \<notin> set_option (gw_unmarked g)"
      using assms(1) that by (auto simp: gw_inv_def)
    then show ?thesis using assms(5) by blast
  qed
  ultimately show ?thesis
    using assms(1-3,6) by (auto simp: gw_inv_def d ok)
qed

lemma gw_inv_drop: "gw_inv pfx g \<Longrightarrow> u \<in> {None, gw_unmarked g} \<Longrightarrow> gw_inv pfx (g\<lparr>gw_queue := [], gw_unmarked := u, gw_risk := b\<rparr>)"
  by (auto simp: gw_inv_def msg_ok_def up_ok_def)

lemma gw_inv_empty: "gw_inv pfx g \<Longrightarrow> gw_inv pfx (g\<lparr>gw_queue := []\<rparr>)"
  by (auto simp: gw_inv_def msg_ok_def up_ok_def)

lemma take_sorted_closed:
  "sorted_wrt (<) (map f q) \<Longrightarrow> m \<in> set (take n q) \<Longrightarrow> x \<in> set q \<Longrightarrow> f x < (f m :: int) \<Longrightarrow> x \<in> set (take n q)"
proof (induction q arbitrary: n)
  case (Cons y q)
  show ?case
  proof (cases n)
    case (Suc k)
    with Cons show ?thesis by (auto dest: in_set_takeD)
  qed (use Cons in simp)
qed simp

lemma gw_inv_load:
  assumes "gw_inv pfx g" "cache_Pending True 100 (gw_cache g) = Some ms"
  shows "gw_inv pfx (g\<lparr>gw_queue := ms\<rparr>)"
proof -
  have c: "cache_inv (gw_cache g)" using assms(1) by (simp add: gw_inv_def)
  then have ms: "ms = take 100 (queue (gw_cache g))" using assms(2) by (simp add: Pending_queue)
  have sub: "set ms \<subseteq> set (queue (gw_cache g))" unfolding ms by (rule set_take_subset)
  note q = queue_sorted [OF c]
  have "i \<in> m_ID ` set ms" if "m \<in> set ms" "1 \<le> i" "i < m_ID m" "i \<notin> delivered g" for m i
  proof -
    have "msg_ok g m" using assms(1) that(1) sub queue_rows by (auto simp: gw_inv_def)
    then have "i \<le> int (length (gw_captured g))" using that(3) by (simp add: msg_ok_def)
    then have "i \<in> m_ID ` set (queue (gw_cache g))" using assms(1) that by (simp add: gw_inv_def)
    then obtain x where "x \<in> set (queue (gw_cache g))" "i = m_ID x" by blast
    then show ?thesis using take_sorted_closed [OF q] that(1,3) unfolding ms by blast
  qed
  moreover have "sorted_wrt (<) (map m_ID ms)" unfolding ms take_map [symmetric] by (rule sorted_wrt_take [OF q])
  moreover have "\<forall>m \<in> set ms. msg_ok g m" using assms(1) sub queue_rows by (auto simp: gw_inv_def)
  ultimately show ?thesis
    using assms(1) by (auto simp: gw_inv_def msg_ok_def up_ok_def)
qed

text \<open>The head of the batch is the first message not delivered yet, or a delivered one again.\<close>

lemma head_next:
  assumes "gw_inv pfx g" "gw_queue g = m # ms" "1 \<le> j" "j < m_ID m"
  shows "j \<in> delivered g"
proof (rule ccontr)
  assume "j \<notin> delivered g"
  with assms have "j \<in> m_ID ` set (m # ms)" by (auto simp: gw_inv_def)
  moreover have "\<forall>x \<in> set ms. m_ID m < m_ID x" using assms(1,2) by (auto simp: gw_inv_def)
  ultimately show False using assms(4) by auto
qed

lemma gw_inv_forward:
  assumes "gw_inv pfx g" "gw_queue g = m # ms"
  shows "gw_inv pfx (g\<lparr>gw_queue := ms, gw_unmarked := Some (m_ID m), gw_up := gw_up g @ [up_entry pfx m]\<rparr>)"
    (is "gw_inv pfx ?g")
proof -
  have d: "delivered ?g = insert (m_ID m) (delivered g)" by (simp add: delivered_def up_entry_def)
  have m: "msg_ok g m" using assms by (simp add: gw_inv_def)
  then have "up_ok pfx ?g (up_entry pfx m)" by (auto simp: msg_ok_def up_ok_def up_entry_def split: prod.split)
  moreover have "i \<in> m_ID ` set ms" if "x \<in> set ms" "1 \<le> i" "i < m_ID x" "i \<notin> delivered ?g" for x i
  proof -
    have i: "i \<notin> delivered g" "i \<noteq> m_ID m" using that(4) unfolding d by auto
    have "x \<in> set (gw_queue g)" using that(1) assms(2) by simp
    then have "i \<in> m_ID ` set (gw_queue g)" using assms(1) that(2,3) i(1) unfolding gw_inv_def by blast
    with i(2) assms(2) show ?thesis by simp
  qed
  moreover have "\<forall>i \<in> delivered ?g. \<forall>j. 1 \<le> j \<and> j < i \<longrightarrow> j \<in> delivered ?g"
    using head_next [OF assms] assms(1) by (auto simp: d gw_inv_def)
  ultimately show ?thesis
    using assms by (simp add: gw_inv_def d msg_ok_def up_ok_def)
qed

lemma gw_inv_mark:
  assumes "gw_inv pfx g" "gw_unmarked g = Some i"
  shows "gw_inv pfx (g\<lparr>gw_cache := fst (cache_MarkSent True now i (gw_cache g)), gw_unmarked := None\<rparr>)"
proof (rule gw_inv_cache [OF assms(1)])
  have c: "cache_inv (gw_cache g)" using assms(1) by (simp add: gw_inv_def)
  show "cache_inv (fst (cache_MarkSent True now i (gw_cache g)))" using c by (rule cache_inv_MarkSent)
  show "m_ID ` set (queue (gw_cache g)) \<subseteq>
      m_ID ` set (queue (fst (cache_MarkSent True now i (gw_cache g)))) \<union> set_option (gw_unmarked g)"
    using assms(2) by (auto simp: sqlite.mark_pending [OF c])
qed (auto simp: cache_updates cache_MarkSent_def)

lemma cleanupSent_queue: "cache_inv c \<Longrightarrow> queue (cleanupSent ok now retention c) = queue c"
  using sqlite.cleanup_pending [of c] by (cases ok) (simp_all add: cleanupSent_def cache_DeleteSentBefore_def)

lemma gw_inv_cleanup:
  assumes "gw_inv pfx g"
  shows "gw_inv pfx (g\<lparr>gw_cache := cleanupSent ok now retention (gw_cache g)\<rparr>)"
proof -
  have c: "cache_inv (gw_cache g)" using assms by (simp add: gw_inv_def)
  have "queue (cleanupSent ok now retention (gw_cache g)) = queue (gw_cache g)" using c by (rule cleanupSent_queue)
  then have "gw_inv pfx (g\<lparr>gw_cache := cleanupSent ok now retention (gw_cache g), gw_unmarked := gw_unmarked g\<rparr>)"
    by (intro gw_inv_cache assms)
      (auto simp: cleanupSent_def cache_inv_Delete c, auto simp: cache_DeleteSentBefore_def split: if_splits)
  then show ?thesis by simp
qed

interpretation gw: keeps_invariant "gw_step kinds pfx" "gw_inv pfx" for kinds pfx
proof
  fix g g' assume inv: "gw_inv pfx g" and "gw_step kinds pfx g g'"
  from this(2) show "gw_inv pfx g'"
  proof cases
    case (capture_stored t now p)
    with inv show ?thesis by (simp add: capture_def gw_inv_capture)
  next
    case (capture_failed now t p)
    with inv show ?thesis by (simp add: capture_def cache_Put_def)
  next
    case (flush_load ms)
    with inv show ?thesis by (simp add: gw_inv_load)
  next
    case (forward m ms)
    with inv show ?thesis by (simp add: gw_inv_forward)
  next
    case forward_failed
    with gw_inv_empty [OF inv] show ?thesis by simp
  next
    case (mark i now)
    with inv show ?thesis by (simp add: gw_inv_mark)
  next
    case (mark_failed i)
    with gw_inv_drop [OF inv, of None] show ?thesis by simp
  next
    case (cleanup ok now retention)
    with inv show ?thesis by (simp add: gw_inv_cleanup)
  next
    case restart
    with gw_inv_drop [OF inv, of None] show ?thesis by simp
  qed
qed

lemma gw_reachable_inv: "gw_reachable kinds pfx g \<Longrightarrow> gw_inv pfx g"
  unfolding gw_reachable_def using gw.inv_steps gw_inv_init by blast

text \<open>Without a lost mark: what the broker accepted are the first messages, once each, in order.\<close>

definition gw_exact :: "string \<Rightarrow> Gateway \<Rightarrow> bool" where
  "gw_exact pfx g \<longleftrightarrow> gw_inv pfx g \<and>
     (\<not> gw_risk g \<longrightarrow>
        map fst (gw_up g) = [1..int (length (gw_up g))] \<and>
        (\<forall>m \<in> set (queue (gw_cache g)). m_ID m \<in> delivered g \<longrightarrow> gw_unmarked g = Some (m_ID m)) \<and>
        (\<forall>m \<in> set (gw_queue g). m_ID m \<notin> delivered g))"

lemma delivered_upto: "map fst (gw_up g) = [1..n] \<Longrightarrow> delivered g = {1..n}"
  unfolding delivered_def by (metis set_map set_upto)

lemma delivered_bound: "gw_inv pfx g \<Longrightarrow> i \<in> delivered g \<Longrightarrow> 1 \<le> i \<and> i \<le> seq (gw_cache g)"
proof -
  assume inv: "gw_inv pfx g" and "i \<in> delivered g"
  then obtain e where "e \<in> set (gw_up g)" "i = fst e" by (auto simp: delivered_def)
  with inv show "1 \<le> i \<and> i \<le> seq (gw_cache g)" by (simp add: gw_inv_def up_ok_def split_beta)
qed

lemma gw_exact_forward:
  assumes "gw_exact pfx g" "gw_queue g = m # ms" "gw_unmarked g = None"
  shows "gw_exact pfx (g\<lparr>gw_queue := ms, gw_unmarked := Some (m_ID m), gw_up := gw_up g @ [up_entry pfx m]\<rparr>)"
    (is "gw_exact pfx ?g")
proof -
  have inv: "gw_inv pfx g" using assms(1) by (simp add: gw_exact_def)
  have d: "delivered ?g = insert (m_ID m) (delivered g)" by (simp add: delivered_def up_entry_def)
  have "map fst (gw_up ?g) = [1..int (length (gw_up ?g))] \<and>
      (\<forall>x \<in> set (queue (gw_cache ?g)). m_ID x \<in> delivered ?g \<longrightarrow> gw_unmarked ?g = Some (m_ID x)) \<and>
      (\<forall>x \<in> set (gw_queue ?g). m_ID x \<notin> delivered ?g)" if "\<not> gw_risk g"
  proof -
    let ?n = "int (length (gw_up g))"
    have up: "map fst (gw_up g) = [1..?n]"
      and q: "\<forall>x \<in> set (queue (gw_cache g)). m_ID x \<notin> delivered g" and m: "m_ID m \<notin> delivered g"
      and ms: "\<forall>x \<in> set ms. m_ID x \<notin> delivered g \<and> m_ID m < m_ID x"
      using assms that by (auto simp: gw_exact_def gw_inv_def)
    have D: "delivered g = {1..?n}" using up by (rule delivered_upto)
    have "1 \<le> m_ID m" using inv assms(2) by (simp add: gw_inv_def msg_ok_def)
    with m D have lo: "?n + 1 \<le> m_ID m" by auto
    have "m_ID m \<le> ?n + 1"
    proof (rule ccontr)
      assume "\<not> m_ID m \<le> ?n + 1"
      then have "?n + 1 \<in> delivered g" by (intro head_next [OF inv assms(2)]) auto
      with D show False by simp
    qed
    with lo have id: "m_ID m = ?n + 1" by simp
    have "[1..?n + 1] = [1..?n] @ [?n + 1]" using upto_rec2 [of 1 "?n + 1"] by simp
    then show ?thesis unfolding d using up q ms by (auto simp: id up_entry_def algebra_simps)
  qed
  with gw_inv_forward [OF inv assms(2)] show ?thesis by (simp add: gw_exact_def)
qed

lemma gw_step_exact:
  assumes "gw_exact pfx g" "gw_step kinds pfx g g'"
  shows "gw_exact pfx g'"
proof -
  have inv: "gw_inv pfx g" using assms(1) by (simp add: gw_exact_def)
  have inv': "gw_inv pfx g'" using inv assms(2) by (rule gw.inv_step)
  have c: "cache_inv (gw_cache g)" using inv by (simp add: gw_inv_def)
  from assms(2) show ?thesis
  proof cases
    case (capture_stored t now p)
    have "seq (gw_cache g) + 1 \<notin> delivered g" using delivered_bound [OF inv] by force
    with assms(1) inv' capture_stored show ?thesis by (auto simp: gw_exact_def capture_def cache_updates)
  next
    case (capture_failed now t p)
    with assms(1) show ?thesis by (simp add: capture_def cache_Put_def)
  next
    case (flush_load ms)
    then have "set ms \<subseteq> set (queue (gw_cache g))" using c by (auto simp: Pending_queue dest: in_set_takeD)
    with assms(1) inv' flush_load show ?thesis by (auto simp: gw_exact_def)
  next
    case (forward m ms)
    with assms(1) show ?thesis by (simp add: gw_exact_forward)
  next
    case forward_failed
    with assms(1) inv' show ?thesis by (simp add: gw_exact_def)
  next
    case (mark i now)
    with assms(1) inv' show ?thesis by (auto simp: gw_exact_def sqlite.mark_pending [OF c])
  next
    case (mark_failed i)
    with inv' show ?thesis by (simp add: gw_exact_def)
  next
    case (cleanup ok now retention)
    have "queue (cleanupSent ok now retention (gw_cache g)) = queue (gw_cache g)" using c by (rule cleanupSent_queue)
    with assms(1) inv' cleanup show ?thesis by (simp add: gw_exact_def)
  next
    case restart
    with assms(1) inv' show ?thesis by (auto simp: gw_exact_def)
  qed
qed

interpretation gw_exact: keeps_invariant "gw_step kinds pfx" "gw_exact pfx" for kinds pfx
  by unfold_locales (rule gw_step_exact)

lemma gw_reachable_exact: "gw_reachable kinds pfx g \<Longrightarrow> gw_exact pfx g"
  unfolding gw_reachable_def
  by (erule gw_exact.inv_steps) (simp add: gw_exact_def gw_inv_init, simp add: gw_init_def queue_def)

lemma exact_entries:
  assumes "gw_inv pfx g" "map fst (gw_up g) = [1..int (length (gw_up g))]"
  shows "length (gw_up g) \<le> length (gw_captured g) \<and>
    map snd (gw_up g) = map (\<lambda>(t, p). (upstreamTopic t pfx, p)) (take (length (gw_up g)) (gw_captured g))"
proof -
  let ?up = "gw_up g"
  have entry: "fst (?up ! k) = int k + 1 \<and> up_ok pfx g (?up ! k)" if "k < length ?up" for k
  proof -
    have "fst (?up ! k) = [1..int (length ?up)] ! k" using that assms(2) by (metis nth_map)
    with that show ?thesis using assms(1) by (simp add: gw_inv_def)
  qed
  have le: "length ?up \<le> length (gw_captured g)"
  proof (cases ?up rule: rev_cases)
    case (snoc us u)
    with entry [of "length us"] show ?thesis by (auto simp: up_ok_def split: prod.splits)
  qed simp
  moreover have "map snd ?up = map (\<lambda>(t, p). (upstreamTopic t pfx, p)) (take (length ?up) (gw_captured g))"
  proof (rule nth_equalityI)
    fix k assume "k < length (map snd ?up)"
    with entry [of k] le show "map snd ?up ! k = map (\<lambda>(t, p). (upstreamTopic t pfx, p)) (take (length ?up) (gw_captured g)) ! k"
      by (auto simp: up_ok_def split: prod.splits)
  qed (use le in simp)
  ultimately show ?thesis ..
qed

lemma down_closed_interval:
  assumes "finite D" "\<forall>i \<in> D. (1 :: int) \<le> i" "\<forall>i \<in> D. \<forall>j. 1 \<le> j \<and> j < i \<longrightarrow> j \<in> D"
  shows "\<exists>n \<ge> 0. D = {1..n} \<and> (n = 0 \<or> n \<in> D)"
proof (cases "D = {}")
  case True
  then show ?thesis by (intro exI [of _ 0]) auto
next
  case False
  then have m: "Max D \<in> D" using assms(1) by simp
  have "i \<in> D" if "1 \<le> i" "i \<le> Max D" for i
  proof (cases "i = Max D")
    case False
    with that have "i < Max D" by simp
    with that(1) m assms(3) show ?thesis by blast
  qed (use m in simp)
  then have "{1..Max D} \<subseteq> D" by (meson atLeastAtMost_iff subsetI)
  moreover have "D \<subseteq> {1..Max D}"
  proof
    fix i assume "i \<in> D"
    with assms(1,2) show "i \<in> {1..Max D}" by (simp add: Max_ge)
  qed
  ultimately have "D = {1..Max D}" by (rule antisym [rotated])
  moreover have "0 \<le> Max D" using assms(2) m by fastforce
  ultimately show ?thesis using m by blast
qed

section \<open>One flush\<close>

text \<open>When everything succeeds, a flush forwards and marks the whole batch.\<close>

lemma forward_all_ok:
  assumes "cache_inv c" "queue c = ms @ rest"
  shows "\<exists>c'. forward_all (\<lambda>n. (True, True, now n)) pfx k ms (c, up) = (c', up @ map (up_entry pfx) ms) \<and>
    cache_inv c' \<and> queue c' = rest"
  using assms
proof (induction ms arbitrary: c up k)
  case (Cons m ms)
  let ?c = "fst (cache_MarkSent True (now k) (m_ID m) c)"
  have "queue ?c = ms @ rest" using Cons.prems by (intro sqlite.mark_head) simp_all
  moreover have "cache_inv ?c" using Cons.prems(1) by (rule cache_inv_MarkSent)
  ultimately obtain c' where
    "forward_all (\<lambda>n. (True, True, now n)) pfx (Suc k) ms (?c, up @ [up_entry pfx m]) = (c', (up @ [up_entry pfx m]) @ map (up_entry pfx) ms)"
    "cache_inv c' \<and> queue c' = rest"
    using Cons.IH by blast
  then show ?case by (simp add: cache_MarkSent_def up_entry_def)
qed simp

section \<open>Kinds, tokens, counters\<close>

lemma parseKindSet_eq:
  "parseKindSet raw k = (if k \<noteq> [] \<and> k \<in> strings_TrimSpace ` set (strings_Split (CHR '','') raw) then Some True else None)"
proof -
  have "foldl (\<lambda>out part. let kind = strings_TrimSpace part in if kind = [] then out else out(kind \<mapsto> True)) m ps k =
      (if k \<noteq> [] \<and> k \<in> strings_TrimSpace ` set ps then Some True else m k)" for m ps
    by (induction ps arbitrary: m) (auto simp: Let_def)
  from this [of Map.empty "strings_Split (CHR '','') raw"] show ?thesis by (simp add: parseKindSet_def)
qed

lemma counter_get_Inc: "counter_get (counter_Inc l c) k = (if k = l then counter_get c k + 1 else counter_get c k)"
  by (simp add: counter_get_def counter_Inc_def Let_def)

lemma edgeAuthorized_iff:
  "edgeAuthorized edgeHeader authHeader token \<longleftrightarrow>
    strings_TrimSpace token \<noteq> [] \<and>
    (strings_TrimSpace edgeHeader = strings_TrimSpace token \<or>
     strings_TrimSpace edgeHeader = [] \<and>
       (\<exists>rest. authHeader = ''Bearer '' @ rest \<and> strings_TrimSpace rest = strings_TrimSpace token))"
  by (auto simp: edgeAuthorized_def bearerToken_def Let_def strings_HasPrefix_def strings_TrimPrefix_def prefix_def)

text \<open>What the decoder of the local command lets through, and how it is cleaned.\<close>

lemma decodeLocalCommand_Inl: "decodeLocalCommand (Inl e) = Inl e"
  by (simp add: decodeLocalCommand_def)

lemma decodeLocalCommand_Inr:
  "decodeLocalCommand (Inr req) =
    (if strings_TrimSpace (lc_DeviceType req) = [] \<or> strings_TrimSpace (lc_DeviceID req) = [] \<or> strings_TrimSpace (lc_Action req) = []
     then Inl ''device_type, device_id and action are required''
     else Inr \<lparr>lc_SiteID = strings_TrimSpace (lc_SiteID req), lc_DeviceType = strings_TrimSpace (lc_DeviceType req),
       lc_DeviceID = strings_TrimSpace (lc_DeviceID req), lc_Action = strings_TrimSpace (lc_Action req),
       lc_Params = (case lc_Params req of None \<Rightarrow> Some [] | Some ps \<Rightarrow> Some ps), lc_Reason = strings_TrimSpace (lc_Reason req)\<rparr>)"
  by (cases req) (auto simp: decodeLocalCommand_def Let_def split: option.split)

section \<open>Properties\<close>

text \<open>
  C15. At-least-once delivery in order. Whatever interleaving of captures, flushes, failed
  publishes, failed marks, cleanups and restarts has happened, the messages the upstream broker has
  accepted are a prefix of the captured ones, with their payload and their mapped topic, and every
  later message still waits in the cache with its content.
\<close>
theorem delivery_at_least_once:
  assumes "gw_reachable kinds pfx g"
  shows "\<exists>n \<le> length (gw_captured g).
    fst ` set (gw_up g) = {1..int n} \<and>
    (\<forall>(i, t, p) \<in> set (gw_up g). \<exists>t'. gw_captured g ! nat (i - 1) = (t', p) \<and> t = upstreamTopic t' pfx) \<and>
    (\<forall>k. n \<le> k \<and> k < length (gw_captured g) \<longrightarrow>
      (\<exists>m \<in> set (rows (gw_cache g)). m_SentAt m = None \<and> m_ID m = int k + 1 \<and> (m_Topic m, m_Payload m) = gw_captured g ! k))"
proof -
  have inv: "gw_inv pfx g" using assms by (rule gw_reachable_inv)
  have b: "\<forall>i \<in> delivered g. 1 \<le> i" using delivered_bound [OF inv] by blast
  have fin: "finite (delivered g)" by (simp add: delivered_def)
  have "\<forall>i \<in> delivered g. \<forall>j. 1 \<le> j \<and> j < i \<longrightarrow> j \<in> delivered g" using inv by (simp add: gw_inv_def)
  from down_closed_interval [OF fin b this] obtain n where
    n: "0 \<le> n" "delivered g = {1..n}" "n = 0 \<or> n \<in> delivered g" by blast
  have le: "n \<le> int (length (gw_captured g))"
    using n(3) delivered_bound [OF inv, of n] inv by (auto simp: gw_inv_def)
  have entries: "\<exists>t'. gw_captured g ! nat (i - 1) = (t', p) \<and> t = upstreamTopic t' pfx" if "(i, t, p) \<in> set (gw_up g)" for i t p
  proof -
    have "up_ok pfx g (i, t, p)" using inv that by (simp add: gw_inv_def)
    then show ?thesis by (simp add: up_ok_def split: prod.splits)
  qed
  have waiting: "\<exists>m \<in> set (rows (gw_cache g)). m_SentAt m = None \<and> m_ID m = int k + 1 \<and> (m_Topic m, m_Payload m) = gw_captured g ! k"
    if "nat n \<le> k" "k < length (gw_captured g)" for k
  proof -
    have "int k + 1 \<in> m_ID ` set (queue (gw_cache g))" using inv n that by (auto simp: gw_inv_def)
    then obtain m where m: "m \<in> set (queue (gw_cache g))" "m_ID m = int k + 1" by force
    then have "msg_ok g m" using inv queue_rows by (auto simp: gw_inv_def)
    with m show ?thesis by (intro bexI [of _ m]) (auto simp: queue_def msg_ok_def)
  qed
  have "fst ` set (gw_up g) = {1..int (nat n)}" using n(1,2) by (simp add: delivered_def)
  with le entries waiting show ?thesis by (intro exI [of _ "nat n"]) (use n(1) in auto)
qed

definition gw_example :: Gateway where
  "gw_example = gw_init\<lparr>gw_cache := capture [''telemetry'' \<mapsto> True] True 7 ''vpp/s/pv/p1/telemetry'' ''x'' \<lparr>rows = [], seq = 0\<rparr>,
     gw_captured := [(''vpp/s/pv/p1/telemetry'', ''x'')]\<rparr>"

lemma gw_example_reachable: "gw_reachable [''telemetry'' \<mapsto> True] [] gw_example"
proof -
  have "captured_kind [''telemetry'' \<mapsto> True] ''vpp/s/pv/p1/telemetry''"
    by (simp add: captured_kind_def topic_Parse_def)
  from capture_stored [OF this, where pfx = "[]" and g = gw_init and now = 7 and p = "''x''"] show ?thesis
    by (auto simp: gw_reachable_def gw_example_def gw_init_def)
qed

definition gw_example_up :: Gateway where
  "gw_example_up = gw_example\<lparr>gw_queue := [], gw_unmarked := Some 1,
     gw_up := [(1, ''vpp/s/pv/p1/telemetry'', ''x'')]\<rparr>"

lemma gw_example_forwarded: "gw_reachable [''telemetry'' \<mapsto> True] [] gw_example_up"
proof -
  have rest: "at_rest gw_example" by (simp add: at_rest_def gw_example_def gw_init_def)
  have c: "cache_inv (gw_cache gw_example)"
    using gw_reachable_inv [OF gw_example_reachable] by (simp add: gw_inv_def)
  have kind: "captured_kind [''telemetry'' \<mapsto> True] ''vpp/s/pv/p1/telemetry''"
    by (simp add: captured_kind_def topic_Parse_def)
  let ?m = "\<lparr>m_ID = 1, m_Topic = ''vpp/s/pv/p1/telemetry'', m_Payload = ''x'', m_CreatedAt = 7, m_SentAt = None\<rparr>"
  have q: "queue (gw_cache gw_example) = [?m]"
    by (simp add: gw_example_def capture_def kind cache_Put_def queue_def)
  have "gw_step [''telemetry'' \<mapsto> True] [] gw_example (gw_example\<lparr>gw_queue := [?m]\<rparr>)"
    using rest c q by (intro flush_load) (auto simp: at_rest_def Pending_queue)
  moreover have "gw_step [''telemetry'' \<mapsto> True] [] (gw_example\<lparr>gw_queue := [?m]\<rparr>) gw_example_up"
    using forward [of "gw_example\<lparr>gw_queue := [?m]\<rparr>" ?m "[]" "[''telemetry'' \<mapsto> True]" "[]"] rest
    by (simp add: at_rest_def gw_example_up_def gw_example_def gw_init_def up_entry_def upstreamTopic_def
        strings_Trim_def strings_TrimLeft_def)
  ultimately show ?thesis
    using gw_example_reachable unfolding gw_reachable_def by (meson rtranclp.rtrancl_into_rtrancl)
qed

theorem delivery_at_least_once_witness:
  "\<exists>m \<in> set (rows (gw_cache gw_example)). m_SentAt m = None \<and> (m_Topic m, m_Payload m) = (''vpp/s/pv/p1/telemetry'', ''x'')"
  using delivery_at_least_once [OF gw_example_reachable] by (auto simp: gw_example_def gw_init_def)

text \<open>
  C3. Exactly-once delivery while no mark is lost: as long as no mark has failed and the process
  has not stopped between an accepted publish and its mark, the upstream broker has accepted the
  first captured messages, each once and in the order of their capture. A mark is lost when the update
  fails and also when the broker's confirmation of an accepted message does not arrive: the gateway
  then takes the publish for failed and does not try the mark.
\<close>
theorem delivery_exactly_once:
  assumes "gw_reachable kinds pfx g" "\<not> gw_risk g"
  shows "map snd (gw_up g) = map (\<lambda>(t, p). (upstreamTopic t pfx, p)) (take (length (gw_up g)) (gw_captured g)) \<and>
    length (gw_up g) \<le> length (gw_captured g)"
proof -
  have "gw_exact pfx g" using assms(1) by (rule gw_reachable_exact)
  with assms(2) have "gw_inv pfx g" "map fst (gw_up g) = [1..int (length (gw_up g))]" by (simp_all add: gw_exact_def)
  from exact_entries [OF this] show ?thesis by simp
qed

theorem delivery_exactly_once_witness:
  "\<exists>g. gw_reachable [''telemetry'' \<mapsto> True] [] g \<and> map snd (gw_up g) = [(''vpp/s/pv/p1/telemetry'', ''x'')]"
proof (intro exI conjI)
  have "\<not> gw_risk gw_example_up" by (simp add: gw_example_up_def gw_example_def gw_init_def)
  from delivery_exactly_once [OF gw_example_forwarded this]
  show "map snd (gw_up gw_example_up) = [(''vpp/s/pv/p1/telemetry'', ''x'')]"
    by (simp add: gw_example_up_def gw_example_def gw_init_def upstreamTopic_def strings_Trim_def strings_TrimLeft_def)
qed (rule gw_example_forwarded)

text \<open>
  C16. Progress: a flush while the upstream broker is connected and accepts everything and the
  statements succeed forwards the oldest pending messages, at most a hundred, in order, and takes
  exactly those off the queue. Any flush, whatever fails, is a run of the gateway's steps, so the
  delivery properties hold for it.
\<close>
theorem flush_progress:
  assumes "cache_inv c"
  shows "\<exists>c'. flushPending True True (\<lambda>n. (True, True, now n)) pfx (c, up) =
      (c', up @ map (\<lambda>m. (m_ID m, upstreamTopic (m_Topic m) pfx, m_Payload m)) (take 100 (queue c))) \<and>
    queue c' = drop 100 (queue c) \<and> cache_inv c' \<and>
    (\<forall>g kinds conn load_ok outcome. at_rest g \<longrightarrow>
      (\<exists>g'. (gw_step kinds pfx)\<^sup>*\<^sup>* g g' \<and> at_rest g' \<and>
         (gw_cache g', gw_up g') = flushPending conn load_ok outcome pfx (gw_cache g, gw_up g)))"
proof -
  have "queue c = take 100 (queue c) @ drop 100 (queue c)" by simp
  from forward_all_ok [OF assms this, of now pfx 0 up] obtain c' where
    "forward_all (\<lambda>n. (True, True, now n)) pfx 0 (take 100 (queue c)) (c, up) =
       (c', up @ map (up_entry pfx) (take 100 (queue c)))" "cache_inv c'" "queue c' = drop 100 (queue c)" by blast
  moreover have "up_entry pfx = (\<lambda>m. (m_ID m, upstreamTopic (m_Topic m) pfx, m_Payload m))"
    by (simp add: up_entry_def fun_eq_iff)
  ultimately have "flushPending True True (\<lambda>n. (True, True, now n)) pfx (c, up) =
      (c', up @ map (\<lambda>m. (m_ID m, upstreamTopic (m_Topic m) pfx, m_Payload m)) (take 100 (queue c)))"
    "queue c' = drop 100 (queue c)" "cache_inv c'"
    by (simp_all add: flushPending_def Pending_queue assms)
  with flushPending_steps show ?thesis by blast
qed

theorem flush_progress_witness:
  "\<exists>c'. flushPending True True (\<lambda>n. (True, True, 9)) [] (gw_cache gw_example, []) =
     (c', [(1, ''vpp/s/pv/p1/telemetry'', ''x'')]) \<and> queue c' = []"
proof -
  have c: "cache_inv (gw_cache gw_example)"
    using gw_reachable_inv [OF gw_example_reachable] by (simp add: gw_inv_def)
  have kind: "captured_kind [''telemetry'' \<mapsto> True] ''vpp/s/pv/p1/telemetry''"
    by (simp add: captured_kind_def topic_Parse_def)
  have q: "queue (gw_cache gw_example) = [\<lparr>m_ID = 1, m_Topic = ''vpp/s/pv/p1/telemetry'', m_Payload = ''x'', m_CreatedAt = 7, m_SentAt = None\<rparr>]"
    by (simp add: gw_example_def capture_def kind cache_Put_def queue_def)
  from flush_progress [OF c, of "\<lambda>_. 9" "[]" "[]"] show ?thesis
    by (auto simp: q upstreamTopic_def strings_Trim_def)
qed

text \<open>
  What is captured: a message is stored exactly when its topic parses and its kind is one of
  the comma-separated names of the configuration, white space around a name ignored; it is stored
  unchanged, behind all others. Other messages leave the cache as it is.
\<close>
theorem capture_by_kind:
  "capture (parseKindSet raw) True now topic payload c =
    (if \<exists>p. topic_Parse topic = Some p \<and> tp_Kind p \<noteq> [] \<and>
         (\<exists>part \<in> set (strings_Split (CHR '','') raw). strings_TrimSpace part = tp_Kind p)
     then c\<lparr>rows := rows c @ [\<lparr>m_ID = seq c + 1, m_Topic = topic, m_Payload = payload, m_CreatedAt = now, m_SentAt = None\<rparr>],
            seq := seq c + 1\<rparr>
     else c)"
  by (auto simp: capture_def captured_kind_def parseKindSet_eq cache_Put_def image_iff split: option.split)

text \<open>
  C36. The local command endpoint is closed without a token. A request presents the control token, one
  that is not blank, in its own header or, that one blank, as a bearer token; any other is answered
  401 and nothing is handed to the local broker. Nothing is either when the broker is disconnected
  (503), the body does not decode or lacks a device type, a device or an action (400), or the command
  cannot be encoded (500). Otherwise exactly one message is handed over, the command with what the
  request asked for, on that device's command topic, at the gateway's own site when the request
  names none; the reply is 202 when the broker takes it and 502 when it does not. Every request
  counts once, as accepted or as failed.
\<close>
theorem local_command_gate:
  assumes "local_command local_up siteID controlToken edgeHeader authHeader z stamped now marshal publish decoded (cnt, out) =
    (reply, cnt', out')"
  shows "let blank = (\<lambda>v. strings_TrimSpace v = []);
      presented = (\<not> blank controlToken \<and>
        (strings_TrimSpace edgeHeader = strings_TrimSpace controlToken \<or>
         blank edgeHeader \<and>
           (\<exists>rest. authHeader = ''Bearer '' @ rest \<and> strings_TrimSpace rest = strings_TrimSpace controlToken)));
      names_all = (\<lambda>req. \<not> blank (lc_DeviceType req) \<and> \<not> blank (lc_DeviceID req) \<and> \<not> blank (lc_Action req));
      cmd = (\<lambda>req. \<lparr>c_CommandID = strings_TrimSpace (lc_DeviceID req) @ ''-'' @ time_FormatNano z stamped,
        c_Action = strings_TrimSpace (lc_Action req),
        c_Params = (case lc_Params req of None \<Rightarrow> Some [] | Some ps \<Rightarrow> Some ps),
        c_IssuedAt = time_unix_sec now, c_Reason = ''edge local: '' @ strings_TrimSpace (lc_Reason req)\<rparr>);
      target = (\<lambda>req. topic_Command (if blank (lc_SiteID req) then siteID else strings_TrimSpace (lc_SiteID req))
        (strings_TrimSpace (lc_DeviceType req)) (strings_TrimSpace (lc_DeviceID req))) in
    (\<not> presented \<longrightarrow> reply = LRError 401 ''edge control token required'' \<and> out' = out) \<and>
    (presented \<and> \<not> local_up \<longrightarrow> reply = LRError 503 ''local mqtt disconnected'' \<and> out' = out) \<and>
    (presented \<and> local_up \<longrightarrow>
      (\<forall>e. decoded = Inl e \<longrightarrow> reply = LRError 400 e \<and> out' = out) \<and>
      (\<forall>req. decoded = Inr req \<longrightarrow>
        (\<not> names_all req \<longrightarrow> reply = LRError 400 ''device_type, device_id and action are required'' \<and> out' = out) \<and>
        (names_all req \<longrightarrow>
          (\<forall>e. marshal (cmd req) = Inl e \<longrightarrow> reply = LRError 500 e \<and> out' = out) \<and>
          (\<forall>payload. marshal (cmd req) = Inr payload \<longrightarrow>
            out' = out @ [(target req, payload)] \<and>
            reply = (case publish (target req) payload of
              Some e \<Rightarrow> LRError 502 e | None \<Rightarrow> LRAccepted (target req) (cmd req)))))) \<and>
    cnt' = counter_Inc (case reply of LRAccepted _ _ \<Rightarrow> ''accepted'' | LRError _ _ \<Rightarrow> ''failed'') cnt \<and>
    counter_get cnt' ''accepted'' + counter_get cnt' ''failed'' = counter_get cnt ''accepted'' + counter_get cnt ''failed'' + 1"
proof -
  let ?run = "local_command local_up siteID controlToken edgeHeader authHeader z stamped now marshal publish decoded (cnt, out)"
  have r: "reply = fst ?run" "out' = snd (snd ?run)" using assms by simp_all
  have c: "cnt' = counter_Inc (case reply of LRAccepted _ _ \<Rightarrow> ''accepted'' | LRError _ _ \<Rightarrow> ''failed'') cnt"
    using assms by (auto simp: local_command_def Let_def split: if_splits sum.splits option.splits)
  have n: "counter_get cnt' ''accepted'' + counter_get cnt' ''failed'' = counter_get cnt ''accepted'' + counter_get cnt ''failed'' + 1"
    unfolding c by (cases reply) (simp_all add: counter_get_Inc)
  show ?thesis
    unfolding Let_def edgeAuthorized_iff [symmetric]
    by (intro conjI impI allI; (rule c n | simp add: r decodeLocalCommand_Inr local_command_def decodeLocalCommand_Inl Let_def split: option.split))
qed

theorem local_command_gate_witness:
  "let req = \<lparr>lc_SiteID = [], lc_DeviceType = ''load'', lc_DeviceID = ''l1'', lc_Action = ''set_relay'', lc_Params = None, lc_Reason = []\<rparr>;
       call = (\<lambda>token. local_command True ''s1'' ''tok'' token [] (\<lambda>_. 0) 0 0 (\<lambda>_. Inr ''p'') (\<lambda>_ _. None) (Inr req)
         (newEdgeCounter [''accepted'', ''failed''], [])) in
   snd (snd (call ''tok'')) = [(''vpp/s1/load/l1/command'', ''p'')] \<and> snd (snd (call ''guess'')) = []"
proof -
  let ?req = "\<lparr>lc_SiteID = [], lc_DeviceType = ''load'', lc_DeviceID = ''l1'', lc_Action = ''set_relay'', lc_Params = None, lc_Reason = []\<rparr>"
  let ?call = "\<lambda>token. local_command True ''s1'' ''tok'' token [] (\<lambda>_. 0) 0 0 (\<lambda>_. Inr ''p'') (\<lambda>_ _. None) (Inr ?req)
    (newEdgeCounter [''accepted'', ''failed''], [])"
  have trim: "strings_TrimSpace ''tok'' = ''tok''" "strings_TrimSpace ''guess'' = ''guess''" "strings_TrimSpace [] = []"
    "strings_TrimSpace ''load'' = ''load''" "strings_TrimSpace ''l1'' = ''l1''" "strings_TrimSpace ''set_relay'' = ''set_relay''"
    by (simp_all add: strings_TrimSpace_plain plain_char_def)
  obtain reply cnt out where good: "?call ''tok'' = (reply, cnt, out)" by (cases "?call ''tok''") auto
  obtain reply' cnt' out' where bad: "?call ''guess'' = (reply', cnt', out')" by (cases "?call ''guess''") auto
  have "out = [(''vpp/s1/load/l1/command'', ''p'')]" using local_command_gate [OF good] by (simp add: Let_def trim topic_Command_def)
  moreover have "out' = []" using local_command_gate [OF bad] by (simp add: Let_def trim)
  ultimately show ?thesis using good bad by (simp add: Let_def)
qed

text \<open>
  A flush interval of zero or less crashes the gateway when an upstream broker is configured:
  the flush loop hands it to \<open>time.NewTicker\<close>, which panics, while the cleanup loop with such an
  interval is simply not started.
\<close>
theorem flush_interval_panics:
  "(flushLoop interval ticks pfx cu = None \<longleftrightarrow> interval \<le> 0) \<and>
   start_cleanup retention interval first cticks c \<noteq> None"
  by (simp_all add: flushLoop_def start_cleanup_def cleanupLoop_def)

end
