(* ===== verification/Device_Auth.thy ===== *)
theory Device_Auth
  imports Go_Time Go_Json
begin

text \<open>
  internal/deviceauth/auth.go: signing and verifying device messages. A message is a JSON object;
  the model sees it as the source does, a map from field names to raw JSON values. Parameters:
  \<open>decode\<close> and \<open>encode\<close> (\<open>json.Unmarshal\<close> into and \<open>json.Marshal\<close> of such a map), \<open>decode_auth\<close>
  (\<open>json.Unmarshal\<close> into an \<open>Auth\<close>) and \<open>mac\<close> (the hexadecimal HMAC-SHA256 of a text under a
  secret). Errors are values of \<open>auth_error\<close>.

  Contents: the operations; parsing of the key list; what a verified message guarantees; the
  round trip of signing and verifying, under the laws of the codec.
\<close>

section \<open>Operations\<close>

definition Field :: string where "Field = ''auth''"

record Auth =
  au_Timestamp :: int
  au_Signature :: string

type_synonym Keys = "string \<rightharpoonup> string"

datatype auth_error =
    NoEquals string
  | EmptyIdOrSecret string
  | MissingKey string
  | BadPayload
  | NotAnObject
  | MissingAuth
  | BadAuth
  | AuthFieldsRequired
  | OutsideSkew
  | MarshalFailed
  | BadSignature

fun parse_parts :: "string list \<Rightarrow> Keys \<Rightarrow> auth_error + Keys" where
  "parse_parts [] keys = Inr keys"
| "parse_parts (raw # parts) keys =
     (let part = strings_TrimSpace raw in
      if part = [] then parse_parts parts keys
      else
        case strings_Cut (CHR ''='') part of (i, secret, ok) \<Rightarrow>
          if \<not> ok then Inl (NoEquals part)
          else
            let i' = strings_TrimSpace i; secret' = strings_TrimSpace secret in
            if i' = [] \<or> secret' = [] then Inl (EmptyIdOrSecret part)
            else parse_parts parts (keys(i' \<mapsto> secret')))"

definition ParseKeys :: "string \<Rightarrow> auth_error + Keys" where
  "ParseKeys raw = parse_parts (strings_Split (CHR '','') raw) Map.empty"

definition keys_Enabled :: "Keys \<Rightarrow> bool" where
  "keys_Enabled k \<longleftrightarrow> k \<noteq> Map.empty"

text \<open>\<open>mustJSON\<close> on an \<open>Auth\<close>; an empty signature is omitted.\<close>

definition mustJSON_Auth :: "Auth \<Rightarrow> string" where
  "mustJSON_Auth a =
     ''{'' @ json_string ''timestamp'' @ '':'' @ fmt_d (au_Timestamp a) @
     (if au_Signature a = [] then [] else '','' @ json_string ''signature'' @ '':'' @ json_string (au_Signature a)) @ ''}''"

type_synonym rawmsg = "string \<rightharpoonup> string"

text \<open>\<open>payloadMap\<close>: the JSON text null decodes without error into a nil map, \<open>Some None\<close>.\<close>

definition payloadMap :: "(string \<Rightarrow> rawmsg option option) \<Rightarrow> string \<Rightarrow> auth_error + rawmsg" where
  "payloadMap decode payload =
     (case decode payload of
        None \<Rightarrow> Inl BadPayload
      | Some None \<Rightarrow> Inl NotAnObject
      | Some (Some msg) \<Rightarrow> Inr msg)"

definition mac_input :: "string \<Rightarrow> string \<Rightarrow> string" where
  "mac_input topic canonical = topic @ [CHR 0x0A] @ canonical"

definition signature :: "(string \<Rightarrow> string \<Rightarrow> string) \<Rightarrow> string \<Rightarrow> string \<Rightarrow> string \<Rightarrow> string" where
  "signature mac topic canonical secret = mac secret (mac_input topic canonical)"

definition SignPayload ::
  "(string \<Rightarrow> rawmsg option option) \<Rightarrow> (rawmsg \<Rightarrow> string option) \<Rightarrow> (string \<Rightarrow> string \<Rightarrow> string) \<Rightarrow>
   string \<Rightarrow> string \<Rightarrow> string \<Rightarrow> time \<Rightarrow> auth_error + string" where
  "SignPayload decode encode mac topic payload secret now =
     (case payloadMap decode payload of
        Inl err \<Rightarrow> Inl err
      | Inr msg \<Rightarrow>
          let auth = \<lparr>au_Timestamp = time_unix_sec now, au_Signature = []\<rparr>;
              msg1 = msg(Field \<mapsto> mustJSON_Auth auth) in
          case encode msg1 of
            None \<Rightarrow> Inl MarshalFailed
          | Some canonical \<Rightarrow>
              let auth' = auth\<lparr>au_Signature := signature mac topic canonical secret\<rparr>;
                  msg2 = msg1(Field \<mapsto> mustJSON_Auth auth') in
              case encode msg2 of None \<Rightarrow> Inl MarshalFailed | Some p \<Rightarrow> Inr p)"

definition VerifyPayload ::
  "(string \<Rightarrow> rawmsg option option) \<Rightarrow> (rawmsg \<Rightarrow> string option) \<Rightarrow> (string \<Rightarrow> Auth option) \<Rightarrow>
   (string \<Rightarrow> string \<Rightarrow> string) \<Rightarrow> string \<Rightarrow> string \<Rightarrow> string \<Rightarrow> Keys \<Rightarrow> time \<Rightarrow> duration \<Rightarrow> auth_error option" where
  "VerifyPayload decode encode decode_auth mac topic deviceID payload keys now maxSkew =
     (if \<not> keys_Enabled keys then None
      else
        case keys deviceID of
          None \<Rightarrow> Some (MissingKey deviceID)
        | Some secret \<Rightarrow>
            (case payloadMap decode payload of
               Inl err \<Rightarrow> Some err
             | Inr msg \<Rightarrow>
                 (case msg Field of
                    None \<Rightarrow> Some MissingAuth
                  | Some rawAuth \<Rightarrow>
                      (case decode_auth rawAuth of
                         None \<Rightarrow> Some BadAuth
                       | Some auth \<Rightarrow>
                           if au_Timestamp auth = 0 \<or> au_Signature auth = [] then Some AuthFieldsRequired
                           else if maxSkew > 0 \<and>
                               (let ts = time_Unix (au_Timestamp auth) in
                                time_Sub now ts > maxSkew \<or> time_Sub ts now > maxSkew) then Some OutsideSkew
                           else
                             let expectedAuth = \<lparr>au_Timestamp = au_Timestamp auth, au_Signature = []\<rparr> in
                             case encode (msg(Field \<mapsto> mustJSON_Auth expectedAuth)) of
                               None \<Rightarrow> Some MarshalFailed
                             | Some canonical \<Rightarrow>
                                 if signature mac topic canonical secret \<noteq> au_Signature auth then Some BadSignature
                                 else None))))"

section \<open>The key list\<close>

text \<open>What a part of the list says, and what the list as a whole defines: a later part wins.\<close>

definition key_of_part :: "string \<Rightarrow> (string \<times> string) option" where
  "key_of_part raw =
     (case strings_Cut (CHR ''='') (strings_TrimSpace raw) of (i, secret, ok) \<Rightarrow>
        if ok \<and> strings_TrimSpace i \<noteq> [] \<and> strings_TrimSpace secret \<noteq> []
        then Some (strings_TrimSpace i, strings_TrimSpace secret) else None)"

definition blank :: "string \<Rightarrow> bool" where
  "blank s \<longleftrightarrow> strings_TrimSpace s = []"

lemma parse_parts_Inr:
  "parse_parts parts keys = Inr keys' \<longleftrightarrow>
    (\<forall>p \<in> set parts. blank p \<or> key_of_part p \<noteq> None) \<and>
    keys' = keys ++ map_of (rev (List.map_filter key_of_part (filter (\<lambda>p. \<not> blank p) parts)))"
proof (induction parts arbitrary: keys)
  case (Cons p ps)
  obtain i s ok where cut: "strings_Cut (CHR ''='') (strings_TrimSpace p) = (i, s, ok)" by (metis prod_cases3)
  show ?case
  proof (cases "blank p")
    case True
    with Cons show ?thesis by (simp add: blank_def)
  next
    case nb: False
    show ?thesis
    proof (cases "key_of_part p")
      case None
      with nb cut show ?thesis by (auto simp: blank_def key_of_part_def Let_def split: if_splits)
    next
      case (Some ks)
      with nb cut have step: "parse_parts (p # ps) keys = parse_parts ps (keys(fst ks \<mapsto> snd ks))"
        by (auto simp: blank_def key_of_part_def Let_def split: if_splits)
      have "keys(fst ks \<mapsto> snd ks) ++ m = keys ++ ([fst ks \<mapsto> snd ks] ++ m)" for m by simp
      with nb Some show ?thesis unfolding step Cons
        by (simp add: List.map_filter_def map_add_assoc [symmetric] map_of_append)
    qed
  qed
qed (auto simp: List.map_filter_def)

lemma key_of_part_Some: "key_of_part p = Some (i, s) \<Longrightarrow> i \<noteq> [] \<and> s \<noteq> [] \<and> strings_TrimSpace i = i \<and> strings_TrimSpace s = s"
  by (auto simp: key_of_part_def split: prod.splits if_splits)

definition plain_word :: "string \<Rightarrow> bool" where
  "plain_word s \<longleftrightarrow> s \<noteq> [] \<and> plain_char (hd s) \<and> plain_char (last s)"

lemma key_of_part_plain:
  assumes "plain_word i" "plain_word s" "CHR ''='' \<notin> set i"
  shows "key_of_part (i @ ''='' @ s) = Some (i, s)" "\<not> blank (i @ ''='' @ s)"
proof -
  have trim: "strings_TrimSpace (i @ ''='' @ s) = i @ ''='' @ s"
    using assms by (intro strings_TrimSpace_plain) (auto simp: plain_word_def)
  have "strings_TrimSpace i = i" "strings_TrimSpace s = s"
    using assms by (simp_all add: strings_TrimSpace_plain plain_word_def)
  with trim assms show "key_of_part (i @ ''='' @ s) = Some (i, s)" by (simp add: key_of_part_def plain_word_def)
  show "\<not> blank (i @ ''='' @ s)" unfolding blank_def trim by simp
qed

section \<open>Verification\<close>

text \<open>The age check: both differences saturate, so it is the distance that counts.\<close>

lemma skew_check:
  "0 < maxSkew \<Longrightarrow> \<bar>now - ts\<bar> \<le> maxSkew \<Longrightarrow> \<not> (time_Sub now ts > maxSkew \<or> time_Sub ts now > maxSkew)"
  by (auto simp: time_Sub_def sat64_def)

lemma skew_check_conv:
  "0 < maxSkew \<Longrightarrow> maxSkew < 2 ^ 63 - 1 \<Longrightarrow> \<not> (time_Sub now ts > maxSkew \<or> time_Sub ts now > maxSkew) \<Longrightarrow>
    \<bar>now - ts\<bar> \<le> maxSkew"
  by (simp add: time_Sub_def not_less sat64_le_iff int64_ok_def) linarith

text \<open>What decoding the signed text must give back.\<close>

definition reads_back ::
  "(string \<Rightarrow> rawmsg option option) \<Rightarrow> (rawmsg \<Rightarrow> string option) \<Rightarrow> (string \<Rightarrow> Auth option) \<Rightarrow> rawmsg \<Rightarrow> Auth \<Rightarrow> string \<Rightarrow> bool"
where
  "reads_back decode encode decode_auth msg a p \<longleftrightarrow>
     (\<exists>msg' r. decode p = Some (Some msg') \<and> msg' Field = Some r \<and> decode_auth r = Some a \<and>
        (\<forall>x. encode (msg'(Field \<mapsto> x)) = encode (msg(Field \<mapsto> x))))"

lemma keys_Enabled_Some: "keys i = Some s \<Longrightarrow> keys_Enabled keys"
  by (auto simp: keys_Enabled_def)

text \<open>What the codec must do for a payload: encode it with both auth values and read the signed text back.\<close>

definition codec_signs where
  "codec_signs decode encode decode_auth mac topic secret now payload p \<longleftrightarrow>
     (\<exists>msg canonical. decode payload = Some (Some msg) \<and>
        encode (msg(Field \<mapsto> mustJSON_Auth \<lparr>au_Timestamp = time_unix_sec now, au_Signature = []\<rparr>)) = Some canonical \<and>
        encode (msg(Field \<mapsto> mustJSON_Auth \<lparr>au_Timestamp = time_unix_sec now,
          au_Signature = mac secret (topic @ [CHR 0x0A] @ canonical)\<rparr>)) = Some p \<and>
        reads_back decode encode decode_auth msg \<lparr>au_Timestamp = time_unix_sec now,
          au_Signature = mac secret (topic @ [CHR 0x0A] @ canonical)\<rparr> p \<and>
        mac secret (topic @ [CHR 0x0A] @ canonical) \<noteq> [])"

lemma sign_verify:
  assumes "codec_signs decode encode decode_auth mac topic secret now payload p"
    and "time_unix_sec now \<noteq> 0" "keys deviceID = Some secret" "\<bar>later - time_Unix (time_unix_sec now)\<bar> \<le> maxSkew"
  shows "SignPayload decode encode mac topic payload secret now = Inr p"
    and "VerifyPayload decode encode decode_auth mac topic deviceID p keys later maxSkew = None"
proof -
  from assms(1) obtain msg canonical where c: "decode payload = Some (Some msg)"
    "encode (msg(Field \<mapsto> mustJSON_Auth \<lparr>au_Timestamp = time_unix_sec now, au_Signature = []\<rparr>)) = Some canonical"
    "encode (msg(Field \<mapsto> mustJSON_Auth \<lparr>au_Timestamp = time_unix_sec now,
       au_Signature = mac secret (topic @ [CHR 0x0A] @ canonical)\<rparr>)) = Some p"
    "reads_back decode encode decode_auth msg \<lparr>au_Timestamp = time_unix_sec now,
       au_Signature = mac secret (topic @ [CHR 0x0A] @ canonical)\<rparr> p"
    "mac secret (topic @ [CHR 0x0A] @ canonical) \<noteq> []"
    unfolding codec_signs_def by blast
  show "SignPayload decode encode mac topic payload secret now = Inr p"
    using c(1-3) by (simp add: SignPayload_def payloadMap_def signature_def mac_input_def Let_def)
  from c(4) obtain msg' r where rb: "decode p = Some (Some msg')" "msg' Field = Some r"
    "decode_auth r = Some \<lparr>au_Timestamp = time_unix_sec now, au_Signature = mac secret (topic @ [CHR 0x0A] @ canonical)\<rparr>"
    "\<And>x. encode (msg'(Field \<mapsto> x)) = encode (msg(Field \<mapsto> x))"
    unfolding reads_back_def by blast
  have "\<not> (maxSkew > 0 \<and> (time_Sub later (time_Unix (time_unix_sec now)) > maxSkew \<or>
      time_Sub (time_Unix (time_unix_sec now)) later > maxSkew))"
    using skew_check assms(4) by blast
  then show "VerifyPayload decode encode decode_auth mac topic deviceID p keys later maxSkew = None"
    using rb c(2,5) assms(2,3) keys_Enabled_Some [of keys deviceID secret]
    by (simp add: VerifyPayload_def payloadMap_def signature_def mac_input_def Let_def)
qed

lemma newline_split:
  assumes "c \<notin> set ys" "c \<notin> set ys'"
  shows "xs @ c # ys = xs' @ c # ys' \<longleftrightarrow> xs = xs' \<and> ys = ys'"
proof (induction xs arbitrary: xs')
  case Nil
  then show ?case using assms by (cases xs') auto
next
  case (Cons x xs)
  show ?case
  proof (cases xs')
    case Nil
    with assms show ?thesis by auto
  next
    case (Cons y zs)
    with Cons.IH [of zs] show ?thesis by simp
  qed
qed

text \<open>What an accepted payload carries.\<close>

lemma verified_fields:
  assumes "VerifyPayload decode encode decode_auth mac topic deviceID payload keys now maxSkew = None"
    "keys \<noteq> Map.empty" "maxSkew < 2 ^ 63 - 1"
  shows "\<exists>secret msg rawAuth auth canonical. keys deviceID = Some secret \<and> decode payload = Some (Some msg) \<and>
    msg Field = Some rawAuth \<and> decode_auth rawAuth = Some auth \<and> au_Timestamp auth \<noteq> 0 \<and>
    (0 < maxSkew \<longrightarrow> \<bar>now - time_Unix (au_Timestamp auth)\<bar> \<le> maxSkew) \<and>
    encode (msg(Field \<mapsto> mustJSON_Auth \<lparr>au_Timestamp = au_Timestamp auth, au_Signature = []\<rparr>)) = Some canonical \<and>
    au_Signature auth = mac secret (topic @ [CHR 0x0A] @ canonical)"
proof -
  obtain secret msg rawAuth auth canonical where
    *: "keys deviceID = Some secret" "decode payload = Some (Some msg)" "msg Field = Some rawAuth"
      "decode_auth rawAuth = Some auth" "au_Timestamp auth \<noteq> 0"
      "maxSkew > 0 \<longrightarrow> \<not> (time_Sub now (time_Unix (au_Timestamp auth)) > maxSkew \<or> time_Sub (time_Unix (au_Timestamp auth)) now > maxSkew)"
      "encode (msg(Field \<mapsto> mustJSON_Auth \<lparr>au_Timestamp = au_Timestamp auth, au_Signature = []\<rparr>)) = Some canonical"
      "signature mac topic canonical secret = au_Signature auth"
    using assms(1,2)
    by (auto simp: VerifyPayload_def payloadMap_def keys_Enabled_def Let_def not_less split: option.splits if_splits)
  moreover from *(6) assms(3) have "0 < maxSkew \<longrightarrow> \<bar>now - time_Unix (au_Timestamp auth)\<bar> \<le> maxSkew"
    by (auto intro!: skew_check_conv)
  ultimately show ?thesis by (auto simp: signature_def mac_input_def)
qed

section \<open>Properties\<close>

text \<open>
  C22. What a verified message guarantees, whatever the codec and the MAC: when keys are configured
  and \<open>VerifyPayload\<close> accepts, the device has a key, the payload is an object with an auth field
  of non-zero timestamp no further than the allowed skew from now, and the signature is the MAC
  under that device's key of the topic and the message with only the signature taken out.
\<close>
theorem verify_sound:
  assumes "VerifyPayload decode encode decode_auth mac topic deviceID payload keys now maxSkew = None"
    "keys \<noteq> Map.empty" "maxSkew < 2 ^ 63 - 1"
  shows "\<exists>secret msg rawAuth auth canonical. keys deviceID = Some secret \<and> decode payload = Some (Some msg) \<and>
    msg Field = Some rawAuth \<and> decode_auth rawAuth = Some auth \<and> au_Timestamp auth \<noteq> 0 \<and>
    (0 < maxSkew \<longrightarrow> \<bar>now - time_Unix (au_Timestamp auth)\<bar> \<le> maxSkew) \<and>
    encode (msg(Field \<mapsto> mustJSON_Auth \<lparr>au_Timestamp = au_Timestamp auth, au_Signature = []\<rparr>)) = Some canonical \<and>
    au_Signature auth = mac secret (topic @ [CHR 0x0A] @ canonical)"
  using assms by (rule verified_fields)

text \<open>
  C23. Signing and verifying round trip: what \<open>SignPayload\<close> makes is accepted by \<open>VerifyPayload\<close> for
  the same topic under the same key, at any time within the allowed skew, provided the JSON codec
  reads back the signed text: the same auth value and, with any auth value put in, the same
  encoding as the original message.
\<close>
theorem sign_verify_roundtrip:
  assumes "decode payload = Some (Some msg)"
    and "encode (msg(Field \<mapsto> mustJSON_Auth \<lparr>au_Timestamp = time_unix_sec now, au_Signature = []\<rparr>)) = Some canonical"
    and "encode (msg(Field \<mapsto> mustJSON_Auth \<lparr>au_Timestamp = time_unix_sec now,
           au_Signature = mac secret (topic @ [CHR 0x0A] @ canonical)\<rparr>)) = Some p"
    and "reads_back decode encode decode_auth msg \<lparr>au_Timestamp = time_unix_sec now,
           au_Signature = mac secret (topic @ [CHR 0x0A] @ canonical)\<rparr> p"
    and "time_unix_sec now \<noteq> 0" "mac secret (topic @ [CHR 0x0A] @ canonical) \<noteq> []" "keys deviceID = Some secret"
    and "\<bar>later - time_Unix (time_unix_sec now)\<bar> \<le> maxSkew"
  shows "SignPayload decode encode mac topic payload secret now = Inr p \<and>
    VerifyPayload decode encode decode_auth mac topic deviceID p keys later maxSkew = None"
  using sign_verify [of decode encode decode_auth mac topic secret now payload p keys deviceID later maxSkew] assms
  unfolding codec_signs_def by blast

theorem sign_verify_roundtrip_witness:
  "let decode = (\<lambda>p. if p = ''{}'' then Some (Some Map.empty) else Some (Some [Field \<mapsto> p])); encode = (\<lambda>m. m Field);
       mac = (\<lambda>_ _. ''ab''); decode_auth = (\<lambda>_. Some \<lparr>au_Timestamp = 1000, au_Signature = ''ab''\<rparr>) in
   \<exists>p. SignPayload decode encode mac ''t'' ''{}'' ''k'' (time_Unix 1000) = Inr p \<and>
     VerifyPayload decode encode decode_auth mac ''t'' ''d1'' p [''d1'' \<mapsto> ''k''] (time_Unix 1030) (60 * Second) = None"
proof -
  have t: "time_unix_sec (time_Unix 1000) = 1000" "\<bar>time_Unix 1030 - time_Unix 1000\<bar> \<le> 60 * Second"
    by (simp_all add: time_unix_sec_def time_Unix_def wrap64_def)
  have "mustJSON_Auth a \<noteq> ''{}''" for a by (simp add: mustJSON_Auth_def)
  then show ?thesis
    unfolding Let_def
    by (intro exI [of _ "mustJSON_Auth \<lparr>au_Timestamp = 1000, au_Signature = ''ab''\<rparr>"]
        sign_verify_roundtrip [where msg = Map.empty and canonical = "mustJSON_Auth \<lparr>au_Timestamp = 1000, au_Signature = []\<rparr>"])
      (use t in \<open>simp_all add: reads_back_def\<close>)
qed

theorem verify_sound_witness:
  "VerifyPayload (\<lambda>p. Some (Some [Field \<mapsto> p])) (\<lambda>m. m Field) (\<lambda>_. Some \<lparr>au_Timestamp = 1000, au_Signature = ''ab''\<rparr>)
     (\<lambda>_ _. ''ab'') ''t'' ''d1'' ''x'' [''d1'' \<mapsto> ''k''] (time_Unix 1030) (60 * Second) = None \<and>
   \<bar>time_Unix 1030 - time_Unix 1000\<bar> \<le> 60 * Second"
proof
  show v: "VerifyPayload (\<lambda>p. Some (Some [Field \<mapsto> p])) (\<lambda>m. m Field) (\<lambda>_. Some \<lparr>au_Timestamp = 1000, au_Signature = ''ab''\<rparr>)
     (\<lambda>_ _. ''ab'') ''t'' ''d1'' ''x'' [''d1'' \<mapsto> ''k''] (time_Unix 1030) (60 * Second) = None"
    by (simp add: VerifyPayload_def keys_Enabled_Some payloadMap_def signature_def time_Unix_def wrap64_def time_Sub_def
        sat64_def Let_def)
  from verify_sound [OF v] show "\<bar>time_Unix 1030 - time_Unix 1000\<bar> \<le> 60 * Second" by auto
qed

text \<open>
  The signature binds the topic: for canonical texts without a line break (compact JSON has
  none) the authenticated texts of two messages agree only when both topic and message agree, so
  a signed message cannot be replayed on the topic of another device or kind.
\<close>
theorem mac_input_binds_topic:
  assumes "CHR 0x0A \<notin> set canonical" "CHR 0x0A \<notin> set canonical'"
  shows "mac_input topic canonical = mac_input topic' canonical' \<longleftrightarrow> topic = topic' \<and> canonical = canonical'"
  using newline_split [OF assms] by (simp add: mac_input_def)

theorem mac_input_binds_topic_witness: "mac_input ''a'' ''{}'' \<noteq> mac_input ''b'' ''{}''"
  by (subst mac_input_binds_topic) simp_all

text \<open>
  \<open>ParseKeys\<close> accepts exactly the comma-separated lists whose non-blank parts have an equals
  sign with a non-blank id before the first one and a non-blank secret after it; the keys are the
  trimmed pairs, a later part replacing an earlier one of the same id. A list written from pairs
  whose ids and secrets start and end with printable characters, without comma, and without equals
  sign in the id, parses to those pairs.
\<close>
theorem parse_keys_spec:
  "(ParseKeys raw = Inr keys \<longleftrightarrow>
     (\<forall>p \<in> set (strings_Split (CHR '','') raw). blank p \<or> key_of_part p \<noteq> None) \<and>
     keys = map_of (rev (List.map_filter key_of_part (filter (\<lambda>p. \<not> blank p) (strings_Split (CHR '','') raw))))) \<and>
   (kvs \<noteq> [] \<and> (\<forall>(i, s) \<in> set kvs. plain_word i \<and> plain_word s \<and> CHR ''='' \<notin> set i \<and> CHR '','' \<notin> set i \<union> set s) \<longrightarrow>
     ParseKeys (strings_Join (map (\<lambda>(i, s). i @ ''='' @ s) kvs) '','') = Inr (map_of (rev kvs)))"
proof -
  have spec: "ParseKeys raw = Inr keys \<longleftrightarrow>
     (\<forall>p \<in> set (strings_Split (CHR '','') raw). blank p \<or> key_of_part p \<noteq> None) \<and>
     keys = map_of (rev (List.map_filter key_of_part (filter (\<lambda>p. \<not> blank p) (strings_Split (CHR '','') raw))))" for raw keys
    by (simp add: ParseKeys_def parse_parts_Inr)
  have "ParseKeys (strings_Join (map (\<lambda>(i, s). i @ ''='' @ s) kvs) '','') = Inr (map_of (rev kvs))"
    if ne: "kvs \<noteq> []"
      and ok: "\<forall>(i, s) \<in> set kvs. plain_word i \<and> plain_word s \<and> CHR ''='' \<notin> set i \<and> CHR '','' \<notin> set i \<union> set s"
  proof -
    let ?f = "\<lambda>(i, s). i @ ''='' @ s"
    have part: "key_of_part (?f kv) = Some kv" "\<not> blank (?f kv)" "CHR '','' \<notin> set (?f kv)" if "kv \<in> set kvs" for kv
      using ok that key_of_part_plain [of "fst kv" "snd kv"] by (auto simp: split_beta)
    have split: "strings_Split (CHR '','') (strings_Join (map ?f kvs) '','') = map ?f kvs"
      using ne part(3) by (intro strings_Split_Join) auto
    have "filter (\<lambda>p. \<not> blank p) (map ?f kvs) = map ?f kvs" using part(2) by (auto simp: filter_id_conv)
    moreover have "List.map_filter key_of_part (map ?f kvs) = kvs"
      using part(1) by (induction kvs) (auto simp: List.map_filter_def)
    ultimately show ?thesis using part unfolding spec split by auto
  qed
  with spec show ?thesis by blast
qed

theorem parse_keys_spec_witness:
  "ParseKeys ''pv_01=pv-secret,load_01=a=b'' = Inr [''pv_01'' \<mapsto> ''pv-secret'', ''load_01'' \<mapsto> ''a=b'']"
  using conjunct2 [OF parse_keys_spec, rule_format, of "[(''pv_01'', ''pv-secret''), (''load_01'', ''a=b'')]"]
  by (simp add: plain_word_def plain_char_def less_eq_char_def fun_upd_twist)

end
