(* ===== verification/Mqtt_Client.thy ===== *)
theory Mqtt_Client
  imports Device_Auth Topic Store "HOL-Library.Word"
begin

text \<open>
  internal/mqtt/client.go and tls.go: the platform's MQTT client. It publishes commands and files
  what the devices send into the state store. Arguments: the broker's answers; the JSON codecs and
  the MAC (one record \<open>MqttEnv\<close>); the readings of the clock in the order they are made; the
  success of the Redis write. The calls to the time-series writer and to the command recorder are
  logged in order; their errors are only logged by the source and change nothing.

  Contents: the operations; the invariant of the client; the interface \<open>commander\<close> the scheduler
  and the API rely on, with its interpretation; properties.
\<close>

section \<open>State\<close>

datatype client_effect =
    InfluxWrite Telemetry
  | RecordIssued string Device Command
  | RecordAck string DeviceType string CommandAck
  | RecordEvent DeviceEvent

record Client =
  mc_store :: Store
  mc_redis :: redis_db
  mc_keys :: Keys
  mc_maxSkew :: duration
  mc_rejects :: "string \<rightharpoonup> 64 word"
  mc_ts :: bool
  mc_recorder :: bool
  mc_effects :: "client_effect list"

record MqttEnv =
  me_decode :: "string \<Rightarrow> rawmsg option option"
  me_encode :: "rawmsg \<Rightarrow> string option"
  me_decode_auth :: "string \<Rightarrow> Auth option"
  me_mac :: "string \<Rightarrow> string \<Rightarrow> string"
  me_telemetry :: "string \<Rightarrow> Telemetry option"
  me_ack :: "string \<Rightarrow> CommandAck option"
  me_event :: "string \<Rightarrow> DeviceEvent option"
  me_marshal_command :: "Command \<Rightarrow> string option"
  me_marshal_telemetry :: "Telemetry \<Rightarrow> string option"

definition NewClient :: "duration \<Rightarrow> Store \<Rightarrow> redis_db \<Rightarrow> bool \<Rightarrow> Client" where
  "NewClient maxSkew store db ts =
     \<lparr>mc_store = store, mc_redis = db, mc_keys = Map.empty, mc_maxSkew = maxSkew,
      mc_rejects = Map.empty, mc_ts = ts, mc_recorder = False, mc_effects = []\<rparr>"

definition WithCommandRecorder :: "Client \<Rightarrow> Client" where
  "WithCommandRecorder c = c\<lparr>mc_recorder := True\<rparr>"

section \<open>Connecting\<close>

text \<open>
  \<open>NewTLSConfig\<close>: \<open>read_ca\<close> is the content of a file or an error, \<open>append_pem\<close> whether it holds a
  certificate, \<open>load_pair\<close> the client certificate or an error.
\<close>

record TLSFiles =
  tf_CAFile :: string
  tf_CertFile :: string
  tf_KeyFile :: string
  tf_InsecureSkipVerify :: bool

record 'cert TLSConfig =
  tc_MinVersion :: string
  tc_InsecureSkipVerify :: bool
  tc_RootCAs :: "string option"
  tc_Certificates :: "'cert list"

definition NewTLSConfig ::
  "(string \<Rightarrow> string + string) \<Rightarrow> (string \<Rightarrow> bool) \<Rightarrow> (string \<Rightarrow> string \<Rightarrow> string + 'cert) \<Rightarrow> TLSFiles \<Rightarrow> string + 'cert TLSConfig option"
where
  "NewTLSConfig read_ca append_pem load_pair files =
     (if tf_CAFile files = [] \<and> tf_CertFile files = [] \<and> tf_KeyFile files = [] \<and> \<not> tf_InsecureSkipVerify files then Inr None
      else
        let cfg0 = \<lparr>tc_MinVersion = ''1.2'', tc_InsecureSkipVerify = tf_InsecureSkipVerify files,
                    tc_RootCAs = None, tc_Certificates = []\<rparr>;
            step1 = (if tf_CAFile files \<noteq> [] then
                (case read_ca (tf_CAFile files) of
                   Inl err \<Rightarrow> Inl (''read mqtt ca file: '' @ err)
                 | Inr pem \<Rightarrow>
                     if \<not> append_pem pem then Inl ''parse mqtt ca file: no certificates found''
                     else Inr (cfg0\<lparr>tc_RootCAs := Some pem\<rparr>))
              else Inr cfg0) in
        case step1 of
          Inl err \<Rightarrow> Inl err
        | Inr cfg \<Rightarrow>
            if tf_CertFile files \<noteq> [] \<or> tf_KeyFile files \<noteq> [] then
              if tf_CertFile files = [] \<or> tf_KeyFile files = [] then
                Inl ''mqtt client certificate and key must be configured together''
              else
                (case load_pair (tf_CertFile files) (tf_KeyFile files) of
                   Inl err \<Rightarrow> Inl (''load mqtt client certificate: '' @ err)
                 | Inr cert \<Rightarrow> Inr (Some (cfg\<lparr>tc_Certificates := [cert]\<rparr>)))
            else Inr (Some cfg))"

text \<open>
  \<open>Connect\<close>: the key list, the TLS configuration and the broker's answer can each fail. The client
  has the parsed keys as soon as the list is accepted. The subscriptions of the connect handler
  are \<open>connect_topics\<close>.
\<close>

datatype connect_error = KeysError auth_error | TLSError string | BrokerError string

definition connect_topics :: "string \<Rightarrow> string list" where
  "connect_topics siteID = [topic_Wildcard siteID, topic_CommandAckWildcard siteID]"

definition client_Connect ::
  "string \<Rightarrow> string + 'cert TLSConfig option \<Rightarrow> string option \<Rightarrow> Client \<Rightarrow> Client \<times> connect_error option" where
  "client_Connect deviceKeys tls broker c =
     (case ParseKeys deviceKeys of
        Inl err \<Rightarrow> (c, Some (KeysError err))
      | Inr keys \<Rightarrow>
          let c1 = c\<lparr>mc_keys := keys\<rparr> in
          case tls of
            Inl err \<Rightarrow> (c1, Some (TLSError err))
          | Inr _ \<Rightarrow> (case broker of Some err \<Rightarrow> (c1, Some (BrokerError err)) | None \<Rightarrow> (c1, None)))"

text \<open>\<open>Healthy\<close>: the argument is whether the client exists and is connected.\<close>

definition client_Healthy :: "bool \<Rightarrow> string option" where
  "client_Healthy conn = (if \<not> conn then Some ''mqtt disconnected'' else None)"

section \<open>Publishing a command\<close>

datatype publish_error = CmdMarshalError | PublishError string

definition record_issued :: "time \<Rightarrow> string \<Rightarrow> Device \<Rightarrow> Command \<Rightarrow> Client \<Rightarrow> Client" where
  "record_issued now siteID d cmd c =
     (let c1 = c\<lparr>mc_store := PutCommandIssued now (mc_store c) siteID d cmd\<rparr> in
      if mc_recorder c1 then c1\<lparr>mc_effects := mc_effects c1 @ [RecordIssued siteID d cmd]\<rparr> else c1)"

definition PublishCommand ::
  "MqttEnv \<Rightarrow> (string \<Rightarrow> string \<Rightarrow> string option) \<Rightarrow> time \<Rightarrow> string \<Rightarrow> Device \<Rightarrow> Command \<Rightarrow> Client \<Rightarrow> Client \<times> publish_error option"
where
  "PublishCommand env broker now siteID d cmd c =
     (case me_marshal_command env cmd of
        None \<Rightarrow> (c, Some CmdMarshalError)
      | Some payload \<Rightarrow>
          let t = topic_Command siteID (d_Type d) (d_ID d) in
          case broker t payload of
            Some err \<Rightarrow> (c, Some (PublishError err))
          | None \<Rightarrow> (record_issued now siteID d cmd c, None))"

section \<open>Receiving a message\<close>

definition requiresDeviceAuth :: "string \<Rightarrow> bool" where
  "requiresDeviceAuth kind \<longleftrightarrow> kind \<in> {''telemetry'', ''status'', ''event'', ''command/ack''}"

definition incrementRejected :: "string \<Rightarrow> Client \<Rightarrow> Client" where
  "incrementRejected reason c =
     c\<lparr>mc_rejects := (mc_rejects c)(reason \<mapsto> (case mc_rejects c reason of None \<Rightarrow> 0 | Some n \<Rightarrow> n) + 1)\<rparr>"

definition RejectedMessages :: "Client \<Rightarrow> (string \<rightharpoonup> 64 word)" where
  "RejectedMessages c = mc_rejects c"

definition handle_telemetry ::
  "MqttEnv \<Rightarrow> bool \<Rightarrow> string list \<Rightarrow> (nat \<Rightarrow> time) \<Rightarrow> Parsed \<Rightarrow> string \<Rightarrow> Client \<Rightarrow> Client" where
  "handle_telemetry env redis_ok ks clk parsed payload c =
     (case me_telemetry env payload of
        None \<Rightarrow> c
      | Some t \<Rightarrow>
          let tele = t\<lparr>t_SiteID := tp_SiteID parsed, t_DeviceID := tp_DeviceID parsed, t_Type := tp_DeviceType parsed\<rparr>;
              tele' = (if t_Timestamp tele = 0 then tele\<lparr>t_Timestamp := time_unix_sec (clk 1)\<rparr> else tele) in
          case PutTelemetry (me_marshal_telemetry env) redis_ok ks (mc_store c) tele' (mc_redis c) of
            (s, db) \<Rightarrow>
              let c1 = c\<lparr>mc_store := s, mc_redis := db\<rparr> in
              if mc_ts c1 then c1\<lparr>mc_effects := mc_effects c1 @ [InfluxWrite tele']\<rparr> else c1)"

definition handle_ack :: "MqttEnv \<Rightarrow> (nat \<Rightarrow> time) \<Rightarrow> Parsed \<Rightarrow> string \<Rightarrow> Client \<Rightarrow> Client" where
  "handle_ack env clk parsed payload c =
     (case me_ack env payload of
        None \<Rightarrow> c
      | Some ack \<Rightarrow>
          let c1 = c\<lparr>mc_store := store_PutCommandAck (clk 1) (mc_store c) (tp_DeviceID parsed) ack\<rparr> in
          if mc_recorder c1 then
            c1\<lparr>mc_effects := mc_effects c1 @ [RecordAck (tp_SiteID parsed) (tp_DeviceType parsed) (tp_DeviceID parsed) ack]\<rparr>
          else c1)"

definition handle_event :: "MqttEnv \<Rightarrow> (nat \<Rightarrow> time) \<Rightarrow> Parsed \<Rightarrow> string \<Rightarrow> Client \<Rightarrow> Client" where
  "handle_event env clk parsed payload c =
     (case me_event env payload of
        None \<Rightarrow> c
      | Some e \<Rightarrow>
          let e1 = e\<lparr>e_SiteID := tp_SiteID parsed, e_DeviceID := tp_DeviceID parsed, e_DeviceType := tp_DeviceType parsed\<rparr>;
              e2 = (if e_Timestamp e1 = 0 then e1\<lparr>e_Timestamp := time_unix_sec (clk 1)\<rparr> else e1);
              e3 = (if time_IsZero (e_CreatedAt e2) then e2\<lparr>e_CreatedAt := clk 2\<rparr> else e2);
              e4 = (if e_EventID e3 = [] then e3\<lparr>e_EventID := e_DeviceID e3 @ ''-'' @ fmt_d (e_Timestamp e3)\<rparr> else e3);
              c1 = c\<lparr>mc_store := PutEvent (mc_store c) e4\<rparr> in
          if mc_recorder c1 then c1\<lparr>mc_effects := mc_effects c1 @ [RecordEvent e4]\<rparr> else c1)"

definition handleMessage ::
  "MqttEnv \<Rightarrow> bool \<Rightarrow> string list \<Rightarrow> (nat \<Rightarrow> time) \<Rightarrow> string \<Rightarrow> string \<Rightarrow> Client \<Rightarrow> Client" where
  "handleMessage env redis_ok ks clk topic payload c =
     (case topic_Parse topic of
        None \<Rightarrow> c
      | Some parsed \<Rightarrow>
          if requiresDeviceAuth (tp_Kind parsed) \<and>
             VerifyPayload (me_decode env) (me_encode env) (me_decode_auth env) (me_mac env)
               topic (tp_DeviceID parsed) payload (mc_keys c) (clk 0) (mc_maxSkew c) \<noteq> None
          then incrementRejected ''auth'' c
          else if tp_Kind parsed = ''telemetry'' then handle_telemetry env redis_ok ks clk parsed payload c
          else if tp_Kind parsed = ''command/ack'' then handle_ack env clk parsed payload c
          else if tp_Kind parsed = ''command'' then c
          else if tp_Kind parsed = ''event'' then handle_event env clk parsed payload c
          else c)"

section \<open>Invariant\<close>

inductive client_step :: "MqttEnv \<Rightarrow> Client \<Rightarrow> Client \<Rightarrow> bool" for env where
  message: "client_step env c (handleMessage env redis_ok ks clk topic payload c)"
| publish: "client_step env c (fst (PublishCommand env broker now siteID d cmd c))"
| upsert: "client_step env c (c\<lparr>mc_store := UpsertDevice now (mc_store c) d\<rparr>)"

definition client_inv :: "Client \<Rightarrow> bool" where
  "client_inv c \<longleftrightarrow> store_inv (mc_store c)"

lemmas store_inv_steps =
  store_inv_step [OF store_step.put_telemetry] store_inv_step [OF store_step.ack]
  store_inv_step [OF store_step.put_event] store_inv_step [OF store_step.issued]
  store_inv_step [OF store_step.upsert]

lemma handle_inv:
  assumes "client_inv c"
  shows "client_inv (handle_telemetry env ok ks clk parsed payload c)" "client_inv (handle_ack env clk parsed payload c)"
    "client_inv (handle_event env clk parsed payload c)" "client_inv (incrementRejected reason c)"
    "client_inv (record_issued now siteID d cmd c)"
  using assms
  by (simp_all add: client_inv_def handle_telemetry_def handle_ack_def handle_event_def incrementRejected_def
      record_issued_def Let_def split_beta store_inv_steps split: option.split)

interpretation client: keeps_invariant "client_step env" client_inv for env
proof
  fix c c' assume inv: "client_inv c" and "client_step env c c'"
  from this(2) show "client_inv c'"
  proof cases
    case (message redis_ok ks clk topic payload)
    with inv show ?thesis by (simp add: handleMessage_def handle_inv split: option.split)
  next
    case (publish broker now siteID d cmd)
    with inv show ?thesis by (simp add: PublishCommand_def Let_def handle_inv split: option.split)
  next
    case (upsert now d)
    with inv show ?thesis by (simp add: client_inv_def store_inv_steps)
  qed
qed

section \<open>Interface: a commander\<close>

text \<open>
  What the scheduler and the API rely on when they publish a command: a failed publish leaves no
  trace, a successful one is the newest entry of the command history.
\<close>

locale commander =
  fixes pub :: "'c \<Rightarrow> 'x \<Rightarrow> 'c \<times> 'e option"
    and issued :: "'c \<Rightarrow> CommandRecord list"
    and record_of :: "'x \<Rightarrow> CommandRecord"
    and bound :: nat
  assumes failed: "snd (pub c x) = Some e \<Longrightarrow> fst (pub c x) = c"
    and sent: "snd (pub c x) = None \<Longrightarrow> issued (fst (pub c x)) = take bound (record_of x # issued c)"
begin

text \<open>The commands of a sequence that went out, in order.\<close>

fun accepted :: "'c \<Rightarrow> 'x list \<Rightarrow> 'x list" where
  "accepted c [] = []"
| "accepted c (x # xs) = (if snd (pub c x) = None then x # accepted (fst (pub c x)) xs else accepted (fst (pub c x)) xs)"

lemma history:
  "length (issued c) \<le> bound \<Longrightarrow>
    issued (foldl (\<lambda>c x. fst (pub c x)) c xs) = take bound (rev (map record_of (accepted c xs)) @ issued c)"
proof (induction xs arbitrary: c)
  case (Cons x xs)
  show ?case
  proof (cases "snd (pub c x)")
    case None
    then have "length (issued (fst (pub c x))) \<le> bound" by (simp add: sent)
    with Cons None show ?thesis by (simp add: sent take_append min_def)
  next
    case (Some e)
    with Cons failed [OF Some] show ?thesis by simp
  qed
qed simp

end

interpretation mqtt: commander
    "\<lambda>c (broker, now, siteID, d, cmd). PublishCommand env broker now siteID d cmd c"
    "\<lambda>c. Commands (mc_store c)" "\<lambda>(broker, now, siteID, d, cmd). issuedRecord now siteID d cmd" 200 for env
  by unfold_locales
    (auto simp: PublishCommand_def record_issued_def PutCommandIssued_def Commands_def push_front_capped_take Let_def
      split: option.splits)

section \<open>Facts the properties rest on\<close>

lemma ack_topic:
  assumes "slash_free site" "slash_free (d_Type d)" "slash_free (d_ID d)"
  shows "topic_Parse (topic_Command site (d_Type d) (d_ID d) @ ''/ack'') =
    Some \<lparr>tp_SiteID = site, tp_DeviceType = d_Type d, tp_DeviceID = d_ID d, tp_Kind = ''command/ack''\<rparr>"
  using topic_Parse_kind2 [OF assms, of "''command''" "''ack''"] by (simp add: topic_Command_def)

lemma handle_ack_store:
  assumes "me_ack env payload = Some ack"
  shows "mc_store (handle_ack env clk parsed payload c) = store_PutCommandAck (clk 1) (mc_store c) (tp_DeviceID parsed) ack"
  using assms by (simp add: handle_ack_def Let_def)

text \<open>A message of the kind command/ack that passes the authentication.\<close>

definition accepted_ack where
  "accepted_ack env clk c topic payload dev ack \<longleftrightarrow>
     VerifyPayload (me_decode env) (me_encode env) (me_decode_auth env) (me_mac env) topic dev payload
       (mc_keys c) (clk 0) (mc_maxSkew c) = None \<and> me_ack env payload = Some ack"

lemma handleMessage_ack:
  assumes "slash_free site" "slash_free (d_Type d)" "slash_free (d_ID d)"
    "accepted_ack env clk c (topic_Command site (d_Type d) (d_ID d) @ ''/ack'') payload (d_ID d) ack"
  shows "mc_store (handleMessage env ok ks clk (topic_Command site (d_Type d) (d_ID d) @ ''/ack'') payload c) =
    store_PutCommandAck (clk 1) (mc_store c) (d_ID d) ack"
  using assms(4) by (simp add: handleMessage_def ack_topic [OF assms(1-3)] accepted_ack_def handle_ack_store)

lemma PublishCommand_ack:
  assumes "slash_free site" "slash_free (d_Type d)" "slash_free (d_ID d)"
    and "PublishCommand env broker now site d cmd c = (c1, None)"
    and "accepted_ack env clk c1 (topic_Command site (d_Type d) (d_ID d) @ ''/ack'') payload (d_ID d) ack"
    and "a_CommandID ack = c_CommandID cmd"
  shows "Commands (mc_store (handleMessage env redis_ok ks clk (topic_Command site (d_Type d) (d_ID d) @ ''/ack'') payload c1)) =
    \<lparr>r_SiteID = site, r_DeviceID = d_ID d, r_DeviceType = d_Type d, r_Command = cmd,
     r_Status = (if a_OK ack then ''acked'' else ''failed''), r_Ack = Some ack, r_UpdatedAt = clk 1\<rparr>
    # take 199 (Commands (mc_store c))"
proof -
  have "mc_store c1 = PutCommandIssued now (mc_store c) site d cmd"
    using assms(4) by (auto simp: PublishCommand_def record_issued_def Let_def split: option.splits)
  then show ?thesis
    unfolding handleMessage_ack [OF assms(1-3,5)] using assms(6)
    by (simp add: store_PutCommandAck_def Commands_def PutCommandIssued_def push_front_capped_take issuedRecord_def
        ackMatches_def ackRecord_def take_Cons')
qed

section \<open>Properties\<close>

text \<open>
  C4. No unauthenticated influence: when device keys are configured, a message that changes the
  state, the Redis database or reaches a recorder or the time series has a topic that parses, is
  of a kind that needs authentication and has passed the verification for its topic's device. A
  message that fails it only increases the counter of rejected messages.
\<close>
theorem only_authenticated_messages_act:
  assumes "mc_keys c \<noteq> Map.empty"
  shows "let c' = handleMessage env redis_ok ks clk topic payload c in (mc_store c' \<noteq> mc_store c \<or> mc_redis c' \<noteq> mc_redis c \<or> mc_effects c' \<noteq> mc_effects c \<longrightarrow>
      (\<exists>parsed. topic_Parse topic = Some parsed \<and> tp_Kind parsed \<in> {''telemetry'', ''event'', ''command/ack''} \<and>
         VerifyPayload (me_decode env) (me_encode env) (me_decode_auth env) (me_mac env) topic (tp_DeviceID parsed)
           payload (mc_keys c) (clk 0) (mc_maxSkew c) = None)) \<and>
    (\<forall>parsed err. topic_Parse topic = Some parsed \<and> requiresDeviceAuth (tp_Kind parsed) \<and>
       VerifyPayload (me_decode env) (me_encode env) (me_decode_auth env) (me_mac env) topic (tp_DeviceID parsed)
         payload (mc_keys c) (clk 0) (mc_maxSkew c) = Some err \<longrightarrow>
       c' = c\<lparr>mc_rejects := (mc_rejects c)(''auth'' \<mapsto>
              (case mc_rejects c ''auth'' of None \<Rightarrow> 0 | Some n \<Rightarrow> n) + 1)\<rparr>)"
  by (auto simp: Let_def handleMessage_def requiresDeviceAuth_def incrementRejected_def split: option.splits if_splits)

text \<open>
  C21. A device speaks only for itself: a telemetry message is filed under the site, type and id of
  its topic, whatever its payload claims, with the time of arrival when it carries none. No other
  telemetry entry, no device and no command or event record changes.
\<close>
theorem telemetry_filed_under_topic:
  assumes "topic_Parse topic = Some parsed" "tp_Kind parsed = ''telemetry''" "tp_SiteID parsed \<noteq> []"
    and "VerifyPayload (me_decode env) (me_encode env) (me_decode_auth env) (me_mac env) topic (tp_DeviceID parsed)
           payload (mc_keys c) (clk 0) (mc_maxSkew c) = None"
    and "me_telemetry env payload = Some t"
  shows "let s = mc_store c; s' = mc_store (handleMessage env redis_ok ks clk topic payload c) in
    telemetry s' = (telemetry s)(stateKey (tp_SiteID parsed) (tp_DeviceID parsed) \<mapsto>
      t\<lparr>t_SiteID := tp_SiteID parsed, t_DeviceID := tp_DeviceID parsed, t_Type := tp_DeviceType parsed,
        t_Timestamp := if t_Timestamp t = 0 then time_unix_sec (clk 1) else t_Timestamp t\<rparr>) \<and>
    devices s' = devices s \<and> commands s' = commands s \<and> events s' = events s"
proof -
  let ?t = "t\<lparr>t_SiteID := tp_SiteID parsed, t_DeviceID := tp_DeviceID parsed, t_Type := tp_DeviceType parsed\<rparr>"
  let ?t' = "if t_Timestamp ?t = 0 then ?t\<lparr>t_Timestamp := time_unix_sec (clk 1)\<rparr> else ?t"
  have "mc_store (handleMessage env redis_ok ks clk topic payload c) =
      fst (PutTelemetry (me_marshal_telemetry env) redis_ok ks (mc_store c) ?t' (mc_redis c))"
    using assms(1,2,4,5)
    by (simp add: handleMessage_def handle_telemetry_def Let_def split_beta)
  also have "\<dots> = memTelemetry (mc_store c) ?t'" using assms(3) by (intro PutTelemetry_resolved) simp
  finally show ?thesis by (simp add: memTelemetry_def)
qed

text \<open>
  Commands and acknowledgements meet: after a command has been published to a device, an
  accepted message on that device's acknowledgement topic with the command's id turns the newest
  record of the history from issued to acked or failed, and leaves the others alone.
\<close>
theorem publish_then_ack:
  assumes "slash_free site" "slash_free (d_Type d)" "slash_free (d_ID d)"
    and "PublishCommand env broker now site d cmd c = (c1, None)"
    and "accepted_ack env clk c1 (topic_Command site (d_Type d) (d_ID d) @ ''/ack'') payload (d_ID d) ack"
    and "a_CommandID ack = c_CommandID cmd"
  shows "Commands (mc_store (handleMessage env redis_ok ks clk (topic_Command site (d_Type d) (d_ID d) @ ''/ack'') payload c1)) =
    \<lparr>r_SiteID = site, r_DeviceID = d_ID d, r_DeviceType = d_Type d, r_Command = cmd,
     r_Status = (if a_OK ack then ''acked'' else ''failed''), r_Ack = Some ack, r_UpdatedAt = clk 1\<rparr>
    # take 199 (Commands (mc_store c))"
  using assms by (rule PublishCommand_ack)

text \<open>
  An acknowledgement that arrives before the publish is recorded is lost: \<open>PublishCommand\<close> puts
  the command into the history only after the broker has confirmed it, and when the device's
  answer is handled in between, the answer changes nothing and the record stays issued for good.
\<close>
theorem early_ack_lost:
  assumes "slash_free site" "slash_free (d_Type d)" "slash_free (d_ID d)"
    and "accepted_ack env clk c (topic_Command site (d_Type d) (d_ID d) @ ''/ack'') payload (d_ID d) ack"
    and "\<forall>r \<in> set (Commands (mc_store c)). c_CommandID (r_Command r) \<noteq> a_CommandID ack"
  shows "let c1 = handleMessage env redis_ok ks clk (topic_Command site (d_Type d) (d_ID d) @ ''/ack'') payload c in
    mc_store c1 = mc_store c \<and>
    hd (Commands (mc_store (record_issued now site d cmd c1))) = issuedRecord now site d cmd \<and>
    r_Status (issuedRecord now site d cmd) = ''issued'' \<and> r_Ack (issuedRecord now site d cmd) = None"
proof -
  have "update_first (ackMatches (d_ID d) ack) f (commands (mc_store c)) = commands (mc_store c)" for f
    using assms(5) by (intro update_first_none) (simp add: ackMatches_def Commands_def)
  then have "mc_store (handleMessage env redis_ok ks clk (topic_Command site (d_Type d) (d_ID d) @ ''/ack'') payload c) = mc_store c"
    unfolding handleMessage_ack [OF assms(1-4)] by (simp add: store_PutCommandAck_def)
  then show ?thesis
    by (simp add: record_issued_def Let_def PutCommandIssued_def Commands_def push_front_capped_take issuedRecord_def)
qed

section \<open>Witnesses\<close>

definition ex_env :: MqttEnv where
  "ex_env = \<lparr>me_decode = (\<lambda>p. Some (Some [Field \<mapsto> p])), me_encode = (\<lambda>m. m Field),
     me_decode_auth = (\<lambda>_. Some \<lparr>au_Timestamp = 1000, au_Signature = ''ab''\<rparr>), me_mac = (\<lambda>_ _. ''ab''),
     me_telemetry = (\<lambda>_. Some zero_Telemetry),
     me_ack = (\<lambda>_. Some \<lparr>a_CommandID = ''b1-1'', a_OK = True, a_Error = [], a_Timestamp = 2\<rparr>),
     me_event = (\<lambda>_. None), me_marshal_command = (\<lambda>_. Some ''c''), me_marshal_telemetry = (\<lambda>_. None)\<rparr>"

definition ex_client :: Client where
  "ex_client = NewClient 0 NewStore Map.empty False"

definition ex_dev :: Device where
  "ex_dev = zero_Device\<lparr>d_ID := ''b1'', d_Type := ''battery''\<rparr>"

definition ex_cmd :: Command where
  "ex_cmd = \<lparr>c_CommandID = ''b1-1'', c_Action = ''set_mode'', c_Params = None, c_IssuedAt = 1, c_Reason = []\<rparr>"

lemma ex_dev_sel [simp]: "d_ID ex_dev = ''b1''" "d_Type ex_dev = ''battery''"
  by (simp_all add: ex_dev_def)

lemma ex_ack: "accepted_ack ex_env clk ex_client topic payload dev \<lparr>a_CommandID = ''b1-1'', a_OK = True, a_Error = [], a_Timestamp = 2\<rparr>"
  by (simp add: accepted_ack_def VerifyPayload_def keys_Enabled_def ex_client_def NewClient_def ex_env_def)

theorem only_authenticated_messages_act_witness:
  "mc_rejects (handleMessage ex_env True [] (\<lambda>_. 0) ''vpp/s1/pv/p1/telemetry'' ''x'' (ex_client\<lparr>mc_keys := [''q'' \<mapsto> ''k'']\<rparr>)) ''auth'' = Some 1"
proof -
  have p: "topic_Parse ''vpp/s1/pv/p1/telemetry'' =
      Some \<lparr>tp_SiteID = ''s1'', tp_DeviceType = ''pv'', tp_DeviceID = ''p1'', tp_Kind = ''telemetry''\<rparr>"
    by (simp add: topic_Parse_def)
  have k: "[''q'' \<mapsto> ''k''] \<noteq> Map.empty" by simp
  from only_authenticated_messages_act [of "ex_client\<lparr>mc_keys := [''q'' \<mapsto> ''k'']\<rparr>" ex_env True "[]" "\<lambda>_. 0"
      "''vpp/s1/pv/p1/telemetry''" "''x''"] show ?thesis
    by (simp add: Let_def p requiresDeviceAuth_def VerifyPayload_def keys_Enabled_def ex_client_def NewClient_def)
qed

theorem telemetry_filed_under_topic_witness:
  "t_SiteID (the (telemetry (mc_store (handleMessage ex_env True [] (\<lambda>_. 0) ''vpp/s1/pv/p1/telemetry'' ''x'' ex_client))
     (stateKey ''s1'' ''p1''))) = ''s1''"
proof -
  have p: "topic_Parse ''vpp/s1/pv/p1/telemetry'' =
      Some \<lparr>tp_SiteID = ''s1'', tp_DeviceType = ''pv'', tp_DeviceID = ''p1'', tp_Kind = ''telemetry''\<rparr>"
    by (simp add: topic_Parse_def)
  have v: "VerifyPayload dec enc da mac t i pl (mc_keys ex_client) now sk = None" for dec enc da mac t i pl now sk
    by (simp add: VerifyPayload_def keys_Enabled_def ex_client_def NewClient_def)
  show ?thesis
    using telemetry_filed_under_topic [OF p _ _ v, of ex_env "''x''" zero_Telemetry True "[]" "\<lambda>_. 0"]
    by (simp add: Let_def ex_env_def)
qed

theorem publish_then_ack_witness:
  "\<exists>c1 c2. PublishCommand ex_env (\<lambda>_ _. None) 5 ''s1'' ex_dev ex_cmd ex_client = (c1, None) \<and>
     c2 = handleMessage ex_env True [] (\<lambda>_. 7) (topic_Command ''s1'' ''battery'' ''b1'' @ ''/ack'') ''x'' c1 \<and>
     map r_Status (Commands (mc_store c2)) = [''acked'']"
proof -
  obtain c1 where c1: "PublishCommand ex_env (\<lambda>_ _. None) 5 ''s1'' ex_dev ex_cmd ex_client = (c1, None)"
    by (simp add: PublishCommand_def ex_env_def)
  then have "mc_keys c1 = Map.empty" by (auto simp: PublishCommand_def record_issued_def ex_env_def ex_client_def NewClient_def Let_def)
  then have ack: "accepted_ack ex_env (\<lambda>_. 7) c1 t ''x'' dev \<lparr>a_CommandID = ''b1-1'', a_OK = True, a_Error = [], a_Timestamp = 2\<rparr>" for t dev
    by (simp add: accepted_ack_def VerifyPayload_def keys_Enabled_def ex_env_def)
  show ?thesis
    using publish_then_ack [OF _ _ _ c1 ack, of True "[]"] c1
    by (simp add: ex_cmd_def ex_client_def NewClient_def Commands_def NewStore_def)
qed

theorem early_ack_lost_witness:
  "r_Status (hd (Commands (mc_store (record_issued 9 ''s1'' ex_dev ex_cmd
     (handleMessage ex_env True [] (\<lambda>_. 7) (topic_Command ''s1'' ''battery'' ''b1'' @ ''/ack'') ''x'' ex_client))))) = ''issued''"
  using early_ack_lost [of "''s1''" ex_dev ex_env "\<lambda>_. 7" ex_client "''x''" _ True "[]" 9 ex_cmd, OF _ _ _ ex_ack]
  by (simp add: Let_def Commands_def ex_client_def NewClient_def NewStore_def)

end
