(* ===== verification/Repository.thy ===== *)
theory Repository
  imports Model "HOL-Library.Product_Lexorder"
begin

text \<open>
  internal/repository: the four Postgres tables of the platform (devices, command records, device
  events, audit logs) and the statements on them. A table is a map from its primary key to the
  row. What Postgres answers is an argument: whether a statement succeeds (\<open>ok\<close>), its clock
  \<open>now()\<close> (\<open>dbnow\<close>), the text of a stored jsonb value (\<open>jsonb\<close>), the order \<open>ks\<close> in which a
  query meets the rows. A timestamptz keeps whole microseconds.

  Contents: the operations; the mirror between the history in memory and the table of commands.
\<close>

section \<open>Rows\<close>

record command_row =
  cw_site :: string
  cw_device :: string
  cw_type :: string
  cw_action :: string
  cw_params :: string
  cw_reason :: string
  cw_issued_at :: time
  cw_status :: string
  cw_ack_ok :: "bool option"
  cw_ack_error :: "string option"
  cw_ack_ts :: "time option"
  cw_updated :: time

record event_row =
  ew_site :: string
  ew_device :: string
  ew_type :: string
  ew_severity :: string
  ew_code :: string
  ew_message :: string
  ew_details :: string
  ew_timestamp :: time
  ew_created :: time

record audit_row =
  aw_occurred :: time
  aw_actor :: string
  aw_action :: string
  aw_method :: string
  aw_path :: string
  aw_status :: int
  aw_client :: string
  aw_agent :: string
  aw_details :: string

record DeviceRepository =
  tb_devices :: "string \<times> string \<rightharpoonup> Device"
  tb_commands :: "string \<rightharpoonup> command_row"
  tb_events :: "string \<rightharpoonup> event_row"
  tb_audit :: "string \<rightharpoonup> audit_row"

section \<open>Opening the database\<close>

text \<open>
  The migration creates the tables that do not exist and leaves the rows of the others alone; the
  primary key of an existing device table is set to the site and the id.
\<close>

definition repo_migrate :: "bool \<Rightarrow> DeviceRepository option \<Rightarrow> DeviceRepository option" where
  "repo_migrate ok db =
     (if \<not> ok then None
      else Some (case db of
          None \<Rightarrow> \<lparr>tb_devices = Map.empty, tb_commands = Map.empty, tb_events = Map.empty, tb_audit = Map.empty\<rparr>
        | Some r \<Rightarrow> r))"

definition NewDeviceRepository :: "bool \<Rightarrow> bool \<Rightarrow> DeviceRepository option \<Rightarrow> DeviceRepository option" where
  "NewDeviceRepository pool_ok migrate_ok db = (if \<not> pool_ok then None else repo_migrate migrate_ok db)"

definition repo_Ping :: "string option \<Rightarrow> DeviceRepository \<Rightarrow> string option" where
  "repo_Ping answer r = answer"

section \<open>Column types\<close>

text \<open>A time as a timestamptz holds it, and \<open>EXTRACT(EPOCH FROM t)::bigint\<close>, which rounds halves away from zero.\<close>

definition pg_timestamp :: "time \<Rightarrow> time" where
  "pg_timestamp t = t - t mod 1000"

definition pg_epoch :: "time \<Rightarrow> int" where
  "pg_epoch t = (let d = t - unix_to_internal * Second in sgn d * ((\<bar>d\<bar> + Second div 2) div Second))"

text \<open>
  Reading a jsonb column back: \<open>unmarshal\<close> is the decoder into a map; the errors it reports are
  ignored by the source, so it yields what it leaves in the target.
\<close>

definition scan_json :: "(string \<Rightarrow> gmap) \<Rightarrow> string \<Rightarrow> gmap" where
  "scan_json unmarshal raw = (if raw \<noteq> [] \<and> raw \<noteq> ''null'' then unmarshal raw else None)"

text \<open>The limit of the three listings.\<close>

definition list_limit :: "int \<Rightarrow> int" where
  "list_limit limit = (if limit \<le> 0 \<or> limit > 200 then 200 else limit)"

text \<open>\<open>ORDER BY key DESC LIMIT n\<close> over the rows in the order the query meets them.\<close>

definition newest_by :: "('r \<Rightarrow> int) \<Rightarrow> int \<Rightarrow> 'r list \<Rightarrow> 'r list" where
  "newest_by key n rs = take (nat n) (sort_Slice (\<lambda>a b. key b < key a) rs)"

section \<open>Devices\<close>

definition repo_Upsert :: "bool \<Rightarrow> time \<Rightarrow> Device \<Rightarrow> DeviceRepository \<Rightarrow> DeviceRepository \<times> bool" where
  "repo_Upsert ok now d r =
     (let d1 = (if time_IsZero (d_CreatedAt d) then d\<lparr>d_CreatedAt := now\<rparr> else d);
          key = (d_SiteID d1, d_ID d1);
          row = (case tb_devices r key of
              None \<Rightarrow> d1\<lparr>d_CreatedAt := pg_timestamp (d_CreatedAt d1)\<rparr>
            | Some old \<Rightarrow> old\<lparr>d_Type := d_Type d1, d_Name := d_Name d1, d_RatedPowerW := d_RatedPowerW d1,
                d_CapacityWh := d_CapacityWh d1, d_CriticalLoad := d_CriticalLoad d1\<rparr>) in
      if \<not> ok then (r, False) else (r\<lparr>tb_devices := (tb_devices r)(key \<mapsto> row)\<rparr>, True))"

text \<open>
  The order \<open>ORDER BY site_id, type, id\<close>; \<open>coll\<close> is the sort key of a text in the collation of the
  database.
\<close>

definition device_row_key :: "(string \<Rightarrow> string) \<Rightarrow> Device \<Rightarrow> string \<times> string \<times> string" where
  "device_row_key coll d = (coll (d_SiteID d), coll (d_Type d), coll (d_ID d))"

definition repo_List ::
  "(string \<Rightarrow> string) \<Rightarrow> bool \<Rightarrow> (string \<times> string) list \<Rightarrow> DeviceRepository \<Rightarrow> Device list option" where
  "repo_List coll ok ks r =
     (if \<not> ok then None else Some (sort_Slice (less_on (device_row_key coll)) (range_vals (tb_devices r) ks)))"

section \<open>Commands\<close>

definition repo_PutCommandIssued ::
  "(string \<Rightarrow> string) \<Rightarrow> bool \<Rightarrow> time \<Rightarrow> string \<Rightarrow> Device \<Rightarrow> Command \<Rightarrow> DeviceRepository \<Rightarrow> DeviceRepository \<times> bool"
where
  "repo_PutCommandIssued jsonb ok dbnow siteID d cmd r =
     (case marshal_gmap (c_Params cmd) of
        None \<Rightarrow> (r, False)
      | Some params \<Rightarrow>
          let issuedAt = pg_timestamp (time_Unix (c_IssuedAt cmd));
              row = (case tb_commands r (c_CommandID cmd) of
                  None \<Rightarrow> \<lparr>cw_site = siteID, cw_device = d_ID d, cw_type = d_Type d, cw_action = c_Action cmd,
                    cw_params = jsonb params, cw_reason = c_Reason cmd, cw_issued_at = issuedAt,
                    cw_status = ''issued'', cw_ack_ok = None, cw_ack_error = None, cw_ack_ts = None,
                    cw_updated = dbnow\<rparr>
                | Some old \<Rightarrow> old\<lparr>cw_site := siteID, cw_device := d_ID d, cw_type := d_Type d,
                    cw_action := c_Action cmd, cw_params := jsonb params, cw_reason := c_Reason cmd,
                    cw_issued_at := issuedAt,
                    cw_status := (if cw_ack_ts old = None then ''issued'' else cw_status old),
                    cw_updated := dbnow\<rparr>) in
          if \<not> ok then (r, False) else (r\<lparr>tb_commands := (tb_commands r)(c_CommandID cmd \<mapsto> row)\<rparr>, True))"

definition repo_PutCommandAck ::
  "(string \<Rightarrow> string) \<Rightarrow> bool \<Rightarrow> time \<Rightarrow> string \<Rightarrow> DeviceType \<Rightarrow> string \<Rightarrow> CommandAck \<Rightarrow> DeviceRepository \<Rightarrow> DeviceRepository \<times> bool"
where
  "repo_PutCommandAck jsonb ok dbnow siteID deviceType deviceID ack r =
     (let status = (if a_OK ack then ''acked'' else ''failed'');
          ackAt = pg_timestamp (time_Unix (a_Timestamp ack));
          acked = (\<lambda>row. row\<lparr>cw_status := status, cw_ack_ok := Some (a_OK ack), cw_ack_error := Some (a_Error ack),
            cw_ack_ts := Some ackAt, cw_updated := dbnow\<rparr>) in
      if \<not> ok then (r, False)
      else
        case tb_commands r (a_CommandID ack) of
          None \<Rightarrow> (r\<lparr>tb_commands := (tb_commands r)(a_CommandID ack \<mapsto> acked
              \<lparr>cw_site = siteID, cw_device = deviceID, cw_type = deviceType, cw_action = [], cw_params = jsonb ''{}'',
               cw_reason = [], cw_issued_at = ackAt, cw_status = [], cw_ack_ok = None, cw_ack_error = None,
               cw_ack_ts = None, cw_updated = dbnow\<rparr>)\<rparr>, True)
        | Some old \<Rightarrow>
            if cw_device old = deviceID
            then (r\<lparr>tb_commands := (tb_commands r)(a_CommandID ack \<mapsto> acked old)\<rparr>, True)
            else (r, True))"

text \<open>One record of a listing.\<close>

definition scan_command :: "(string \<Rightarrow> gmap) \<Rightarrow> string \<times> command_row \<Rightarrow> CommandRecord" where
  "scan_command unmarshal e =
     (case e of (i, row) \<Rightarrow>
        \<lparr>r_SiteID = cw_site row, r_DeviceID = cw_device row, r_DeviceType = cw_type row,
         r_Command = \<lparr>c_CommandID = i, c_Action = cw_action row, c_Params = scan_json unmarshal (cw_params row),
           c_IssuedAt = pg_epoch (cw_issued_at row), c_Reason = cw_reason row\<rparr>,
         r_Status = cw_status row,
         r_Ack = (if cw_ack_ok row \<noteq> None \<or> cw_ack_error row \<noteq> None \<or> cw_ack_ts row \<noteq> None
           then Some \<lparr>a_CommandID = i,
             a_OK = (case cw_ack_ok row of None \<Rightarrow> False | Some b \<Rightarrow> b),
             a_Error = (case cw_ack_error row of None \<Rightarrow> [] | Some e \<Rightarrow> e),
             a_Timestamp = (case cw_ack_ts row of None \<Rightarrow> 0 | Some t \<Rightarrow> pg_epoch t)\<rparr>
           else None),
         r_UpdatedAt = cw_updated row\<rparr>)"

text \<open>The entries of a table in the order a query meets them.\<close>

definition table_entries :: "('k \<rightharpoonup> 'r) \<Rightarrow> 'k list \<Rightarrow> ('k \<times> 'r) list" where
  "table_entries tb ks = range_vals (\<lambda>k. map_option (Pair k) (tb k)) ks"

definition repo_ListCommands ::
  "(string \<Rightarrow> gmap) \<Rightarrow> bool \<Rightarrow> string list \<Rightarrow> int \<Rightarrow> DeviceRepository \<Rightarrow> CommandRecord list option" where
  "repo_ListCommands unmarshal ok ks limit r =
     (if \<not> ok then None
      else Some (map (scan_command unmarshal)
        (newest_by (\<lambda>(i, row). cw_updated row) (list_limit limit) (table_entries (tb_commands r) ks))))"

section \<open>Events\<close>

definition repo_PutEvent ::
  "(string \<Rightarrow> string) \<Rightarrow> bool \<Rightarrow> time \<Rightarrow> DeviceEvent \<Rightarrow> DeviceRepository \<Rightarrow> DeviceRepository \<times> bool" where
  "repo_PutEvent jsonb ok now e r =
     (case marshal_gmap (e_Details e) of
        None \<Rightarrow> (r, False)
      | Some details \<Rightarrow>
          let createdAt = (if time_IsZero (e_CreatedAt e) then now else e_CreatedAt e);
              row = \<lparr>ew_site = e_SiteID e, ew_device = e_DeviceID e, ew_type = e_DeviceType e,
                ew_severity = e_Severity e, ew_code = e_Code e, ew_message = e_Message e,
                ew_details = jsonb details, ew_timestamp = pg_timestamp (time_Unix (e_Timestamp e)),
                ew_created = pg_timestamp createdAt\<rparr> in
          if \<not> ok then (r, False) else (r\<lparr>tb_events := (tb_events r)(e_EventID e \<mapsto> row)\<rparr>, True))"

definition scan_event :: "(string \<Rightarrow> gmap) \<Rightarrow> string \<times> event_row \<Rightarrow> DeviceEvent" where
  "scan_event unmarshal e =
     (case e of (i, row) \<Rightarrow>
        \<lparr>e_EventID = i, e_SiteID = ew_site row, e_DeviceID = ew_device row, e_DeviceType = ew_type row,
         e_Severity = ew_severity row, e_Code = ew_code row, e_Message = ew_message row,
         e_Details = scan_json unmarshal (ew_details row), e_Timestamp = pg_epoch (ew_timestamp row),
         e_CreatedAt = ew_created row\<rparr>)"

definition repo_ListEvents ::
  "(string \<Rightarrow> gmap) \<Rightarrow> bool \<Rightarrow> string list \<Rightarrow> int \<Rightarrow> DeviceRepository \<Rightarrow> DeviceEvent list option" where
  "repo_ListEvents unmarshal ok ks limit r =
     (if \<not> ok then None
      else Some (map (scan_event unmarshal)
        (newest_by (\<lambda>(i, row). ew_created row) (list_limit limit) (table_entries (tb_events r) ks))))"

section \<open>Audit logs\<close>

definition repo_PutAuditLog ::
  "(string \<Rightarrow> string) \<Rightarrow> bool \<Rightarrow> time \<Rightarrow> AuditLog \<Rightarrow> DeviceRepository \<Rightarrow> DeviceRepository \<times> bool" where
  "repo_PutAuditLog jsonb ok now l r =
     (let occurredAt = (if time_IsZero (l_OccurredAt l) then now else l_OccurredAt l) in
      case marshal_gmap (l_Details l) of
        None \<Rightarrow> (r, False)
      | Some details \<Rightarrow>
          let row = \<lparr>aw_occurred = pg_timestamp occurredAt, aw_actor = l_Actor l, aw_action = l_Action l,
                aw_method = l_Method l, aw_path = l_Path l, aw_status = l_StatusCode l,
                aw_client = l_ClientIP l, aw_agent = l_UserAgent l, aw_details = jsonb details\<rparr> in
          if \<not> ok then (r, False)
          else if tb_audit r (l_ID l) \<noteq> None then (r, True)
          else (r\<lparr>tb_audit := (tb_audit r)(l_ID l \<mapsto> row)\<rparr>, True))"

definition scan_audit :: "(string \<Rightarrow> gmap) \<Rightarrow> string \<times> audit_row \<Rightarrow> AuditLog" where
  "scan_audit unmarshal e =
     (case e of (i, row) \<Rightarrow>
        \<lparr>l_ID = i, l_OccurredAt = aw_occurred row, l_Actor = aw_actor row, l_Action = aw_action row,
         l_Method = aw_method row, l_Path = aw_path row, l_StatusCode = aw_status row,
         l_ClientIP = aw_client row, l_UserAgent = aw_agent row,
         l_Details = scan_json unmarshal (aw_details row)\<rparr>)"

definition repo_ListAuditLogs ::
  "(string \<Rightarrow> gmap) \<Rightarrow> bool \<Rightarrow> string list \<Rightarrow> int \<Rightarrow> DeviceRepository \<Rightarrow> AuditLog list option" where
  "repo_ListAuditLogs unmarshal ok ks limit r =
     (if \<not> ok then None
      else Some (map (scan_audit unmarshal)
        (newest_by (\<lambda>(i, row). aw_occurred row) (list_limit limit) (table_entries (tb_audit r) ks))))"

section \<open>Facts\<close>

lemma pg_timestamp_Unix [simp]: "pg_timestamp (time_Unix s) = time_Unix s"
  by (simp add: pg_timestamp_def time_Unix_def mod_mult_right_eq [symmetric])

lemma pg_epoch_Unix: "int64_ok (s + unix_to_internal) \<Longrightarrow> pg_epoch (time_Unix s) = s"
proof -
  assume "int64_ok (s + unix_to_internal)"
  then have d: "time_Unix s - unix_to_internal * Second = s * Second" by (simp add: time_Unix_id algebra_simps)
  have "(\<bar>s * Second\<bar> + Second div 2) div Second = \<bar>s\<bar>" by (simp add: abs_mult)
  then show ?thesis unfolding pg_epoch_def Let_def d by (simp add: sgn_mult mult_sgn_abs)
qed

lemma set_table_entries: "range_order tb ks \<Longrightarrow> set (table_entries tb ks) = {(k, v). tb k = Some v}"
  by (force simp: table_entries_def range_vals_def List.map_filter_def range_order_def dom_def)

lemma length_table_entries: "range_order tb ks \<Longrightarrow> length (table_entries tb ks) = card (dom tb)"
proof -
  assume "range_order tb ks"
  then have "distinct ks" "set ks = dom tb" by (simp_all add: range_order_def)
  have "set ks \<subseteq> dom tb \<Longrightarrow> length (table_entries tb ks) = length ks"
    by (induction ks) (auto simp: table_entries_def split: option.split)
  then show ?thesis using \<open>distinct ks\<close> \<open>set ks = dom tb\<close> distinct_card by fastforce
qed

lemma newest_by_all: "length rs \<le> nat n \<Longrightarrow> set (newest_by key n rs) = set rs"
  by (simp add: newest_by_def)

section \<open>Properties\<close>

text \<open>
  C33. The table of commands does not depend on which of a command and its acknowledgement is
  recorded first: for a command that is new, or known for the same device, both orders leave the
  same row up to the time of its last update, with the details of the command and the outcome of
  the acknowledgement, and touch no other row.
\<close>
theorem command_row_order_free:
  assumes "marshal_gmap (c_Params cmd) = Some params" "a_CommandID ack = c_CommandID cmd"
    and "case tb_commands r (c_CommandID cmd) of None \<Rightarrow> True | Some old \<Rightarrow> cw_device old = d_ID d"
  shows "let issue = (\<lambda>t r. fst (repo_PutCommandIssued jsonb True t site d cmd r));
      acked = (\<lambda>t r. fst (repo_PutCommandAck jsonb True t site' type' (d_ID d) ack r)) in
    \<exists>row. acked t2 (issue t1 r) = r\<lparr>tb_commands := (tb_commands r)(c_CommandID cmd \<mapsto> row\<lparr>cw_updated := t2\<rparr>)\<rparr> \<and>
      issue t1 (acked t2 r) = r\<lparr>tb_commands := (tb_commands r)(c_CommandID cmd \<mapsto> row\<lparr>cw_updated := t1\<rparr>)\<rparr> \<and>
      cw_status row = (if a_OK ack then ''acked'' else ''failed'') \<and> cw_action row = c_Action cmd \<and>
      cw_device row = d_ID d \<and> cw_ack_ok row = Some (a_OK ack)"
proof -
  let ?row = "\<lparr>cw_site = site, cw_device = d_ID d, cw_type = d_Type d, cw_action = c_Action cmd,
      cw_params = jsonb params, cw_reason = c_Reason cmd, cw_issued_at = time_Unix (c_IssuedAt cmd),
      cw_status = (if a_OK ack then ''acked'' else ''failed''), cw_ack_ok = Some (a_OK ack),
      cw_ack_error = Some (a_Error ack), cw_ack_ts = Some (time_Unix (a_Timestamp ack)), cw_updated = 0\<rparr>"
  show ?thesis
  proof (cases "tb_commands r (c_CommandID cmd)")
    case None
    with assms(1,2) show ?thesis
      unfolding Let_def by (intro exI [of _ ?row]) (simp add: repo_PutCommandIssued_def repo_PutCommandAck_def Let_def)
  next
    case (Some old)
    with assms show ?thesis
      unfolding Let_def
      by (intro exI [of _ ?row], cases old) (simp add: repo_PutCommandIssued_def repo_PutCommandAck_def Let_def)
  qed
qed

text \<open>
  An acknowledgement is not tied to the device the command was issued to when it arrives first:
  recorded before the command, the answer of another device creates the row, the command then takes
  the row over, and the record shows the command as acknowledged by its own device. In the usual
  order the same answer is ignored.
\<close>
theorem foreign_ack_adopted:
  assumes "marshal_gmap (c_Params cmd) = Some params" "a_CommandID ack = c_CommandID cmd"
    and "tb_commands r (c_CommandID cmd) = None" "other \<noteq> d_ID d"
  shows "let issue = (\<lambda>t r. fst (repo_PutCommandIssued jsonb True t site d cmd r));
      foreign = (\<lambda>t r. fst (repo_PutCommandAck jsonb True t site' type' other ack r)) in
    (\<exists>row. tb_commands (issue t2 (foreign t1 r)) (c_CommandID cmd) = Some row \<and> cw_device row = d_ID d \<and>
       cw_status row = (if a_OK ack then ''acked'' else ''failed'') \<and> cw_ack_ok row = Some (a_OK ack)) \<and>
    foreign t2 (issue t1 r) = issue t1 r \<and>
    map_option cw_status (tb_commands (issue t1 r) (c_CommandID cmd)) = Some ''issued''"
  using assms by (simp add: repo_PutCommandIssued_def repo_PutCommandAck_def Let_def)

text \<open>
  Registering a device twice keeps its first time of creation and takes every other field from
  the second registration; other devices are untouched, and the listing shows each device once.
\<close>
theorem upsert_keeps_created:
  assumes "range_order (tb_devices r') ks" "d_SiteID d = d_SiteID d'" "d_ID d = d_ID d'"
    and "r' = fst (repo_Upsert True t2 d' (fst (repo_Upsert True t1 d r)))" "tb_devices r (d_SiteID d, d_ID d) = None"
  shows "tb_devices r' = (tb_devices r)((d_SiteID d, d_ID d) \<mapsto> d'\<lparr>d_CreatedAt :=
      pg_timestamp (if time_IsZero (d_CreatedAt d) then t1 else d_CreatedAt d)\<rparr>) \<and>
    (\<exists>ds. repo_List coll True ks r' = Some ds \<and> set ds = ran (tb_devices r') \<and> length ds = card (dom (tb_devices r')))"
proof -
  have "length (range_vals (tb_devices r') ks) = card (dom (tb_devices r'))"
    using length_table_entries [OF assms(1)] assms(1)
    by (simp add: table_entries_def range_vals_def List.map_filter_def comp_def)
  moreover have "tb_devices r' = (tb_devices r)((d_SiteID d, d_ID d) \<mapsto> d'\<lparr>d_CreatedAt :=
      pg_timestamp (if time_IsZero (d_CreatedAt d) then t1 else d_CreatedAt d)\<rparr>)"
    using assms(2-)
    by (cases d; cases d'; cases "time_IsZero (d_CreatedAt d)"; cases "time_IsZero (d_CreatedAt d')")
      (simp_all add: repo_Upsert_def)
  moreover have "set (range_vals (tb_devices r') ks) = ran (tb_devices r')" using assms(1) by (rule set_range_vals)
  ultimately show ?thesis unfolding repo_List_def by (metis length_sort_Slice set_sort_Slice)
qed

section \<open>Witnesses\<close>

definition rx_repo :: DeviceRepository where
  "rx_repo = \<lparr>tb_devices = Map.empty, tb_commands = Map.empty, tb_events = Map.empty, tb_audit = Map.empty\<rparr>"

definition rx_dev :: Device where
  "rx_dev = zero_Device\<lparr>d_ID := ''b1'', d_SiteID := ''s1'', d_Type := ''battery'', d_CreatedAt := 5000\<rparr>"

definition rx_cmd :: Command where
  "rx_cmd = \<lparr>c_CommandID = ''b1-1'', c_Action = ''set_mode'', c_Params = None, c_IssuedAt = 1, c_Reason = []\<rparr>"

definition rx_ack :: CommandAck where
  "rx_ack = \<lparr>a_CommandID = ''b1-1'', a_OK = True, a_Error = [], a_Timestamp = 2\<rparr>"

lemmas rx_defs = rx_repo_def rx_dev_def rx_cmd_def rx_ack_def

theorem command_row_order_free_witness:
  "map_option cw_status (tb_commands (fst (repo_PutCommandIssued id True 9 ''s1'' rx_dev rx_cmd
     (fst (repo_PutCommandAck id True 8 ''s1'' ''battery'' ''b1'' rx_ack rx_repo)))) ''b1-1'') = Some ''acked''"
proof -
  have "marshal_gmap (c_Params rx_cmd) = Some ''null''" "a_CommandID rx_ack = c_CommandID rx_cmd"
    "case tb_commands rx_repo (c_CommandID rx_cmd) of None \<Rightarrow> True | Some old \<Rightarrow> cw_device old = d_ID rx_dev"
    by (simp_all add: rx_defs marshal_gmap_def)
  from command_row_order_free [OF this, of id "''s1''" "''s1''" "''battery''" 8 9]
  show ?thesis by (auto simp: Let_def rx_defs)
qed

theorem foreign_ack_adopted_witness:
  "map_option cw_status (tb_commands (fst (repo_PutCommandIssued id True 9 ''s1'' rx_dev rx_cmd
     (fst (repo_PutCommandAck id True 8 ''s1'' ''battery'' ''x9'' rx_ack rx_repo)))) ''b1-1'') = Some ''acked''"
proof -
  have "marshal_gmap (c_Params rx_cmd) = Some ''null''" "a_CommandID rx_ack = c_CommandID rx_cmd"
    "tb_commands rx_repo (c_CommandID rx_cmd) = None" "''x9'' \<noteq> d_ID rx_dev"
    by (simp_all add: rx_defs marshal_gmap_def)
  from foreign_ack_adopted [OF this, of id "''s1''" "''s1''" "''battery''" 9 8]
  show ?thesis by (auto simp: Let_def rx_defs)
qed

theorem upsert_keeps_created_witness:
  "map_option d_CreatedAt (tb_devices (fst (repo_Upsert True 9000 (rx_dev\<lparr>d_Name := ''n''\<rparr>)
     (fst (repo_Upsert True 8000 rx_dev rx_repo)))) (''s1'', ''b1'')) = Some 5000"
proof -
  let ?r = "fst (repo_Upsert True 9000 (rx_dev\<lparr>d_Name := ''n''\<rparr>) (fst (repo_Upsert True 8000 rx_dev rx_repo)))"
  have "range_order (tb_devices ?r) [(''s1'', ''b1'')]"
    by (simp add: range_order_def repo_Upsert_def rx_defs time_IsZero_def)
  from upsert_keeps_created [OF this, of rx_dev "rx_dev\<lparr>d_Name := ''n''\<rparr>"] show ?thesis
    by (simp add: rx_defs time_IsZero_def pg_timestamp_def)
qed

end
