(* ===== verification/Command_History.thy ===== *)
theory Command_History
  imports Mqtt_Client Repository
begin

text \<open>
  The command history in memory and the table of commands: the client calls its recorder, the
  repository, for every command and acknowledgement it files (internal/mqtt/client.go), and a
  restarted platform loads the table back (cmd/vpp-lab/main.go). This theory replays the logged
  calls on the repository and shows that the table and the history agree.
\<close>

section \<open>The recorder\<close>

text \<open>
  The effect of one logged call: \<open>out\<close> is whether its statement succeeds and the time Postgres
  notes. An error is only logged by the client, so the run goes on.
\<close>

fun record_effect :: "(string \<Rightarrow> string) \<Rightarrow> bool \<times> time \<Rightarrow> client_effect \<Rightarrow> DeviceRepository \<Rightarrow> DeviceRepository" where
  "record_effect jsonb out (InfluxWrite t) r = r"
| "record_effect jsonb out (RecordIssued site d cmd) r = fst (repo_PutCommandIssued jsonb (fst out) (snd out) site d cmd r)"
| "record_effect jsonb out (RecordAck site ty dev ack) r = fst (repo_PutCommandAck jsonb (fst out) (snd out) site ty dev ack r)"
| "record_effect jsonb out (RecordEvent e) r = fst (repo_PutEvent jsonb (fst out) (snd out) e r)"

fun replay :: "(string \<Rightarrow> string) \<Rightarrow> (nat \<Rightarrow> bool \<times> time) \<Rightarrow> nat \<Rightarrow> client_effect list \<Rightarrow> DeviceRepository \<Rightarrow> DeviceRepository" where
  "replay jsonb out n [] r = r"
| "replay jsonb out n (e # es) r = replay jsonb out (Suc n) es (record_effect jsonb (out n) e r)"

text \<open>Loading the table at start-up: \<open>loadRecentCommands\<close> and \<open>loadRecentEvents\<close>.\<close>

definition loadRecentCommands ::
  "(string \<Rightarrow> gmap) \<Rightarrow> bool \<Rightarrow> string list \<Rightarrow> DeviceRepository \<Rightarrow> Store \<Rightarrow> Store option" where
  "loadRecentCommands unmarshal ok ks r s =
     (case repo_ListCommands unmarshal ok ks 200 r of None \<Rightarrow> None | Some cs \<Rightarrow> Some (SetCommands s cs))"

definition loadRecentEvents ::
  "(string \<Rightarrow> gmap) \<Rightarrow> bool \<Rightarrow> string list \<Rightarrow> DeviceRepository \<Rightarrow> Store \<Rightarrow> Store option" where
  "loadRecentEvents unmarshal ok ks r s =
     (case repo_ListEvents unmarshal ok ks 200 r of None \<Rightarrow> None | Some es \<Rightarrow> Some (SetEvents s es))"

section \<open>The history as a function of the log\<close>

text \<open>A record without the time of its last update, which the two sides take from different clocks.\<close>

definition unstamped :: "CommandRecord \<Rightarrow> CommandRecord" where
  "unstamped r = r\<lparr>r_UpdatedAt := 0\<rparr>"

fun hist_step :: "CommandRecord list \<Rightarrow> client_effect \<Rightarrow> CommandRecord list" where
  "hist_step h (RecordIssued site d cmd) = take 200 (issuedRecord 0 site d cmd # h)"
| "hist_step h (RecordAck site ty dev ack) = update_first (ackMatches dev ack) (ackRecord 0 ack) h"
| "hist_step h _ = h"

lemma unstamped_issued [simp]: "unstamped (issuedRecord now site d cmd) = issuedRecord 0 site d cmd"
  by (simp add: unstamped_def issuedRecord_def)

lemma unstamped_update:
  "map unstamped (update_first (ackMatches dev ack) (ackRecord now ack) h) =
    update_first (ackMatches dev ack) (ackRecord 0 ack) (map unstamped h)"
  by (rule map_update_first) (simp_all add: unstamped_def ackMatches_def ackRecord_def)

definition logged :: "Client \<Rightarrow> bool" where
  "logged c \<longleftrightarrow> mc_recorder c \<and> map unstamped (Commands (mc_store c)) = foldl hist_step [] (mc_effects c)"

lemma logged_parts:
  assumes "logged c"
  shows "logged (handle_telemetry env ok ks clk parsed payload c)" "logged (handle_ack env clk parsed payload c)"
    "logged (handle_event env clk parsed payload c)" "logged (incrementRejected reason c)"
    "logged (record_issued now siteID d cmd c)" "logged (c\<lparr>mc_store := UpsertDevice now (mc_store c) d\<rparr>)"
proof -
  note c = assms [unfolded logged_def]
  have tele: "commands (fst (PutTelemetry m ok ks s t db)) = commands s" for m s t db
    by (simp add: PutTelemetry_def memTelemetry_def Let_def split_beta)
  show "logged (handle_telemetry env ok ks clk parsed payload c)"
    using c by (auto simp: logged_def handle_telemetry_def Commands_def tele Let_def split_beta split: option.split)
  show "logged (handle_ack env clk parsed payload c)"
    using c by (auto simp: logged_def handle_ack_def Commands_def store_PutCommandAck_def unstamped_update Let_def split: option.split)
  show "logged (handle_event env clk parsed payload c)"
    using c by (auto simp: logged_def handle_event_def Commands_def PutEvent_def Let_def split: option.split)
  show "logged (incrementRejected reason c)"
    using c by (simp add: logged_def incrementRejected_def)
  show "logged (record_issued now siteID d cmd c)"
    using c by (simp add: logged_def record_issued_def Commands_def PutCommandIssued_def push_front_capped_take Let_def
        take_map [symmetric] take_Cons')
  show "logged (c\<lparr>mc_store := UpsertDevice now (mc_store c) d\<rparr>)"
    using c by (simp add: logged_def Commands_def UpsertDevice_def Let_def)
qed

interpretation history: keeps_invariant "client_step env" logged for env
proof
  fix c c' assume inv: "logged c" and "client_step env c c'"
  from this(2) show "logged c'"
  proof cases
    case (message redis_ok ks clk topic payload)
    with inv show ?thesis by (simp add: handleMessage_def logged_parts split: option.split)
  next
    case (publish broker now siteID d cmd)
    with inv show ?thesis by (simp add: PublishCommand_def Let_def logged_parts split: option.split)
  next
    case (upsert now d)
    with inv show ?thesis by (simp add: logged_parts)
  qed
qed

section \<open>The table as a function of the log\<close>

text \<open>
  What the two sides need to agree on a command and its answer: the parameters survive the way
  through the jsonb column and the times the conversion to a timestamptz.
\<close>

definition survives :: "(string \<Rightarrow> string) \<Rightarrow> (string \<Rightarrow> gmap) \<Rightarrow> Command \<Rightarrow> bool" where
  "survives jsonb unmarshal cmd \<longleftrightarrow>
     (\<exists>p. marshal_gmap (c_Params cmd) = Some p \<and> scan_json unmarshal (jsonb p) = c_Params cmd) \<and>
     int64_ok (c_IssuedAt cmd + unix_to_internal)"

text \<open>
  A log without surprises, given the devices of the commands issued so far: a command has a new
  id, an acknowledgement names a command issued to the device that sends it.
\<close>

fun orderly :: "(string \<Rightarrow> string) \<Rightarrow> (string \<Rightarrow> gmap) \<Rightarrow> (string \<rightharpoonup> string) \<Rightarrow> client_effect list \<Rightarrow> bool" where
  "orderly jsonb unm m [] \<longleftrightarrow> True"
| "orderly jsonb unm m (RecordIssued site d cmd # es) \<longleftrightarrow>
     m (c_CommandID cmd) = None \<and> survives jsonb unm cmd \<and> orderly jsonb unm (m(c_CommandID cmd \<mapsto> d_ID d)) es"
| "orderly jsonb unm m (RecordAck site ty dev ack # es) \<longleftrightarrow>
     m (a_CommandID ack) = Some dev \<and> int64_ok (a_Timestamp ack + unix_to_internal) \<and> orderly jsonb unm m es"
| "orderly jsonb unm m (e # es) \<longleftrightarrow> orderly jsonb unm m es"

fun issues :: "client_effect list \<Rightarrow> nat" where
  "issues [] = 0"
| "issues (RecordIssued site d cmd # es) = Suc (issues es)"
| "issues (e # es) = issues es"

abbreviation rec_id :: "CommandRecord \<Rightarrow> string" where
  "rec_id x \<equiv> c_CommandID (r_Command x)"

definition by_id :: "CommandRecord list \<Rightarrow> (string \<rightharpoonup> CommandRecord)" where
  "by_id h = map_of (map (\<lambda>x. (rec_id x, x)) h)"

definition table_records :: "(string \<Rightarrow> gmap) \<Rightarrow> DeviceRepository \<Rightarrow> (string \<rightharpoonup> CommandRecord)" where
  "table_records unm r = (\<lambda>i. map_option (\<lambda>row. unstamped (scan_command unm (i, row))) (tb_commands r i))"

definition agree :: "(string \<Rightarrow> gmap) \<Rightarrow> CommandRecord list \<Rightarrow> DeviceRepository \<Rightarrow> (string \<rightharpoonup> string) \<Rightarrow> bool" where
  "agree unm h r m \<longleftrightarrow> table_records unm r = by_id h \<and> distinct (map rec_id h) \<and> m = map_option r_DeviceID \<circ> by_id h"

lemma agree_issue:
  assumes "agree unm h r m" "m (c_CommandID cmd) = None" "survives jsonb unm cmd" "length h < 200"
  shows "agree unm (hist_step h (RecordIssued site d cmd)) (record_effect jsonb (True, now) (RecordIssued site d cmd) r)
    (m(c_CommandID cmd \<mapsto> d_ID d))"
proof -
  note h = assms(1) [unfolded agree_def]
  let ?i = "c_CommandID cmd" and ?x = "issuedRecord 0 site d cmd"
  let ?r = "record_effect jsonb (True, now) (RecordIssued site d cmd) r"
  have new: "by_id h ?i = None" using h assms(2) by simp
  then have fresh: "?i \<notin> rec_id ` set h" by (simp add: by_id_def map_of_eq_None_iff image_image)
  have none: "tb_commands r ?i = None"
    using h new by (metis map_option_is_None table_records_def)
  obtain p where p: "marshal_gmap (c_Params cmd) = Some p" "scan_json unm (jsonb p) = c_Params cmd"
    "int64_ok (c_IssuedAt cmd + unix_to_internal)" using assms(3) by (auto simp: survives_def)
  have "table_records unm ?r = (table_records unm r)(?i \<mapsto> ?x)"
    using p none
    by (auto simp: table_records_def repo_PutCommandIssued_def Let_def scan_command_def issuedRecord_def unstamped_def
        pg_epoch_Unix)
  moreover have "by_id (?x # h) = (by_id h)(?i \<mapsto> ?x)" by (simp add: by_id_def issuedRecord_def)
  moreover have "distinct (map rec_id (?x # h))" using h fresh by (simp add: issuedRecord_def)
  ultimately show ?thesis
    using assms(4) h by (auto simp: agree_def fun_eq_iff) (simp_all add: issuedRecord_def)
qed

lemma agree_ack:
  assumes "agree unm h r m" "m (a_CommandID ack) = Some dev" "int64_ok (a_Timestamp ack + unix_to_internal)"
  shows "agree unm (hist_step h (RecordAck site ty dev ack)) (record_effect jsonb (True, now) (RecordAck site ty dev ack) r) m"
proof -
  note h = assms(1) [unfolded agree_def]
  obtain x where x: "by_id h (a_CommandID ack) = Some x" "r_DeviceID x = dev" using h assms(2) by auto
  then have id: "rec_id x = a_CommandID ack" by (auto simp: by_id_def dest!: map_of_SomeD)
  obtain row where row: "tb_commands r (a_CommandID ack) = Some row" "x = unstamped (scan_command unm (a_CommandID ack, row))"
  proof -
    have "table_records unm r (a_CommandID ack) = Some x" using h x(1) by simp
    then show thesis by (auto simp: table_records_def intro: that)
  qed
  have dev: "cw_device row = dev" using row(2) x(2) by (simp add: unstamped_def scan_command_def)
  let ?h = "hist_step h (RecordAck site ty dev ack)"
  have by_id: "by_id ?h = (by_id h)(a_CommandID ack \<mapsto> ackRecord 0 ack x)"
    unfolding by_id_def hist_step.simps using x id h
    by (intro map_of_update_first) (auto simp: by_id_def ackMatches_def ackRecord_def)
  have "map rec_id ?h = map rec_id h"
    unfolding hist_step.simps by (intro map_update_first_same) (simp add: ackRecord_def)
  moreover have "table_records unm (record_effect jsonb (True, now) (RecordAck site ty dev ack) r) =
      (table_records unm r)(a_CommandID ack \<mapsto> ackRecord 0 ack x)"
    using row dev assms(3)
    by (auto simp: table_records_def repo_PutCommandAck_def Let_def scan_command_def unstamped_def ackRecord_def
        pg_epoch_Unix fun_eq_iff)
  moreover have "map_option r_DeviceID \<circ> by_id ?h = map_option r_DeviceID \<circ> by_id h"
    unfolding by_id using x by (auto simp: fun_eq_iff ackRecord_def)
  ultimately show ?thesis using h by_id by (simp add: agree_def)
qed

lemma agree_replay:
  assumes "agree unm h r m" "orderly jsonb unm m es" "length h + issues es \<le> 200" "\<forall>n. fst (out n)"
  shows "\<exists>m'. agree unm (foldl hist_step h es) (replay jsonb out n es r) m'"
  using assms(1-3)
proof (induction es arbitrary: h r m n)
  case (Cons e es)
  obtain now where out: "out n = (True, now)" using assms(4) by (metis prod.collapse)
  show ?case
  proof (cases e)
    case (RecordIssued site d cmd)
    with Cons.prems have a: "agree unm (hist_step h e) (record_effect jsonb (out n) e r) (m(c_CommandID cmd \<mapsto> d_ID d))"
      unfolding out RecordIssued by (intro agree_issue) auto
    have "orderly jsonb unm (m(c_CommandID cmd \<mapsto> d_ID d)) es" "length (hist_step h e) + issues es \<le> 200"
      using Cons.prems RecordIssued by simp_all
    from Cons.IH [OF a this, of "Suc n"] show ?thesis by simp
  next
    case (RecordAck site ty dev ack)
    with Cons.prems have a: "agree unm (hist_step h e) (record_effect jsonb (out n) e r) m"
      unfolding out RecordAck by (intro agree_ack) auto
    show ?thesis using Cons.IH [OF a] Cons.prems RecordAck by simp
  next
    case (InfluxWrite t)
    with Cons show ?thesis by simp
  next
    case (RecordEvent ev)
    have "agree unm h (record_effect jsonb (out n) e r) m"
      using Cons.prems(1) RecordEvent
      by (simp add: agree_def table_records_def repo_PutEvent_def Let_def split: option.split)
    from Cons.IH [OF this] Cons.prems RecordEvent show ?thesis by simp
  qed
qed auto

lemma agree_empty: "tb_commands r = Map.empty \<Longrightarrow> agree unm [] r Map.empty"
  by (simp add: agree_def table_records_def by_id_def fun_eq_iff)

lemma agree_ListCommands:
  assumes "agree unm h r m" "length h \<le> 200" "range_order (tb_commands r) ks"
  shows "\<exists>cs. repo_ListCommands unm True ks 200 r = Some cs \<and> set (map unstamped cs) = set h \<and> length cs = length h"
proof -
  note h = assms(1) [unfolded agree_def]
  let ?es = "table_entries (tb_commands r) ks"
  let ?cs = "map (scan_command unm) (newest_by (\<lambda>(i, row). cw_updated row) (list_limit 200) ?es)"
  have dom: "dom (tb_commands r) = rec_id ` set h"
  proof -
    have "dom (table_records unm r) = dom (by_id h)" using h by simp
    moreover have "dom (table_records unm r) = dom (tb_commands r)" by (auto simp: table_records_def)
    ultimately show ?thesis by (simp add: by_id_def dom_map_of_conv_image_fst image_image)
  qed
  then have len: "length ?es = length h"
    using length_table_entries [OF assms(3)] h distinct_card [of "map rec_id h"] by simp
  have "set (map unstamped ?cs) = {x. \<exists>i. table_records unm r i = Some x}"
    using assms(2) len
    by (force simp: newest_by_all list_limit_def set_table_entries [OF assms(3)] table_records_def)
  also have "\<dots> = ran (by_id h)" using h by (simp add: ran_def)
  also have "\<dots> = set h"
    using h by (simp add: by_id_def ran_distinct comp_def image_image)
  finally have "set (map unstamped ?cs) = set h" .
  moreover have "length ?cs = length h" using len assms(2) by (simp add: newest_by_def list_limit_def)
  ultimately show ?thesis by (auto simp only: repo_ListCommands_def simp_thms if_False not_True_eq_False option.inject)
qed

lemma orderly_length: "length (foldl hist_step h es) \<le> length h + issues es"
proof (induction es arbitrary: h)
  case (Cons e es)
  show ?case by (rule order_trans [OF Cons [of "hist_step h e", unfolded foldl_Cons [symmetric]]]) (cases e; simp)
qed simp

section \<open>Property\<close>

text \<open>
  C12. A restart brings the history back: for a platform that started with no commands, whatever
  it published and received since, when no more than 200 commands were issued, every command had
  a new id and every acknowledgement came from the device of its command after it, the records
  loaded from the table after a restart are those the old process held, up to the time of the
  last update and the order.
\<close>
theorem restart_restores_commands:
  assumes "(client_step env)\<^sup>*\<^sup>* c0 c" "mc_recorder c0" "mc_effects c0 = []" "Commands (mc_store c0) = []"
    and "orderly jsonb unm Map.empty (mc_effects c)" "issues (mc_effects c) \<le> 200" "\<forall>n. fst (out n)"
    and "tb_commands r0 = Map.empty" "r = replay jsonb out 0 (mc_effects c) r0" "range_order (tb_commands r) ks"
  shows "\<exists>s. loadRecentCommands unm True ks r s0 = Some s \<and>
    set (map unstamped (Commands s)) = set (map unstamped (Commands (mc_store c))) \<and>
    length (Commands s) = length (Commands (mc_store c))"
proof -
  have "logged c" using history.inv_steps [OF assms(1)] assms(2-4) by (simp add: logged_def)
  then have h: "map unstamped (Commands (mc_store c)) = foldl hist_step [] (mc_effects c)" by (simp add: logged_def)
  obtain m where a: "agree unm (foldl hist_step [] (mc_effects c)) r m"
    using agree_replay [OF agree_empty [OF assms(8)] assms(5) _ assms(7), of 0] assms(6,9) by auto
  have "length (foldl hist_step [] (mc_effects c)) \<le> 200"
    using orderly_length [of "[]" "mc_effects c"] assms(6) by simp
  with agree_ListCommands [OF a this assms(10)] obtain cs where cs: "repo_ListCommands unm True ks 200 r = Some cs"
    "set (map unstamped cs) = set (map unstamped (Commands (mc_store c)))" "length cs = length (Commands (mc_store c))"
    "length cs \<le> 200" unfolding h [symmetric] by auto
  then show ?thesis
    by (simp add: loadRecentCommands_def SetCommands_def Commands_def capped_take)
qed

section \<open>Witness\<close>

definition hx_client :: Client where
  "hx_client = fst (PublishCommand ex_env (\<lambda>_ _. None) 5 ''s1'' ex_dev ex_cmd (WithCommandRecorder ex_client))"

definition hx_acked :: Client where
  "hx_acked = handleMessage ex_env True [] (\<lambda>_. 7) (topic_Command ''s1'' ''battery'' ''b1'' @ ''/ack'') ''x'' hx_client"

lemma hx_run: "(client_step ex_env)\<^sup>*\<^sup>* (WithCommandRecorder ex_client) hx_acked"
  unfolding hx_acked_def hx_client_def
  by (meson client_step.message client_step.publish r_into_rtranclp rtranclp.rtrancl_into_rtrancl)

lemma hx_effects: "mc_effects hx_acked =
  [RecordIssued ''s1'' ex_dev ex_cmd, RecordAck ''s1'' ''battery'' ''b1'' \<lparr>a_CommandID = ''b1-1'', a_OK = True, a_Error = [], a_Timestamp = 2\<rparr>]"
proof -
  have c: "mc_effects hx_client = [RecordIssued ''s1'' ex_dev ex_cmd]" "mc_recorder hx_client" "mc_keys hx_client = Map.empty"
    by (simp_all add: hx_client_def PublishCommand_def record_issued_def ex_env_def ex_client_def NewClient_def
        WithCommandRecorder_def Let_def)
  have p: "topic_Parse (topic_Command ''s1'' ''battery'' ''b1'' @ ''/ack'') =
      Some \<lparr>tp_SiteID = ''s1'', tp_DeviceType = ''battery'', tp_DeviceID = ''b1'', tp_Kind = ''command/ack''\<rparr>"
    using ack_topic [of "''s1''" ex_dev] by simp
  show ?thesis
    unfolding hx_acked_def handleMessage_def p
    by (simp add: c VerifyPayload_def keys_Enabled_def handle_ack_def ex_env_def Let_def)
qed

theorem restart_restores_commands_witness:
  "\<exists>s. loadRecentCommands (\<lambda>_. None) True [''b1-1''] (replay id (\<lambda>_. (True, 9)) 0 (mc_effects hx_acked) rx_repo) NewStore = Some s \<and>
     length (Commands s) = length (Commands (mc_store hx_acked))"
proof -
  let ?r = "replay id (\<lambda>_. (True, 9)) 0 (mc_effects hx_acked) rx_repo"
  have c0: "mc_recorder (WithCommandRecorder ex_client)" "mc_effects (WithCommandRecorder ex_client) = []"
    "Commands (mc_store (WithCommandRecorder ex_client)) = []"
    by (simp_all add: WithCommandRecorder_def ex_client_def NewClient_def NewStore_def Commands_def)
  have o: "orderly id (\<lambda>_. None) Map.empty (mc_effects hx_acked)" "issues (mc_effects hx_acked) \<le> 200"
    by (simp_all add: hx_effects survives_def ex_cmd_def marshal_gmap_def scan_json_def int64_ok_def)
  have d: "tb_commands rx_repo = Map.empty" by (simp add: rx_repo_def)
  have k: "range_order (tb_commands ?r) [''b1-1'']"
    by (simp add: hx_effects rx_repo_def range_order_def repo_PutCommandIssued_def repo_PutCommandAck_def ex_cmd_def
        marshal_gmap_def)
  show ?thesis
    using restart_restores_commands [OF hx_run c0 o _ d refl k, of NewStore] by auto
qed

end
