(* ===== verification/Metrics.thy ===== *)
theory Metrics
  imports Store "HOL-Library.Word"
begin

text \<open>
  internal/metrics/prometheus.go: the text of the endpoint /metrics. A Go map is a HOL map with the
  order of its loop as an argument; a map literal of labels is the list of its pairs.

  Contents: the rendering; a reader of the label syntax, as Prometheus documents it, and the round
  trip; the counters; agreement with the device states of the store.
\<close>

section \<open>Numbers\<close>

text \<open>\<open>%.nf\<close>: the exact value to \<open>n\<close> digits, halves to even.\<close>

fun fmt_fixed :: "nat \<Rightarrow> float64 \<Rightarrow> string" where
  "fmt_fixed n NaN = ''NaN''"
| "fmt_fixed n PInf = ''+Inf''"
| "fmt_fixed n NInf = ''-Inf''"
| "fmt_fixed n NZero = ''-0'' @ (if n = 0 then [] else ''.'' @ replicate n (CHR ''0''))"
| "fmt_fixed n (Fin q) =
     (let k = nat (rne (\<bar>q\<bar> * 10 ^ n)) in
      (if q < 0 then ''-'' else []) @ nat_str (k div 10 ^ n) @
      (if n = 0 then [] else ''.'' @ pad_left n (nat_str (k mod 10 ^ n))))"

section \<open>Lines\<close>

abbreviation nl :: string where "nl \<equiv> [CHR 0x0A]"

definition writeHelp :: "string \<Rightarrow> string \<Rightarrow> string" where
  "writeHelp name help = ''# HELP '' @ name @ '' '' @ help @ nl"

definition writeType :: "string \<Rightarrow> string \<Rightarrow> string" where
  "writeType name typ = ''# TYPE '' @ name @ '' '' @ typ @ nl"

definition escapeLabel :: "string \<Rightarrow> string" where
  "escapeLabel v =
     strings_ReplaceAll
       (strings_ReplaceAll (strings_ReplaceAll v (CHR 0x5C) [CHR 0x5C, CHR 0x5C]) (CHR 0x22) [CHR 0x5C, CHR 0x22])
       (CHR 0x0A) [CHR 0x5C, CHR ''n'']"

definition renderLabels :: "(string \<times> string) list \<Rightarrow> string" where
  "renderLabels labels =
     strings_Join (map (\<lambda>(k, v). k @ ''='' @ [CHR 0x22] @ escapeLabel v @ [CHR 0x22]) (sort_Slice (less_on fst) labels)) '',''"

definition writeMetric :: "string \<Rightarrow> (string \<times> string) list \<Rightarrow> float64 \<Rightarrow> string" where
  "writeMetric name labels value = name @ ''{'' @ renderLabels labels @ ''} '' @ fmt_fixed 6 value @ nl"

section \<open>What is counted\<close>

definition DeviceOnlineTTL :: duration where "DeviceOnlineTTL = 30 * Second"

definition metrics_telemetryKey :: "string \<Rightarrow> string \<Rightarrow> string" where
  "metrics_telemetryKey siteID deviceID = siteID @ [CHR 0x00] @ deviceID"

definition telemetryForDevice :: "(string \<rightharpoonup> Telemetry) \<Rightarrow> Device \<Rightarrow> Telemetry option" where
  "telemetryForDevice tele d =
     (case tele (metrics_telemetryKey (d_SiteID d) (d_ID d)) of Some t \<Rightarrow> Some t | None \<Rightarrow> tele (d_ID d))"

definition device_less :: "Device \<Rightarrow> Device \<Rightarrow> bool" where
  "device_less a b = (if d_SiteID a = d_SiteID b then d_ID a < d_ID b else d_SiteID a < d_SiteID b)"

definition sortedDevices :: "Device list \<Rightarrow> Device list" where
  "sortedDevices ds = sort_Slice device_less ds"

definition sorted_keys :: "(string \<rightharpoonup> 'v) \<Rightarrow> string list \<Rightarrow> string list" where
  "sorted_keys m ks = sort_Slice (<) (filter (\<lambda>k. m k \<noteq> None) ks)"

definition sortedMetricKeys :: "(string \<rightharpoonup> float64) \<Rightarrow> string list \<Rightarrow> string list" where
  "sortedMetricKeys m ks = sorted_keys m ks"

definition sortedRejectReasons :: "(string \<rightharpoonup> 64 word) \<Rightarrow> string list \<Rightarrow> string list" where
  "sortedRejectReasons m ks = sorted_keys m ks"

definition count_in :: "('k \<rightharpoonup> int) \<Rightarrow> 'k \<Rightarrow> ('k \<rightharpoonup> int)" where
  "count_in m k = m(k \<mapsto> (case m k of None \<Rightarrow> 0 | Some n \<Rightarrow> n) + 1)"

definition commandStatusCounts :: "CommandRecord list \<Rightarrow> (string \<rightharpoonup> int)" where
  "commandStatusCounts cs =
     foldl (\<lambda>m c. count_in m (r_Status c)) [''issued'' \<mapsto> 0, ''acked'' \<mapsto> 0, ''failed'' \<mapsto> 0] cs"

definition eventSeverity :: "DeviceEvent \<Rightarrow> string" where
  "eventSeverity e = (if e_Severity e = [] then ''info'' else e_Severity e)"

definition eventSeverityCounts :: "DeviceEvent list \<Rightarrow> (string \<rightharpoonup> int)" where
  "eventSeverityCounts es =
     foldl (\<lambda>m e. count_in m (eventSeverity e)) [''info'' \<mapsto> 0, ''warning'' \<mapsto> 0, ''critical'' \<mapsto> 0] es"

type_synonym auditLogKey = "string \<times> string"

definition audit_key :: "AuditLog \<Rightarrow> auditLogKey" where
  "audit_key l = (if l_Action l = [] then ''unknown'' else l_Action l,
     if l_StatusCode l = 0 then ''0'' else fmt_d (l_StatusCode l))"

definition auditLogCounts :: "AuditLog list \<Rightarrow> (auditLogKey \<rightharpoonup> int)" where
  "auditLogCounts ls = foldl (\<lambda>m l. count_in m (audit_key l)) Map.empty ls"

section \<open>The page\<close>

record Snapshot =
  sn_GeneratedAt :: time
  sn_SiteID :: string
  sn_Summary :: SiteSummary
  sn_Devices :: "Device list"
  sn_Telemetry :: "string \<rightharpoonup> Telemetry"
  sn_Commands :: "CommandRecord list"
  sn_Events :: "DeviceEvent list"
  sn_AuditLogs :: "AuditLog list"
  sn_MQTTRejects :: "string \<rightharpoonup> 64 word"

text \<open>
  The orders of the loops: the metrics of a telemetry, the status counts, the severity counts, the
  audit counts, the reject reasons.
\<close>

record RenderOrders =
  ro_metrics :: "Telemetry \<Rightarrow> string list"
  ro_status :: "string list"
  ro_severity :: "string list"
  ro_audit :: "auditLogKey list"
  ro_rejects :: "string list"

definition device_online :: "Snapshot \<Rightarrow> Device \<Rightarrow> bool" where
  "device_online s d =
     (case telemetryForDevice (sn_Telemetry s) d of
        None \<Rightarrow> False
      | Some tele \<Rightarrow> time_Sub (sn_GeneratedAt s) (time_Unix (t_Timestamp tele)) \<le> DeviceOnlineTTL)"

definition render_device :: "RenderOrders \<Rightarrow> Snapshot \<Rightarrow> Device \<Rightarrow> string" where
  "render_device ro s d =
     (let tele = (case telemetryForDevice (sn_Telemetry s) d of None \<Rightarrow> zero_Telemetry | Some t \<Rightarrow> t);
          baseLabels = [(''site_id'', d_SiteID d), (''device_id'', d_ID d), (''device_type'', d_Type d)] in
      writeMetric ''vpp_device_online'' baseLabels (if device_online s d then Fin 1 else Fin 0) @
      concat (map (\<lambda>key. writeMetric ''vpp_device_metric'' (baseLabels @ [(''metric'', key)]) (metric (t_Metrics tele) key))
        (sortedMetricKeys (t_Metrics tele) (ro_metrics ro tele))))"

definition render_counts :: "string \<Rightarrow> string \<Rightarrow> string \<Rightarrow> (string \<rightharpoonup> int) \<Rightarrow> string list \<Rightarrow> string" where
  "render_counts name site label m ks =
     concat (map (\<lambda>k. case m k of None \<Rightarrow> [] | Some n \<Rightarrow>
       writeMetric name [(''site_id'', site), (label, k)] (f_of_int n)) ks)"

definition render_audit :: "string \<Rightarrow> (auditLogKey \<rightharpoonup> int) \<Rightarrow> auditLogKey list \<Rightarrow> string" where
  "render_audit site m ks =
     concat (map (\<lambda>k. case m k of None \<Rightarrow> [] | Some n \<Rightarrow>
       writeMetric ''vpp_audit_logs_total'' [(''site_id'', site), (''action'', fst k), (''status_code'', snd k)] (f_of_int n)) ks)"

definition RenderPrometheus :: "RenderOrders \<Rightarrow> Snapshot \<Rightarrow> string" where
  "RenderPrometheus ro s =
     (let site = sn_SiteID s; sm = sn_Summary s;
          power = (\<lambda>c v. writeMetric ''vpp_site_power_w'' [(''site_id'', site), (''component'', c)] v) in
      writeHelp ''vpp_site_power_w'' ''Site power by component.'' @
      writeType ''vpp_site_power_w'' ''gauge'' @
      power ''pv'' (s_PVPowerW sm) @ power ''load'' (s_LoadPowerW sm) @
      power ''battery'' (s_BatteryPower sm) @ power ''net'' (s_NetPowerW sm) @
      writeHelp ''vpp_site_battery_soc'' ''Average site battery SOC ratio.'' @
      writeType ''vpp_site_battery_soc'' ''gauge'' @
      writeMetric ''vpp_site_battery_soc'' [(''site_id'', site)] (s_AvgSOC sm) @
      writeHelp ''vpp_device_online'' ''Device online state based on last telemetry timestamp.'' @
      writeType ''vpp_device_online'' ''gauge'' @
      writeHelp ''vpp_device_metric'' ''Latest device telemetry metric.'' @
      writeType ''vpp_device_metric'' ''gauge'' @
      concat (map (render_device ro s) (sortedDevices (sn_Devices s))) @
      writeHelp ''vpp_command_records_total'' ''Recent command records by status.'' @
      writeType ''vpp_command_records_total'' ''gauge'' @
      render_counts ''vpp_command_records_total'' site ''status'' (commandStatusCounts (sn_Commands s)) (ro_status ro) @
      writeHelp ''vpp_device_events_total'' ''Recent device events by severity.'' @
      writeType ''vpp_device_events_total'' ''gauge'' @
      render_counts ''vpp_device_events_total'' site ''severity'' (eventSeverityCounts (sn_Events s)) (ro_severity ro) @
      writeHelp ''vpp_audit_logs_total'' ''Recent control operation audit logs by action and status code.'' @
      writeType ''vpp_audit_logs_total'' ''gauge'' @
      render_audit site (auditLogCounts (sn_AuditLogs s)) (ro_audit ro) @
      writeHelp ''vpp_mqtt_rejected_messages_total'' ''MQTT messages rejected by the platform.'' @
      writeType ''vpp_mqtt_rejected_messages_total'' ''counter'' @
      concat (map (\<lambda>reason. writeMetric ''vpp_mqtt_rejected_messages_total'' [(''site_id'', site), (''reason'', reason)]
          (f_of_int (case sn_MQTTRejects s reason of None \<Rightarrow> 0 | Some n \<Rightarrow> uint n)))
        (sortedRejectReasons (sn_MQTTRejects s) (ro_rejects ro))))"

section \<open>Reading a line\<close>

text \<open>
  The documented syntax of a sample: a name, labels in braces with quoted values in which a
  backslash escapes a backslash, a quote or a newline, and a value up to the end of the line.
\<close>

fun read_value :: "string \<Rightarrow> (string \<times> string) option" where
  "read_value [] = None"
| "read_value (c # s) =
     (if c = CHR 0x22 then Some ([], s)
      else if c = CHR 0x0A then None
      else if c = CHR 0x5C then
        (case s of
           [] \<Rightarrow> None
         | d # s' \<Rightarrow> map_option (apfst (Cons (if d = CHR ''n'' then CHR 0x0A else d))) (read_value s'))
      else map_option (apfst (Cons c)) (read_value s))"

fun read_labels :: "nat \<Rightarrow> string \<Rightarrow> ((string \<times> string) list \<times> string) option" where
  "read_labels 0 s = None"
| "read_labels (Suc n) s =
     (case strings_Cut (CHR ''='') s of
        (k, q # s1, True) \<Rightarrow>
          if q \<noteq> CHR 0x22 then None
          else (case read_value s1 of
              Some (v, c # s2) \<Rightarrow>
                if c = CHR '','' then map_option (apfst (Cons (k, v))) (read_labels n s2)
                else if c = CHR ''}'' then Some ([(k, v)], s2) else None
            | _ \<Rightarrow> None)
      | _ \<Rightarrow> None)"

definition read_sample :: "string \<Rightarrow> (string \<times> (string \<times> string) list \<times> string \<times> string) option" where
  "read_sample s =
     (case strings_Cut (CHR ''{'') s of
        (name, s1, True) \<Rightarrow>
          (case read_labels (length s1) s1 of
             Some (labels, c # s2) \<Rightarrow>
               if c \<noteq> CHR '' '' then None
               else (case strings_Cut (CHR 0x0A) s2 of
                   (value, rest, True) \<Rightarrow> Some (name, labels, value, rest)
                 | _ \<Rightarrow> None)
           | _ \<Rightarrow> None)
      | _ \<Rightarrow> None)"

definition esc_label :: "char \<Rightarrow> string" where
  "esc_label c = (if c = CHR 0x5C then [CHR 0x5C, CHR 0x5C] else if c = CHR 0x22 then [CHR 0x5C, CHR 0x22]
     else if c = CHR 0x0A then [CHR 0x5C, CHR ''n''] else [c])"

text \<open>The three replacements one after the other act on each character once.\<close>

lemma strings_ReplaceAll_append [simp]:
  "strings_ReplaceAll (a @ b) c r = strings_ReplaceAll a c r @ strings_ReplaceAll b c r"
  by (simp add: strings_ReplaceAll_def)

lemma escapeLabel_eq: "escapeLabel v = concat (map esc_label v)"
  by (induction v) (simp_all add: escapeLabel_def strings_ReplaceAll_def esc_label_def)

lemma read_value_escape: "read_value (concat (map esc_label v) @ CHR 0x22 # rest) = Some (v, rest)"
  by (induction v) (auto simp: esc_label_def)

definition label_name :: "string \<Rightarrow> bool" where
  "label_name k \<longleftrightarrow> CHR ''='' \<notin> set k"

definition label_text :: "string \<times> string \<Rightarrow> string" where
  "label_text kv = (case kv of (k, v) \<Rightarrow> k @ ''='' @ [CHR 0x22] @ escapeLabel v @ [CHR 0x22])"

lemma read_labels_text:
  assumes "label_name k"
  shows "read_labels (Suc n) (label_text (k, v) @ c # s2) =
    (if c = CHR '','' then map_option (apfst (Cons (k, v))) (read_labels n s2)
     else if c = CHR ''}'' then Some ([(k, v)], s2) else None)"
  using assms strings_Cut_append [of "CHR ''=''" k "CHR 0x22 # escapeLabel v @ CHR 0x22 # c # s2"]
    read_value_escape [of v "c # s2"]
  by (simp add: label_text_def label_name_def escapeLabel_eq)

lemma read_labels_join:
  assumes "ls \<noteq> []" "\<forall>(k, v) \<in> set ls. label_name k" "length ls \<le> n"
  shows "read_labels n (strings_Join (map label_text ls) '','' @ CHR ''}'' # rest) = Some (ls, rest)"
  using assms
proof (induction ls arbitrary: n)
  case (Cons kv ls)
  obtain k v where kv: "kv = (k, v)" by force
  then have k: "label_name k" using Cons.prems(2) by simp
  obtain n' where n: "n = Suc n'" using Cons.prems(3) by (cases n) auto
  show ?case
  proof (cases "ls = []")
    case True
    then show ?thesis using read_labels_text [OF k, of n' v "CHR ''}''" rest] by (simp add: kv n)
  next
    case False
    then have "read_labels n' (strings_Join (map label_text ls) '','' @ CHR ''}'' # rest) = Some (ls, rest)"
      using Cons n by simp
    with False show ?thesis
      using read_labels_text [OF k, of n' v "CHR '',''" "strings_Join (map label_text ls) '','' @ CHR ''}'' # rest"]
      by (simp add: kv n strings_Join_Cons)
  qed
qed simp

lemma length_join: "length ls \<le> length (strings_Join (map label_text ls) '','' @ CHR ''}'' # rest)"
proof (induction ls)
  case (Cons kv ls)
  then show ?case by (cases "ls = []"; cases kv) (simp_all add: strings_Join_Cons label_text_def)
qed simp

lemma nat_str_no_nl: "CHR 0x0A \<notin> set (nat_str n)"
proof
  assume "CHR 0x0A \<in> set (nat_str n)"
  then obtain d :: nat where d: "d < 10" "CHR 0x0A = (char_of (48 + d) :: char)" using nat_str_digits [of n] by blast
  have "(10 :: nat) = of_char (CHR 0x0A)" by simp
  also have "\<dots> = 48 + d" unfolding d(2) using d(1) by (simp add: of_char_of)
  finally show False by simp
qed

lemma fmt_fixed_no_nl: "CHR 0x0A \<notin> set (fmt_fixed n v)"
  by (cases v) (auto simp: Let_def pad_left_def nat_str_no_nl)

section \<open>Counting\<close>

lemma count_in_foldl:
  "foldl (\<lambda>m x. count_in m (f x)) m xs k =
    (let n = length (filter (\<lambda>x. f x = k) xs) in
     if n > 0 then Some ((case m k of None \<Rightarrow> 0 | Some j \<Rightarrow> j) + int n) else m k)"
proof (induction xs arbitrary: m)
  case (Cons x xs)
  then show ?case by (auto simp: count_in_def Let_def)
qed simp

section \<open>Properties\<close>

text \<open>
  C34. No label value can break a line: whatever characters site, device and event names contain, a
  reader of the documented syntax reads a sample back as its name, its labels in the order of
  their names with the original values, and the text of the value, and goes on after the line.
\<close>
theorem sample_reads_back:
  assumes "CHR ''{'' \<notin> set name" "labels \<noteq> []" "\<forall>(k, v) \<in> set labels. label_name k"
  shows "read_sample (writeMetric name labels x @ rest) =
    Some (name, sort_Slice (less_on fst) labels, fmt_fixed 6 x, rest)"
proof -
  let ?ls = "sort_Slice (less_on fst) labels"
  let ?s = "'' '' @ fmt_fixed 6 x @ nl @ rest"
  have labs: "renderLabels labels = strings_Join (map label_text ?ls) '',''"
    by (simp add: renderLabels_def label_text_def [abs_def])
  have ls: "?ls \<noteq> []" "\<forall>(k, v) \<in> set ?ls. label_name k"
    using assms(2,3) by (metis length_0_conv length_sort_Slice, simp)
  have "writeMetric name labels x @ rest = name @ CHR ''{'' # strings_Join (map label_text ?ls) '','' @ CHR ''}'' # ?s"
    by (simp add: writeMetric_def labs)
  moreover have "read_labels (length (strings_Join (map label_text ?ls) '','' @ CHR ''}'' # ?s))
      (strings_Join (map label_text ?ls) '','' @ CHR ''}'' # ?s) = Some (?ls, ?s)"
    by (rule read_labels_join [OF ls length_join])
  ultimately show ?thesis
    using assms(1) strings_Cut_append [OF fmt_fixed_no_nl [of 6 x], of rest] by (simp add: read_sample_def)
qed

theorem sample_reads_back_witness:
  "read_sample (writeMetric ''m'' [(''site'', [CHR 0x22, CHR 0x0A])] (Fin 1) @ ''rest'') =
    Some (''m'', [(''site'', [CHR 0x22, CHR 0x0A])], fmt_fixed 6 (Fin 1), ''rest'')"
  using sample_reads_back [of "''m''" "[(''site'', [CHR 0x22, CHR 0x0A])]" "Fin 1" "''rest''"]
  by (simp add: label_name_def)

text \<open>
  The counters are the numbers of records: for each status, severity and pair of action and
  status code the count of the history's entries, with zero for the usual statuses and severities
  that do not occur and no other key.
\<close>
theorem counters_count:
  "commandStatusCounts cs st = (let n = length (filter (\<lambda>c. r_Status c = st) cs) in
     if n > 0 \<or> st \<in> {''issued'', ''acked'', ''failed''} then Some (int n) else None) \<and>
   eventSeverityCounts es sv = (let n = length (filter (\<lambda>e. eventSeverity e = sv) es) in
     if n > 0 \<or> sv \<in> {''info'', ''warning'', ''critical''} then Some (int n) else None) \<and>
   auditLogCounts ls k = (let n = length (filter (\<lambda>l. audit_key l = k) ls) in if n > 0 then Some (int n) else None)"
proof (intro conjI)
  show "commandStatusCounts cs st = (let n = length (filter (\<lambda>c. r_Status c = st) cs) in
     if n > 0 \<or> st \<in> {''issued'', ''acked'', ''failed''} then Some (int n) else None)"
    unfolding commandStatusCounts_def count_in_foldl Let_def by simp
  show "eventSeverityCounts es sv = (let n = length (filter (\<lambda>e. eventSeverity e = sv) es) in
     if n > 0 \<or> sv \<in> {''info'', ''warning'', ''critical''} then Some (int n) else None)"
    unfolding eventSeverityCounts_def count_in_foldl Let_def by simp
  show "auditLogCounts ls k = (let n = length (filter (\<lambda>l. audit_key l = k) ls) in if n > 0 then Some (int n) else None)"
    unfolding auditLogCounts_def count_in_foldl Let_def by simp
qed

text \<open>
  C39. The page and the device listing agree: for a device of the store whose id has no zero byte,
  the sample of \<open>vpp_device_online\<close> is one exactly when \<open>DeviceStates\<close> reports it online at the
  same time.
\<close>
theorem online_agrees_with_states:
  assumes "store_inv s" "nul_free (d_ID d)" "DeviceOnlineTTL < now"
    and "sn_Telemetry sn = store_Telemetry s" "sn_GeneratedAt sn = now"
  shows "device_online sn d = rs_Online (deviceState s (d_SiteID d) now DeviceOnlineTTL d)"
proof -
  have none: "telemetry s (d_ID d) = None"
  proof (cases "telemetry s (d_ID d)")
    case (Some t)
    then have "d_ID d = stateKey (t_SiteID t) (t_DeviceID t)" using assms(1) by (rule store_inv_tele_key [rotated])
    with assms(2) show ?thesis by (simp add: stateKey_def)
  qed simp
  have old: "\<not> time_Sub now 0 \<le> DeviceOnlineTTL"
    using assms(3) sat64_le_iff [of DeviceOnlineTTL now] by (simp add: time_Sub_def DeviceOnlineTTL_def int64_ok_def)
  show ?thesis
    using none old
    by (auto simp: device_online_def telemetryForDevice_def assms(4,5) store_Telemetry_def metrics_telemetryKey_def
        stateKey_def deviceState_def Let_def time_IsZero_def DeviceOnlineTTL_def split: option.split)
qed

definition mx_store :: Store where
  "mx_store = memTelemetry NewStore (zero_Telemetry\<lparr>t_SiteID := ''s1'', t_DeviceID := ''p1''\<rparr>)"

definition mx_snapshot :: Snapshot where
  "mx_snapshot = \<lparr>sn_GeneratedAt = (unix_to_internal + 5) * Second, sn_SiteID = ''s1'', sn_Summary = zero_SiteSummary,
     sn_Devices = [], sn_Telemetry = store_Telemetry mx_store, sn_Commands = [], sn_Events = [], sn_AuditLogs = [],
     sn_MQTTRejects = Map.empty\<rparr>"

theorem online_agrees_with_states_witness:
  "rs_Online (deviceState mx_store ''s1'' ((unix_to_internal + 5) * Second) DeviceOnlineTTL
     (zero_Device\<lparr>d_ID := ''p1'', d_SiteID := ''s1''\<rparr>))"
proof -
  let ?d = "zero_Device\<lparr>d_ID := ''p1'', d_SiteID := ''s1''\<rparr>"
  have inv: "store_inv mx_store" unfolding mx_store_def by (intro store_inv_memTelemetry store_inv_New)
  have "DeviceOnlineTTL < (unix_to_internal + 5) * Second" by (simp add: DeviceOnlineTTL_def)
  from online_agrees_with_states [OF inv _ this, of ?d mx_snapshot]
  have "device_online mx_snapshot ?d =
      rs_Online (deviceState mx_store ''s1'' ((unix_to_internal + 5) * Second) DeviceOnlineTTL ?d)"
    by (simp add: mx_snapshot_def)
  moreover have "device_online mx_snapshot ?d"
    by (simp add: device_online_def mx_snapshot_def telemetryForDevice_def store_Telemetry_def mx_store_def
        memTelemetry_def metrics_telemetryKey_def stateKey_def zero_Telemetry_def time_Sub_def sat64_def
        DeviceOnlineTTL_def time_Unix_def wrap64_def)
  ultimately show ?thesis by simp
qed

end
