(* ===== verification/Api_Server.thy ===== *)
theory Api_Server
  imports Scheduler Dispatch Metrics Command_History
begin

text \<open>
  internal/api/server.go: the HTTP API of the platform. A request is its method, the decoded
  segments of its path, its headers, body and remote address; a handler is a function from the
  server's state to a reply and the new state. The reply holds the value that is then written as
  JSON. A handler that panics replies \<open>Aborted\<close>, as package net/http drops the connection.

  The state is what the handlers reach: the MQTT client with the state store (the publisher), the
  scheduler, the repository (device saver and audit recorder). \<open>ApiEnv\<close> holds the inputs of one
  request: the readings of the clock in the order they are made, the decoders of request bodies,
  the broker's and the database's answers, the orders of map loops, the zone.

  Contents: routing; authorisation and audit; the handlers; what each of them can change; the
  invariant of the server; properties.
\<close>

section \<open>Requests and replies\<close>

record HttpRequest =
  hq_Method :: string
  hq_Segments :: "string list"
  hq_Header :: "string \<Rightarrow> string"
  hq_Body :: string
  hq_RemoteAddr :: string

definition url_path :: "HttpRequest \<Rightarrow> string" where
  "url_path r = concat (map (Cons (CHR ''/'')) (hq_Segments r))"

datatype Body =
    BError string
  | BText string
  | BConsole
  | BHealth string "string \<rightharpoonup> string"
  | BDevices "Device list"
  | BDevice Device
  | BSummary SiteSummary
  | BStates "DeviceRuntimeState list"
  | BPlan Plan
  | BPreview Preview
  | BDecision ApplyDecision
  | BApplied string Device Command Preview ApplyDecision
  | BCommands "CommandRecord list"
  | BEvents "DeviceEvent list"
  | BAuditLogs "AuditLog list"
  | BPolicy Policy
  | BCommand Command

datatype Response = Reply int Body | Aborted

record Server =
  sv_siteID :: string
  sv_client :: Client
  sv_sched :: Scheduler
  sv_repo :: DeviceRepository
  sv_has_devices :: bool
  sv_has_audit :: bool
  sv_token :: string

record ApiEnv =
  ae_clk :: "nat \<Rightarrow> time"
  ae_zone :: zone
  ae_sin :: "float64 \<Rightarrow> float64"
  ae_mqtt :: MqttEnv
  ae_broker :: "string \<Rightarrow> string \<Rightarrow> string option"
  ae_jsonb :: "string \<Rightarrow> string"
  ae_unmarshal :: "string \<Rightarrow> gmap"
  ae_db_ok :: "nat \<Rightarrow> bool"
  ae_dbnow :: time
  ae_db_err :: string
  ae_marshal_err :: string
  ae_dev_order :: "string list"
  ae_tele_order :: "string list"
  ae_audit_order :: "string list"
  ae_render :: RenderOrders
  ae_checks :: "(string \<times> string option option) list"
  ae_device :: "string \<Rightarrow> string + Device"
  ae_config :: "string \<Rightarrow> string + Config"
  ae_apply :: "string \<Rightarrow> string + ApplyRequest"
  ae_policy :: "string \<Rightarrow> string + Policy"
  ae_command :: "string \<Rightarrow> string + Command"

text \<open>\<open>New\<close>, \<open>WithControlToken\<close> and \<open>WithAuditRecorder\<close>.\<close>

definition api_New :: "string \<Rightarrow> Client \<Rightarrow> Scheduler \<Rightarrow> DeviceRepository \<Rightarrow> bool \<Rightarrow> Server" where
  "api_New siteID client sch repo saver =
     \<lparr>sv_siteID = siteID, sv_client = client, sv_sched = sch, sv_repo = repo, sv_has_devices = saver,
      sv_has_audit = False, sv_token = []\<rparr>"

definition WithControlToken :: "string \<Rightarrow> Server \<Rightarrow> Server" where
  "WithControlToken token sv = sv\<lparr>sv_token := strings_TrimSpace token\<rparr>"

definition WithAuditRecorder :: "Server \<Rightarrow> Server" where
  "WithAuditRecorder sv = sv\<lparr>sv_has_audit := True\<rparr>"

abbreviation sv_store :: "Server \<Rightarrow> Store" where
  "sv_store sv \<equiv> mc_store (sv_client sv)"

section \<open>Routing\<close>

datatype endpoint =
    EConsole | EHealth | EMetrics | EListDevices | EUpsertDevice
  | ESummary string | EDeviceStates string | EPlan string | ECustomPlan string
  | EPreview string | ECustomPreview string | EApply string
  | ECommands | EEvents | EAuditLogs | EGetPolicy | ESetPolicy
  | ECommand string string

text \<open>
  \<open>http.ServeMux\<close> with the patterns of \<open>Handler\<close>: a pattern for GET also takes HEAD, a wildcard
  takes one segment that is not empty, the pattern "GET /" takes what no other takes. \<open>None\<close> is the
  answer 405 (the pattern for the root makes 404 impossible).
\<close>

definition is_get :: "string \<Rightarrow> bool" where
  "is_get m \<longleftrightarrow> m = ''GET'' \<or> m = ''HEAD''"

definition route_specific :: "string \<Rightarrow> string list \<Rightarrow> endpoint option" where
  "route_specific m segs =
     (case segs of
        [a] \<Rightarrow>
          if is_get m \<and> a = ''healthz'' then Some EHealth
          else if is_get m \<and> a = ''metrics'' then Some EMetrics else None
      | [a, b, c] \<Rightarrow>
          if a \<noteq> ''api'' \<or> b \<noteq> ''v1'' then None
          else if is_get m \<and> c = ''devices'' then Some EListDevices
          else if m = ''POST'' \<and> c = ''devices'' then Some EUpsertDevice
          else if is_get m \<and> c = ''commands'' then Some ECommands
          else if is_get m \<and> c = ''events'' then Some EEvents
          else if is_get m \<and> c = ''audit-logs'' then Some EAuditLogs else None
      | [a, b, c, d] \<Rightarrow>
          if a \<noteq> ''api'' \<or> b \<noteq> ''v1'' \<or> c \<noteq> ''policies'' \<or> d \<noteq> ''default'' then None
          else if is_get m then Some EGetPolicy
          else if m = ''PUT'' then Some ESetPolicy else None
      | [a, b, c, d, e] \<Rightarrow>
          if a \<noteq> ''api'' \<or> b \<noteq> ''v1'' \<or> d = [] then None
          else if c = ''sites'' then
            (if is_get m \<and> e = ''summary'' then Some (ESummary d)
             else if is_get m \<and> e = ''device-states'' then Some (EDeviceStates d)
             else if is_get m \<and> e = ''plan'' then Some (EPlan d)
             else if m = ''POST'' \<and> e = ''plan'' then Some (ECustomPlan d)
             else if is_get m \<and> e = ''dispatch-preview'' then Some (EPreview d)
             else if m = ''POST'' \<and> e = ''dispatch-preview'' then Some (ECustomPreview d)
             else None)
          else if m = ''POST'' \<and> c = ''devices'' \<and> e = ''command'' then Some (ECommand [] d)
          else None
      | [a, b, c, d, e, f] \<Rightarrow>
          if a = ''api'' \<and> b = ''v1'' \<and> c = ''sites'' \<and> d \<noteq> [] \<and> e = ''dispatch'' \<and> f = ''apply'' \<and> m = ''POST''
          then Some (EApply d) else None
      | [a, b, c, d, e, f, g] \<Rightarrow>
          if a = ''api'' \<and> b = ''v1'' \<and> c = ''sites'' \<and> d \<noteq> [] \<and> e = ''devices'' \<and> f \<noteq> [] \<and> g = ''command'' \<and> m = ''POST''
          then Some (ECommand d f) else None
      | _ \<Rightarrow> None)"

definition route :: "HttpRequest \<Rightarrow> endpoint option" where
  "route r =
     (case route_specific (hq_Method r) (hq_Segments r) of
        Some e \<Rightarrow> Some e
      | None \<Rightarrow> if is_get (hq_Method r) then Some EConsole else None)"

text \<open>\<open>PathValue\<close> after routing: the site and the device.\<close>

fun path_values :: "endpoint \<Rightarrow> string \<times> string" where
  "path_values (ESummary s) = (s, [])"
| "path_values (EDeviceStates s) = (s, [])"
| "path_values (EPlan s) = (s, [])"
| "path_values (ECustomPlan s) = (s, [])"
| "path_values (EPreview s) = (s, [])"
| "path_values (ECustomPreview s) = (s, [])"
| "path_values (EApply s) = (s, [])"
| "path_values (ECommand s d) = (s, d)"
| "path_values _ = ([], [])"

section \<open>Authorisation\<close>

definition api_bearerToken :: "string \<Rightarrow> string" where
  "api_bearerToken header =
     (if \<not> strings_HasPrefix header ''Bearer '' then []
      else strings_TrimSpace (strings_TrimPrefix header ''Bearer ''))"

definition requireControl :: "Server \<Rightarrow> HttpRequest \<Rightarrow> bool" where
  "requireControl sv r =
     (if sv_token sv = [] then True
      else
        let t0 = strings_TrimSpace (hq_Header r ''X-VPP-Control-Token'');
            token = (if t0 = [] then api_bearerToken (hq_Header r ''Authorization'') else t0) in
        token = sv_token sv)"

abbreviation unauthorized :: Response where
  "unauthorized \<equiv> Reply 401 (BError ''control token required'')"

definition site_or_default :: "Server \<Rightarrow> string \<Rightarrow> string" where
  "site_or_default sv siteID = (if siteID = [] then sv_siteID sv else siteID)"

section \<open>Reading handlers\<close>

definition api_health :: "(string \<times> string option option) list \<Rightarrow> Response" where
  "api_health cs =
     (case foldl (\<lambda>(code, status, checks) (name, check).
              case check of
                None \<Rightarrow> (code, status, checks)
              | Some answer \<Rightarrow>
                  if name = [] then (code, status, checks)
                  else (case answer of
                      Some err \<Rightarrow> (503, ''degraded'', checks(name \<mapsto> err))
                    | None \<Rightarrow> (code, status, checks(name \<mapsto> ''ok''))))
            (200, ''ok'', Map.empty) cs of
        (code, status, checks) \<Rightarrow> Reply code (BHealth status checks))"

definition recentAuditLogs :: "ApiEnv \<Rightarrow> Server \<Rightarrow> AuditLog list" where
  "recentAuditLogs env sv =
     (if \<not> sv_has_audit sv then []
      else (case repo_ListAuditLogs (ae_unmarshal env) (ae_db_ok env 0) (ae_audit_order env) 200 (sv_repo sv) of
          None \<Rightarrow> [] | Some ls \<Rightarrow> ls))"

definition site_summary :: "ApiEnv \<Rightarrow> Server \<Rightarrow> string \<Rightarrow> SiteSummary" where
  "site_summary env sv siteID = Summary (ae_tele_order env) (sv_store sv) siteID"

definition api_metrics :: "ApiEnv \<Rightarrow> Server \<Rightarrow> Response" where
  "api_metrics env sv =
     Reply 200 (BText (RenderPrometheus (ae_render env)
       \<lparr>sn_GeneratedAt = ae_clk env 0, sn_SiteID = sv_siteID sv,
        sn_Summary = site_summary env sv (sv_siteID sv),
        sn_Devices = Devices (ae_dev_order env) (sv_store sv), sn_Telemetry = store_Telemetry (sv_store sv),
        sn_Commands = Commands (sv_store sv), sn_Events = Events (sv_store sv),
        sn_AuditLogs = recentAuditLogs env sv, sn_MQTTRejects = RejectedMessages (sv_client sv)\<rparr>))"

definition api_summary :: "ApiEnv \<Rightarrow> Server \<Rightarrow> string \<Rightarrow> Response" where
  "api_summary env sv site = Reply 200 (BSummary (site_summary env sv (site_or_default sv site)))"

definition api_deviceStates :: "ApiEnv \<Rightarrow> Server \<Rightarrow> string \<Rightarrow> Response" where
  "api_deviceStates env sv site =
     Reply 200 (BStates (DeviceStates (ae_dev_order env) (sv_store sv) (site_or_default sv site) (ae_clk env 0) DeviceOnlineTTL))"

definition build_plan :: "ApiEnv \<Rightarrow> Server \<Rightarrow> string \<Rightarrow> Config \<Rightarrow> Plan option" where
  "build_plan env sv siteID cfg =
     BuildDayAheadPlan (ae_sin env) (ae_zone env) (ae_clk env 0) (site_summary env sv siteID) cfg"

definition api_plan :: "ApiEnv \<Rightarrow> Server \<Rightarrow> string \<Rightarrow> Response" where
  "api_plan env sv site =
     (case build_plan env sv (site_or_default sv site) DefaultConfig of None \<Rightarrow> Aborted | Some p \<Rightarrow> Reply 200 (BPlan p))"

definition api_customPlan :: "ApiEnv \<Rightarrow> Server \<Rightarrow> string \<Rightarrow> string \<Rightarrow> Response" where
  "api_customPlan env sv site body =
     (case ae_config env body of
        Inl err \<Rightarrow> Reply 400 (BError err)
      | Inr cfg \<Rightarrow>
          (case ValidateConfig cfg of
             Some err \<Rightarrow> Reply 400 (BError err)
           | None \<Rightarrow>
               (case build_plan env sv (site_or_default sv site) cfg of None \<Rightarrow> Aborted | Some p \<Rightarrow> Reply 200 (BPlan p))))"

definition build_preview :: "ApiEnv \<Rightarrow> Server \<Rightarrow> string \<Rightarrow> Config \<Rightarrow> Preview option" where
  "build_preview env sv siteID cfg =
     BuildPreview (ae_sin env) (ae_zone env) (ae_clk env 0) (site_summary env sv siteID)
       (Devices (ae_dev_order env) (sv_store sv)) cfg"

definition api_dispatchPreview :: "ApiEnv \<Rightarrow> Server \<Rightarrow> string \<Rightarrow> Response" where
  "api_dispatchPreview env sv site =
     (case build_preview env sv (site_or_default sv site) DefaultConfig of None \<Rightarrow> Aborted | Some p \<Rightarrow> Reply 200 (BPreview p))"

definition api_customDispatchPreview :: "ApiEnv \<Rightarrow> Server \<Rightarrow> string \<Rightarrow> string \<Rightarrow> Response" where
  "api_customDispatchPreview env sv site body =
     (case ae_config env body of
        Inl err \<Rightarrow> Reply 400 (BError err)
      | Inr cfg \<Rightarrow>
          (case ValidateConfig cfg of
             Some err \<Rightarrow> Reply 400 (BError err)
           | None \<Rightarrow>
               (case build_preview env sv (site_or_default sv site) cfg of None \<Rightarrow> Aborted | Some p \<Rightarrow> Reply 200 (BPreview p))))"

definition api_auditLogs :: "ApiEnv \<Rightarrow> Server \<Rightarrow> Response" where
  "api_auditLogs env sv =
     (if \<not> sv_has_audit sv then Reply 200 (BAuditLogs [])
      else (case repo_ListAuditLogs (ae_unmarshal env) (ae_db_ok env 0) (ae_audit_order env) 200 (sv_repo sv) of
          None \<Rightarrow> Reply 502 (BError (ae_db_err env))
        | Some ls \<Rightarrow> Reply 200 (BAuditLogs ls)))"

section \<open>Changing handlers\<close>

definition api_upsertDevice :: "ApiEnv \<Rightarrow> HttpRequest \<Rightarrow> Server \<Rightarrow> Response \<times> Server" where
  "api_upsertDevice env r sv =
     (if \<not> requireControl sv r then (unauthorized, sv)
      else case ae_device env (hq_Body r) of
        Inl err \<Rightarrow> (Reply 400 (BError err), sv)
      | Inr d0 \<Rightarrow>
          let d1 = (if d_SiteID d0 = [] then d0\<lparr>d_SiteID := sv_siteID sv\<rparr> else d0) in
          if d_ID d1 = [] \<or> d_Type d1 = [] then (Reply 400 (BError ''id and type are required''), sv)
          else
            let d = (if d_Name d1 = [] then d1\<lparr>d_Name := d_ID d1\<rparr> else d1);
                (repo, saved) = (if sv_has_devices sv then repo_Upsert (ae_db_ok env 0) (ae_clk env 0) d (sv_repo sv)
                                 else (sv_repo sv, True));
                sv1 = sv\<lparr>sv_repo := repo\<rparr> in
            if \<not> saved then (Reply 502 (BError (ae_db_err env)), sv1)
            else
              (Reply 200 (BDevice d),
               sv1\<lparr>sv_client := (sv_client sv1)\<lparr>mc_store := UpsertDevice (ae_clk env 1) (sv_store sv1) d\<rparr>\<rparr>))"

text \<open>Publishing through the MQTT client, whose recorder is the repository.\<close>

definition api_publish :: "ApiEnv \<Rightarrow> time \<Rightarrow> string \<Rightarrow> Device \<Rightarrow> Command \<Rightarrow> Server \<Rightarrow> Server \<times> publish_error option" where
  "api_publish env now siteID d cmd sv =
     (case PublishCommand (ae_mqtt env) (ae_broker env) now siteID d cmd (sv_client sv) of
        (c, err) \<Rightarrow>
          (sv\<lparr>sv_client := c,
              sv_repo := (if err = None \<and> mc_recorder c
                then record_effect (ae_jsonb env) (ae_db_ok env 1, ae_dbnow env) (RecordIssued siteID d cmd) (sv_repo sv)
                else sv_repo sv)\<rparr>, err))"

definition publish_text :: "ApiEnv \<Rightarrow> publish_error \<Rightarrow> string" where
  "publish_text env e = (case e of CmdMarshalError \<Rightarrow> ae_marshal_err env | PublishError msg \<Rightarrow> msg)"

definition api_applyDispatch :: "ApiEnv \<Rightarrow> string \<Rightarrow> HttpRequest \<Rightarrow> Server \<Rightarrow> Response \<times> Server" where
  "api_applyDispatch env site r sv =
     (if \<not> requireControl sv r then (unauthorized, sv)
      else
        let siteID = site_or_default sv site in
        case ae_apply env (hq_Body r) of
          Inl err \<Rightarrow> (Reply 400 (BError err), sv)
        | Inr req \<Rightarrow>
            (case ValidateConfig (rq_Config req) of
               Some err \<Rightarrow> (Reply 400 (BError err), sv)
             | None \<Rightarrow>
                 if f_lt (rq_MaxAbsTrackingErrorW req) (Fin 0) then
                   (Reply 400 (BError ''max_abs_tracking_error_w must be >= 0''), sv)
                 else
                   (case build_preview env sv siteID (rq_Config req) of
                      None \<Rightarrow> (Aborted, sv)
                    | Some preview \<Rightarrow>
                        let decision = DecideApply preview req in
                        if \<not> dc_CanApply decision then (Reply 412 (BDecision decision), sv)
                        else
                          (case DeviceInSite (sv_store sv) siteID (pv_CandidateDeviceID preview) of
                             None \<Rightarrow> (Reply 404 (BError ''candidate device not found''), sv)
                           | Some d \<Rightarrow>
                               (case pv_CandidateCommand preview of
                                  None \<Rightarrow> (Aborted, sv)
                                | Some c0 \<Rightarrow>
                                    let cmd = c0\<lparr>c_CommandID := pv_CandidateDeviceID preview @ ''-'' @ time_FormatNano (ae_zone env) (ae_clk env 1),
                                                 c_IssuedAt := time_unix_sec (ae_clk env 2),
                                                 c_Reason := ''dispatch apply: '' @ c_Reason c0\<rparr>;
                                        (sv', err) = api_publish env (ae_clk env 3) siteID d cmd sv in
                                    (case err of
                                       Some e \<Rightarrow> (Reply 502 (BError (publish_text env e)), sv')
                                     | None \<Rightarrow> (Reply 202 (BApplied (dc_Reason decision) d cmd preview decision), sv')))))))"

definition api_setPolicy :: "ApiEnv \<Rightarrow> HttpRequest \<Rightarrow> Server \<Rightarrow> Response \<times> Server" where
  "api_setPolicy env r sv =
     (if \<not> requireControl sv r then (unauthorized, sv)
      else case ae_policy env (hq_Body r) of
        Inl err \<Rightarrow> (Reply 400 (BError err), sv)
      | Inr p \<Rightarrow>
          (case ValidatePolicy p of
             Some err \<Rightarrow> (Reply 400 (BError err), sv)
           | None \<Rightarrow> (Reply 200 (BPolicy p), sv\<lparr>sv_sched := SetPolicy (sv_sched sv) p\<rparr>)))"

definition api_command :: "ApiEnv \<Rightarrow> string \<Rightarrow> string \<Rightarrow> HttpRequest \<Rightarrow> Server \<Rightarrow> Response \<times> Server" where
  "api_command env site deviceID r sv =
     (if \<not> requireControl sv r then (unauthorized, sv)
      else
        let siteID = site_or_default sv site in
        case DeviceInSite (sv_store sv) siteID deviceID of
          None \<Rightarrow> (Reply 404 (BError ''device not found''), sv)
        | Some d \<Rightarrow>
            (case ae_command env (hq_Body r) of
               Inl err \<Rightarrow> (Reply 400 (BError err), sv)
             | Inr c0 \<Rightarrow>
                 if strings_TrimSpace (c_Action c0) = [] then (Reply 400 (BError ''action is required''), sv)
                 else
                   let cmd = c0\<lparr>c_CommandID := deviceID @ ''-'' @ time_FormatNano (ae_zone env) (ae_clk env 0),
                                c_IssuedAt := time_unix_sec (ae_clk env 1)\<rparr>;
                       (sv', err) = api_publish env (ae_clk env 2) siteID d cmd sv in
                   (case err of
                      Some e \<Rightarrow> (Reply 502 (BError (publish_text env e)), sv')
                    | None \<Rightarrow> (Reply 202 (BCommand cmd), sv'))))"

section \<open>Dispatch to the handlers\<close>

fun handle :: "ApiEnv \<Rightarrow> HttpRequest \<Rightarrow> Server \<Rightarrow> endpoint \<Rightarrow> Response \<times> Server" where
  "handle env r sv EConsole = (Reply 200 BConsole, sv)"
| "handle env r sv EHealth = (api_health (ae_checks env), sv)"
| "handle env r sv EMetrics = (api_metrics env sv, sv)"
| "handle env r sv EListDevices = (Reply 200 (BDevices (Devices (ae_dev_order env) (sv_store sv))), sv)"
| "handle env r sv EUpsertDevice = api_upsertDevice env r sv"
| "handle env r sv (ESummary s) = (api_summary env sv s, sv)"
| "handle env r sv (EDeviceStates s) = (api_deviceStates env sv s, sv)"
| "handle env r sv (EPlan s) = (api_plan env sv s, sv)"
| "handle env r sv (ECustomPlan s) = (api_customPlan env sv s (hq_Body r), sv)"
| "handle env r sv (EPreview s) = (api_dispatchPreview env sv s, sv)"
| "handle env r sv (ECustomPreview s) = (api_customDispatchPreview env sv s (hq_Body r), sv)"
| "handle env r sv (EApply s) = api_applyDispatch env s r sv"
| "handle env r sv ECommands = (Reply 200 (BCommands (Commands (sv_store sv))), sv)"
| "handle env r sv EEvents = (Reply 200 (BEvents (Events (sv_store sv))), sv)"
| "handle env r sv EAuditLogs = (api_auditLogs env sv, sv)"
| "handle env r sv EGetPolicy = (Reply 200 (BPolicy (sched_Policy (sv_sched sv))), sv)"
| "handle env r sv ESetPolicy = api_setPolicy env r sv"
| "handle env r sv (ECommand s d) = api_command env s d r sv"

definition mux :: "ApiEnv \<Rightarrow> HttpRequest \<Rightarrow> Server \<Rightarrow> Response \<times> Server" where
  "mux env r sv =
     (case route r of
        None \<Rightarrow> (Reply 405 (BText ''Method Not Allowed''), sv)
      | Some e \<Rightarrow> handle env r sv e)"

section \<open>Audit\<close>

definition auditAction :: "HttpRequest \<Rightarrow> string option" where
  "auditAction r =
     (let path = url_path r; m = hq_Method r in
      if m = ''POST'' \<and> path = ''/api/v1/devices'' then Some ''device.upsert''
      else if m = ''PUT'' \<and> path = ''/api/v1/policies/default'' then Some ''policy.update''
      else if m = ''POST'' \<and> strings_HasPrefix path ''/api/v1/devices/'' \<and> strings_HasSuffix path ''/command'' then
        Some ''command.issue''
      else if m = ''POST'' \<and> strings_HasPrefix path ''/api/v1/sites/'' \<and> strings_Contains path ''/devices/'' \<and>
          strings_HasSuffix path ''/command'' then Some ''command.issue''
      else if m = ''POST'' \<and> strings_HasPrefix path ''/api/v1/sites/'' \<and> strings_HasSuffix path ''/dispatch/apply'' then
        Some ''dispatch.apply''
      else None)"

definition auditActor :: "HttpRequest \<Rightarrow> string" where
  "auditActor r =
     (let actor = strings_TrimSpace (hq_Header r ''X-VPP-Actor'') in if actor \<noteq> [] then actor else ''anonymous'')"

text \<open>\<open>net.SplitHostPort\<close>: the host, or \<open>None\<close> for an error.\<close>

definition split_host :: "string \<Rightarrow> string option" where
  "split_host hp =
     (if hp \<noteq> [] \<and> hd hp = CHR ''['' then
        (case strings_Cut (CHR '']'') hp of
           (a, b, found) \<Rightarrow>
             if found \<and> b \<noteq> [] \<and> hd b = CHR '':'' \<and> CHR '':'' \<notin> set (tl b) \<and> CHR ''['' \<notin> set (tl hp) \<and> CHR '']'' \<notin> set b
             then Some (tl a) else None)
      else
        (case strings_Cut (CHR '':'') hp of
           (host, port, found) \<Rightarrow>
             if found \<and> CHR '':'' \<notin> set port \<and> CHR ''['' \<notin> set hp \<and> CHR '']'' \<notin> set hp then Some host else None))"

definition clientIP :: "HttpRequest \<Rightarrow> string" where
  "clientIP r =
     (let forwarded = strings_TrimSpace (hq_Header r ''X-Forwarded-For'') in
      if forwarded \<noteq> [] then
        (case strings_Cut (CHR '','') forwarded of
           (first, _, True) \<Rightarrow> strings_TrimSpace first
         | _ \<Rightarrow> forwarded)
      else (case split_host (hq_RemoteAddr r) of Some host \<Rightarrow> host | None \<Rightarrow> hq_RemoteAddr r))"

text \<open>The two clock readings of the middleware come after those of the handler.\<close>

definition audit_entry :: "ApiEnv \<Rightarrow> HttpRequest \<Rightarrow> string \<Rightarrow> int \<Rightarrow> AuditLog" where
  "audit_entry env r action code =
     (let (site, device) = (case route r of None \<Rightarrow> ([], []) | Some e \<Rightarrow> path_values e) in
      \<lparr>l_ID = fmt_d (time_unix_nano (ae_clk env 4)), l_OccurredAt = ae_clk env 5, l_Actor = auditActor r,
       l_Action = action, l_Method = hq_Method r, l_Path = url_path r, l_StatusCode = code,
       l_ClientIP = clientIP r, l_UserAgent = hq_Header r ''User-Agent'',
       l_Details = Some [(''device_id'', GStr device), (''site_id'', GStr site)]\<rparr>)"

definition withAudit :: "ApiEnv \<Rightarrow> HttpRequest \<Rightarrow> Server \<Rightarrow> Response \<times> Server" where
  "withAudit env r sv =
     (if \<not> sv_has_audit sv then mux env r sv
      else case auditAction r of
        None \<Rightarrow> mux env r sv
      | Some action \<Rightarrow>
          (case mux env r sv of
             (Aborted, sv') \<Rightarrow> (Aborted, sv')
           | (Reply code body, sv') \<Rightarrow>
               (Reply code body,
                sv'\<lparr>sv_repo := fst (repo_PutAuditLog (ae_jsonb env) (ae_db_ok env 2) (ae_clk env 6)
                       (audit_entry env r action code) (sv_repo sv'))\<rparr>)))"

text \<open>
  \<open>Handler\<close>: the content type that \<open>withJSON\<close> sets, unless the handler, or the answer 405 of the
  mux, sets its own, and the reply.
\<close>

definition content_type :: "HttpRequest \<Rightarrow> string" where
  "content_type r =
     (case route r of
        None \<Rightarrow> ''text/plain; charset=utf-8''
      | Some EConsole \<Rightarrow> ''text/html; charset=utf-8''
      | Some EMetrics \<Rightarrow> ''text/plain; version=0.0.4; charset=utf-8''
      | _ \<Rightarrow> (if strings_HasPrefix (url_path r) ''/api/'' \<or> url_path r = ''/healthz'' then ''application/json'' else []))"

definition serve :: "ApiEnv \<Rightarrow> HttpRequest \<Rightarrow> Server \<Rightarrow> string \<times> Response \<times> Server" where
  "serve env r sv = (content_type r, withAudit env r sv)"

section \<open>What a request can change\<close>

lemmas changing_defs = api_upsertDevice_def api_applyDispatch_def api_setPolicy_def api_command_def

text \<open>The endpoints behind the control token, with the action the audit log shows.\<close>

fun control_action :: "endpoint \<Rightarrow> string option" where
  "control_action EUpsertDevice = Some ''device.upsert''"
| "control_action ESetPolicy = Some ''policy.update''"
| "control_action (ECommand s d) = Some ''command.issue''"
| "control_action (EApply s) = Some ''dispatch.apply''"
| "control_action _ = None"

lemma handle_reading: "control_action e = None \<Longrightarrow> snd (handle env r sv e) = sv"
  by (cases e) simp_all

text \<open>Reading does not involve the broker.\<close>

lemma handle_reading_broker:
  "control_action e = None \<Longrightarrow> handle (env\<lparr>ae_broker := broker\<rparr>) r sv e = handle env r sv e"
  by (cases e)
    (simp_all add: api_metrics_def api_summary_def api_deviceStates_def api_plan_def api_customPlan_def
      api_dispatchPreview_def api_customDispatchPreview_def api_auditLogs_def build_plan_def build_preview_def
      site_summary_def recentAuditLogs_def split: sum.split option.split)

lemma handle_unauthorized:
  "\<not> requireControl sv r \<Longrightarrow> control_action e \<noteq> None \<Longrightarrow> handle env r sv e = (unauthorized, sv)"
  by (cases e) (simp_all add: changing_defs)

lemma mux_unauthorized: "\<not> requireControl sv r \<Longrightarrow> snd (mux env r sv) = sv"
  using handle_reading [of _ env r sv] handle_unauthorized [of sv r _ env]
  by (fastforce simp: mux_def split: option.split)

text \<open>A publish through the API.\<close>

lemma api_publish_frame:
  assumes "api_publish env now siteID d cmd sv = (sv', err)"
  shows "sv_sched sv' = sv_sched sv \<and> sv_token sv' = sv_token sv \<and> sv_siteID sv' = sv_siteID sv \<and>
    sv_has_audit sv' = sv_has_audit sv \<and> tb_audit (sv_repo sv') = tb_audit (sv_repo sv) \<and>
    tb_devices (sv_repo sv') = tb_devices (sv_repo sv) \<and>
    sv_client sv' = fst (PublishCommand (ae_mqtt env) (ae_broker env) now siteID d cmd (sv_client sv)) \<and>
    err = snd (PublishCommand (ae_mqtt env) (ae_broker env) now siteID d cmd (sv_client sv))"
  using assms
  by (auto simp: api_publish_def repo_PutCommandIssued_def Let_def split: prod.splits option.splits if_splits)

text \<open>The audit table is written by the middleware only.\<close>

lemma handle_audit: "tb_audit (sv_repo (snd (handle env r sv e))) = tb_audit (sv_repo sv)"
proof (cases e)
  case EUpsertDevice
  then show ?thesis by (auto simp: api_upsertDevice_def repo_Upsert_def Let_def split: sum.split)
next
  case (EApply s)
  then show ?thesis
    by (auto simp: api_applyDispatch_def Let_def dest!: api_publish_frame split: sum.split option.split prod.split)
next
  case ESetPolicy
  then show ?thesis by (auto simp: api_setPolicy_def split: sum.split option.split)
next
  case (ECommand s d)
  then show ?thesis
    by (auto simp: api_command_def Let_def dest!: api_publish_frame split: sum.split option.split prod.split)
qed simp_all

lemma mux_audit: "tb_audit (sv_repo (snd (mux env r sv))) = tb_audit (sv_repo sv)"
  by (simp add: mux_def handle_audit split: option.split)

section \<open>Routing and audit actions\<close>

lemma route_specific_control:
  assumes "route_specific m segs = Some e" "control_action e = Some a"
  shows "segs = [''api'', ''v1'', ''devices''] \<and> m = ''POST'' \<and> a = ''device.upsert'' \<or>
    segs = [''api'', ''v1'', ''policies'', ''default''] \<and> m = ''PUT'' \<and> a = ''policy.update'' \<or>
    (\<exists>d. segs = [''api'', ''v1'', ''devices'', d, ''command''] \<and> m = ''POST'' \<and> a = ''command.issue'') \<or>
    (\<exists>s d. segs = [''api'', ''v1'', ''sites'', s, ''devices'', d, ''command''] \<and> m = ''POST'' \<and> a = ''command.issue'') \<or>
    (\<exists>s. segs = [''api'', ''v1'', ''sites'', s, ''dispatch'', ''apply''] \<and> m = ''POST'' \<and> a = ''dispatch.apply'')"
  using assms by (auto simp: route_specific_def split: list.splits if_splits)

lemma path_devices: "concat (map (Cons (CHR ''/'')) [''api'', ''v1'', ''devices'', d, ''command'']) = ''/api/v1/devices/'' @ d @ ''/command''"
  and path_sites: "concat (map (Cons (CHR ''/'')) [''api'', ''v1'', ''sites'', s, ''devices'', d, ''command'']) =
    ''/api/v1/sites/'' @ s @ ''/devices/'' @ d @ ''/command''"
  and path_apply: "concat (map (Cons (CHR ''/'')) [''api'', ''v1'', ''sites'', s, ''dispatch'', ''apply'']) =
    ''/api/v1/sites/'' @ s @ ''/dispatch/apply''"
  by simp_all

lemma suffix_last: "suffix xs ys \<Longrightarrow> xs \<noteq> [] \<Longrightarrow> last xs = last ys"
  by (auto simp: suffix_def)

lemma auditAction_control:
  assumes "route r = Some e" "control_action e = Some a"
  shows "auditAction r = Some a"
proof -
  have "route_specific (hq_Method r) (hq_Segments r) = Some e"
    using assms by (auto simp: route_def split: option.splits if_splits)
  from route_specific_control [OF this assms(2)] show ?thesis
  proof (elim disjE exE conjE)
    fix d assume h: "hq_Segments r = [''api'', ''v1'', ''devices'', d, ''command'']" "hq_Method r = ''POST''" "a = ''command.issue''"
    have p: "url_path r = ''/api/v1/devices/'' @ d @ ''/command''" unfolding url_path_def h(1) by (rule path_devices)
    have "suffix ''/command'' (url_path r)" unfolding p by (simp add: suffix_def)
    then show ?thesis unfolding auditAction_def Let_def p h
      by (simp add: strings_HasPrefix_def strings_HasSuffix_def)
  next
    fix s d assume h: "hq_Segments r = [''api'', ''v1'', ''sites'', s, ''devices'', d, ''command'']" "hq_Method r = ''POST''"
      "a = ''command.issue''"
    have p: "url_path r = ''/api/v1/sites/'' @ s @ ''/devices/'' @ d @ ''/command''"
      unfolding url_path_def h(1) by (rule path_sites)
    have "suffix ''/command'' (url_path r)" unfolding p by (simp add: suffix_def)
    moreover have "sublist ''/devices/'' (url_path r)" 
      unfolding p using sublist_appendI [of "''/devices/''" "''/api/v1/sites/'' @ s" "d @ ''/command''"] by simp
    ultimately show ?thesis unfolding auditAction_def Let_def p h
      by (simp add: strings_HasPrefix_def strings_HasSuffix_def strings_Contains_iff)
  next
    fix s assume h: "hq_Segments r = [''api'', ''v1'', ''sites'', s, ''dispatch'', ''apply'']" "hq_Method r = ''POST''"
      "a = ''dispatch.apply''"
    have p: "url_path r = ''/api/v1/sites/'' @ s @ ''/dispatch/apply''" unfolding url_path_def h(1) by (rule path_apply)
    have "suffix ''/dispatch/apply'' (url_path r)" unfolding p by (simp add: suffix_def)
    moreover have "\<not> suffix ''/command'' (url_path r)" unfolding p by (auto dest: suffix_last)
    ultimately show ?thesis unfolding auditAction_def Let_def p h
      by (simp add: strings_HasPrefix_def strings_HasSuffix_def)
  qed (simp_all add: auditAction_def url_path_def)
qed

lemma route_specific_reading:
  assumes "route_specific m segs = Some e" "control_action e = None"
  shows "is_get m \<or> m = ''POST'' \<and> (\<exists>s. segs = [''api'', ''v1'', ''sites'', s, ''plan''] \<or>
    segs = [''api'', ''v1'', ''sites'', s, ''dispatch-preview''])"
  using assms by (auto simp: route_specific_def split: list.splits if_splits)

lemma auditAction_reading:
  assumes "route r = Some e" "control_action e = None"
  shows "auditAction r = None"
proof -
  have get: "auditAction r = None" if "is_get (hq_Method r)"
    using that by (auto simp: is_get_def auditAction_def Let_def)
  show ?thesis
  proof (cases "route_specific (hq_Method r) (hq_Segments r)")
    case None
    with assms(1) get show ?thesis by (simp add: route_def split: if_splits)
  next
    case (Some e')
    with assms have "e' = e" by (simp add: route_def)
    with route_specific_reading [of "hq_Method r" "hq_Segments r" e] Some assms(2)
    consider "is_get (hq_Method r)"
      | s x where "hq_Method r = ''POST''" "hq_Segments r = [''api'', ''v1'', ''sites'', s, x]" "x = ''plan'' \<or> x = ''dispatch-preview''"
      by blast
    then show ?thesis
    proof cases
      case 1
      then show ?thesis by (rule get)
    next
      case (2 s x)
      then have p: "url_path r = ''/api/v1/sites/'' @ s @ ''/'' @ x" by (simp add: url_path_def)
      have "last (url_path r) \<noteq> last ''/command''" "last (url_path r) \<noteq> last ''/dispatch/apply''"
        using 2(3) by (auto simp: p)
      then have "\<not> suffix ''/command'' (url_path r)" "\<not> suffix ''/dispatch/apply'' (url_path r)"
        using suffix_last by fastforce+
      with 2(1) show ?thesis
        by (simp add: auditAction_def Let_def strings_HasSuffix_def) (simp add: p)
    qed
  qed
qed

lemma withAudit_reading:
  assumes "route r = Some e" "control_action e = None"
  shows "snd (withAudit env r sv) = sv"
  using assms handle_reading [OF assms(2)] by (simp add: withAudit_def auditAction_reading mux_def)

lemma withAudit_result:
  assumes "withAudit env r sv = (resp, sv')"
  shows "\<exists>sv1 tb. mux env r sv = (resp, sv1) \<and> sv' = sv1\<lparr>sv_repo := (sv_repo sv1)\<lparr>tb_audit := tb\<rparr>\<rparr>"
proof -
  have keep: "sv = sv\<lparr>sv_repo := (sv_repo sv)\<lparr>tb_audit := tb_audit (sv_repo sv)\<rparr>\<rparr>" for sv :: Server by simp
  have put: "fst (repo_PutAuditLog j ok t l q) = q\<lparr>tb_audit := tb_audit (fst (repo_PutAuditLog j ok t l q))\<rparr>" for j ok t l q
    by (simp add: repo_PutAuditLog_def Let_def split: option.split)
  obtain resp1 sv1 where m: "mux env r sv = (resp1, sv1)" by force
  show ?thesis
  proof (cases "sv_has_audit sv \<and> auditAction r \<noteq> None \<and> resp1 \<noteq> Aborted")
    case True
    then obtain code body action where "resp1 = Reply code body" "auditAction r = Some action"
      by (cases resp1) auto
    with True m assms put show ?thesis
      by (auto simp: withAudit_def intro!: exI [of _ "tb_audit (sv_repo sv')"])
  next
    case False
    with m assms keep [of sv1] show ?thesis
      by (auto simp: withAudit_def split: option.splits Response.splits if_splits intro!: exI [of _ "tb_audit (sv_repo sv1)"])
  qed
qed

lemma marshal_details: "marshal_gmap (Some [(k, GStr a), (k', GStr b)]) \<noteq> None"
  by (simp add: marshal_gmap_def)

section \<open>Properties\<close>

text \<open>
  C8. The control token is a gate: when one is configured, a request that presents neither it in
  its own header nor, that one blank, as a bearer token changes nothing but the audit log, and
  every endpoint that could publish a command, register a device or change the policy answers 401
  without asking the broker.
\<close>
theorem control_token_gate:
  assumes "sv_token sv \<noteq> []"
    and "(let t = strings_TrimSpace (hq_Header r ''X-VPP-Control-Token'') in
          if t = [] then api_bearerToken (hq_Header r ''Authorization'') else t) \<noteq> sv_token sv"
  shows "let (resp, sv') = withAudit env r sv in
    sv_client sv' = sv_client sv \<and> sv_sched sv' = sv_sched sv \<and>
    sv_repo sv' = (sv_repo sv)\<lparr>tb_audit := tb_audit (sv_repo sv')\<rparr> \<and>
    (\<forall>e. route r = Some e \<and> control_action e \<noteq> None \<longrightarrow> resp = Reply 401 (BError ''control token required'')) \<and>
    withAudit (env\<lparr>ae_broker := broker\<rparr>) r sv = (resp, sv')"
proof -
  have no: "\<not> requireControl sv r" using assms by (simp add: requireControl_def Let_def)
  have mux: "snd (mux env r sv) = sv" for env by (rule mux_unauthorized [OF no])
  have resp: "fst (mux env r sv) = unauthorized" if "route r = Some e" "control_action e \<noteq> None" for env e
    using that handle_unauthorized [OF no that(2)] by (simp add: mux_def)
  have same: "mux (env\<lparr>ae_broker := broker\<rparr>) r sv = mux env r sv"
    using handle_unauthorized [OF no] handle_reading_broker [where env = env and broker = broker and r = r and sv = sv]
    by (fastforce simp: mux_def split: option.split)
  have entry: "audit_entry (env\<lparr>ae_broker := broker\<rparr>) r a c = audit_entry env r a c" for a c
    by (simp add: audit_entry_def)
  obtain resp' sv' where w: "withAudit env r sv = (resp', sv')" by force
  obtain sv1 tb where sv1: "mux env r sv = (resp', sv1)" "sv' = sv1\<lparr>sv_repo := (sv_repo sv1)\<lparr>tb_audit := tb\<rparr>\<rparr>"
    using withAudit_result [OF w] by blast
  with mux [of env] have "sv1 = sv" by simp
  have "resp' = unauthorized" if "route r = Some e" "control_action e \<noteq> None" for e
    using resp [OF that, of env] sv1(1) by simp
  moreover have "withAudit (env\<lparr>ae_broker := broker\<rparr>) r sv = withAudit env r sv"
    by (auto simp: withAudit_def same entry split: option.split prod.split Response.split)
  ultimately show ?thesis using w sv1(2) \<open>sv1 = sv\<close> by auto
qed

text \<open>
  C27. Every control operation leaves a trace: when audit logging is on, its statement succeeds and
  no log has the id, a request to an endpoint behind the control token that is answered at all, whatever
  the answer, adds exactly one row, with the operation, the caller, the path and the status code
  of the answer, and the site and device of the path; the answer is the handler's own.
\<close>
theorem control_requests_audited:
  assumes "sv_has_audit sv" "route r = Some e" "control_action e = Some action"
    and "withAudit env r sv = (Reply code body, sv')" "ae_db_ok env 2"
    and "tb_audit (sv_repo sv) (fmt_d (time_unix_nano (ae_clk env 4))) = None"
  shows "fst (handle env r sv e) = Reply code body \<and>
    (\<exists>row. tb_audit (sv_repo sv') = (tb_audit (sv_repo sv))(fmt_d (time_unix_nano (ae_clk env 4)) \<mapsto> row) \<and>
      aw_action row = action \<and> aw_status row = code \<and> aw_actor row = auditActor r \<and> aw_path row = url_path r \<and>
      aw_method row = hq_Method r \<and> aw_client row = clientIP r \<and>
      marshal_gmap (Some [(''device_id'', GStr (snd (path_values e))), (''site_id'', GStr (fst (path_values e)))]) \<noteq> None \<and>
      aw_details row = ae_jsonb env (the (marshal_gmap
        (Some [(''device_id'', GStr (snd (path_values e))), (''site_id'', GStr (fst (path_values e)))]))))"
proof -
  have a: "auditAction r = Some action" using assms(2,3) by (rule auditAction_control)
  obtain sv1 where m: "handle env r sv e = (Reply code body, sv1)"
    and sv': "sv' = sv1\<lparr>sv_repo := fst (repo_PutAuditLog (ae_jsonb env) True (ae_clk env 6)
        (audit_entry env r action code) (sv_repo sv1))\<rparr>"
    using assms(1,2,4,5) a by (auto simp: withAudit_def mux_def split: prod.splits Response.splits)
  have t: "tb_audit (sv_repo sv1) = tb_audit (sv_repo sv)" using handle_audit [of env r sv e] m by simp
  have v: "audit_entry env r action code =
      \<lparr>l_ID = fmt_d (time_unix_nano (ae_clk env 4)), l_OccurredAt = ae_clk env 5, l_Actor = auditActor r, l_Action = action,
       l_Method = hq_Method r, l_Path = url_path r, l_StatusCode = code, l_ClientIP = clientIP r,
       l_UserAgent = hq_Header r ''User-Agent'',
       l_Details = Some [(''device_id'', GStr (snd (path_values e))), (''site_id'', GStr (fst (path_values e)))]\<rparr>"
    using assms(2) by (simp add: audit_entry_def split: prod.split)
  obtain p where "marshal_gmap (Some [(''device_id'', GStr (snd (path_values e))), (''site_id'', GStr (fst (path_values e)))]) = Some p"
    using marshal_details by (metis option.exhaust)
  then show ?thesis
    using m t assms(6)
    by (intro conjI exI [of _ "\<lparr>aw_occurred = pg_timestamp (if time_IsZero (ae_clk env 5) then ae_clk env 6 else ae_clk env 5),
        aw_actor = auditActor r, aw_action = action, aw_method = hq_Method r, aw_path = url_path r, aw_status = code,
        aw_client = clientIP r, aw_agent = hq_Header r ''User-Agent'', aw_details = ae_jsonb env p\<rparr>"])
      (simp_all add: sv' v repo_PutAuditLog_def Let_def)
qed

text \<open>
  Reading is harmless: a request to any endpoint that is not behind the control token leaves the
  whole state as it is, audit log included.
\<close>
theorem reading_changes_nothing:
  assumes "route r = Some e" "control_action e = None"
  shows "snd (withAudit env r sv) = sv"
  using assms by (rule withAudit_reading)

text \<open>
  C28. The answers of the command endpoint and what they mean, one branch after the other: 401
  without the control token; 404 when the site has no such device; 400 when the body does not decode
  or its action is blank; 502 when the command cannot be encoded or the broker refuses it on the
  device's topic; 202 otherwise, with the command as it was sent, under an id and a time of its own
  whatever the request asked for. Then, and only then, this command is the newest entry of the
  history. Devices, telemetry, events and the policy never change.
\<close>
theorem command_endpoint:
  assumes "route r = Some (ECommand s i)" "withAudit env r sv = (resp, sv')"
  shows "let siteID = (if s = [] then sv_siteID sv else s); st = sv_store sv; st' = sv_store sv';
      stamped = (\<lambda>c0. c0\<lparr>c_CommandID := i @ ''-'' @ time_FormatNano (ae_zone env) (ae_clk env 0),
                          c_IssuedAt := time_unix_sec (ae_clk env 1)\<rparr>) in
    (\<not> requireControl sv r \<longrightarrow> resp = Reply 401 (BError ''control token required'')) \<and>
    (requireControl sv r \<longrightarrow>
      (DeviceInSite st siteID i = None \<longrightarrow> resp = Reply 404 (BError ''device not found'')) \<and>
      (\<forall>d. DeviceInSite st siteID i = Some d \<longrightarrow>
        (\<forall>e. ae_command env (hq_Body r) = Inl e \<longrightarrow> resp = Reply 400 (BError e)) \<and>
        (\<forall>c0. ae_command env (hq_Body r) = Inr c0 \<longrightarrow>
          (strings_TrimSpace (c_Action c0) = [] \<longrightarrow> resp = Reply 400 (BError ''action is required'')) \<and>
          (strings_TrimSpace (c_Action c0) \<noteq> [] \<longrightarrow>
            (me_marshal_command (ae_mqtt env) (stamped c0) = None \<longrightarrow> resp = Reply 502 (BError (ae_marshal_err env))) \<and>
            (\<forall>p. me_marshal_command (ae_mqtt env) (stamped c0) = Some p \<longrightarrow>
              resp = (case ae_broker env (topic_Command siteID (d_Type d) (d_ID d)) p of
                Some e \<Rightarrow> Reply 502 (BError e) | None \<Rightarrow> Reply 202 (BCommand (stamped c0)))))))) \<and>
    Commands st' = (case resp of Reply _ (BCommand cmd) \<Rightarrow>
        take 200 (issuedRecord (ae_clk env 2) siteID (the (DeviceInSite st siteID i)) cmd # Commands st)
      | _ \<Rightarrow> Commands st) \<and>
    devices st' = devices st \<and> telemetry st' = telemetry st \<and> events st' = events st \<and> sv_sched sv' = sv_sched sv"
proof -
  obtain sv1 where m: "api_command env s i r sv = (resp, sv1)" and sv': "sv_client sv' = sv_client sv1" "sv_sched sv' = sv_sched sv1"
    using withAudit_result [OF assms(2)] assms(1) by (auto simp: mux_def)
  show ?thesis
    unfolding Let_def sv' using m
    by (auto simp: api_command_def Let_def site_or_default_def api_publish_def publish_text_def PublishCommand_def
        record_issued_def PutCommandIssued_def Commands_def push_front_capped_take
        split: if_splits sum.splits option.splits prod.splits)
qed

text \<open>
  C9. From the request to the broker: when dispatch/apply answers 202 for a request whose
  configuration has finite numbers and a horizon within the range of a duration, the caller passed
  the control token and confirmed; the plan of the request has a slot for the moment of the request
  that charges or discharges; the site's net power differs from the slot's by no more than the
  request's limit (100 W when it names none), after rounding to two digits; and the command that went
  to the broker is for the first battery of the site, sets charging for a slot that charges and
  discharging for one that discharges, with the slot's target power, which is not zero and is the
  rounded value of a power between zero and the configured limit. It has an id and a time of its own
  and is the newest entry of the history.
\<close>
theorem apply_end_to_end:
  assumes "route r = Some (EApply s)" "s \<noteq> []" "withAudit env r sv = (Reply 202 body, sv')" "store_inv (sv_store sv)"
    and "ae_apply env (hq_Body r) = Inr req" "finite_cfg (rq_Config req)" "cfg_HorizonHours (rq_Config req) \<le> max_horizon"
  shows "\<exists>d cmd p reason preview decision mode target plan sl.
    body = BApplied reason d cmd preview decision \<and> requireControl sv r \<and> rq_Confirm req \<and>
    BuildDayAheadPlan (ae_sin env) (ae_zone env) (ae_clk env 0) (site_summary env sv s) (rq_Config req) = Some plan \<and>
    sl \<in> set (pl_Slots plan) \<and> sl_StartAt sl \<le> ae_clk env 0 \<and> ae_clk env 0 < sl_EndAt sl \<and>
    \<not> f_lt (if f_eq (rq_MaxAbsTrackingErrorW req) (Fin 0) then Fin 100 else rq_MaxAbsTrackingErrorW req)
        (math_Abs (dispatch_round2 (f_sub (s_NetPowerW (site_summary env sv s)) (sl_NetLoadW sl)))) \<and>
    find (\<lambda>d. d_SiteID d = s \<and> d_Type d = DeviceBattery) (Devices (ae_dev_order env) (sv_store sv)) = Some d \<and>
    d \<in> ran (devices (sv_store sv)) \<and> d_SiteID d = s \<and> d_Type d = DeviceBattery \<and> c_Action cmd = ''set_mode'' \<and>
    c_Params cmd = Some [(''mode'', GStr mode), (''target_power_w'', GNum (sl_TargetPowerW sl))] \<and>
    (sl_BatteryMode sl = ''charge'' \<and> mode = ''charging'' \<or> sl_BatteryMode sl = ''discharge'' \<and> mode = ''discharging'') \<and>
    \<not> f_eq (sl_TargetPowerW sl) (Fin 0) \<and> sl_TargetPowerW sl = round2 target \<and> f_le (Fin 0) target \<and>
    f_le target (cfg_BatteryPowerLimitW (normalizeConfig (rq_Config req))) \<and>
    c_CommandID cmd = d_ID d @ ''-'' @ time_FormatNano (ae_zone env) (ae_clk env 1) \<and>
    c_IssuedAt cmd = time_unix_sec (ae_clk env 2) \<and>
    me_marshal_command (ae_mqtt env) cmd = Some p \<and> ae_broker env (topic_Command s (d_Type d) (d_ID d)) p = None \<and>
    Commands (sv_store sv') = take 200 (issuedRecord (ae_clk env 3) s d cmd # Commands (sv_store sv))"
proof -
  let ?st = "sv_store sv" and ?now = "ae_clk env 0"
  obtain sv1 where m: "api_applyDispatch env s r sv = (Reply 202 body, sv1)" and sv': "sv_client sv' = sv_client sv1"
    using withAudit_result [OF assms(3)] assms(1) by (auto simp: mux_def)
  have site: "site_or_default sv s = s" using assms(2) by (simp add: site_or_default_def)
  obtain preview d c0 where valid: "ValidateConfig (rq_Config req) = None" and auth: "requireControl sv r"
    and pv: "build_preview env sv s (rq_Config req) = Some preview" and can: "dc_CanApply (DecideApply preview req)"
    and d: "DeviceInSite ?st s (pv_CandidateDeviceID preview) = Some d" and c0: "pv_CandidateCommand preview = Some c0"
    using m assms(5) by (auto simp: api_applyDispatch_def site Let_def split: if_splits option.splits prod.splits)
  let ?cmd = "c0\<lparr>c_CommandID := pv_CandidateDeviceID preview @ ''-'' @ time_FormatNano (ae_zone env) (ae_clk env 1),
      c_IssuedAt := time_unix_sec (ae_clk env 2), c_Reason := ''dispatch apply: '' @ c_Reason c0\<rparr>"
  obtain p where p: "me_marshal_command (ae_mqtt env) ?cmd = Some p" "ae_broker env (topic_Command s (d_Type d) (d_ID d)) p = None"
    and body: "body = BApplied (dc_Reason (DecideApply preview req)) d ?cmd preview (DecideApply preview req)"
    and cl: "sv_client sv1 = record_issued (ae_clk env 3) s d ?cmd (sv_client sv)"
    using m assms(5) valid auth pv can d c0
    by (auto simp: api_applyDispatch_def site Let_def api_publish_def PublishCommand_def split: if_splits option.splits prod.splits)
  have sum: "s_SiteID (site_summary env sv s) = s" by (simp add: site_summary_def Summary_eq_ref summary_ref_def Let_def)
  obtain sl b target where sl: "candidate_slot (pv_Plan preview) ?now sl" and c: "c0 = candidate_command b ?now sl"
    and b: "firstDevice (Devices (ae_dev_order env) ?st) s DeviceBattery = Some b" "pv_CandidateDeviceID preview = d_ID b"
    and plan: "BuildDayAheadPlan (ae_sin env) (ae_zone env) ?now (site_summary env sv s) (rq_Config req) = Some (pv_Plan preview)"
    and ok: "rq_Confirm req" "\<not> f_lt (apply_limit req)
      (math_Abs (dispatch_round2 (f_sub (s_NetPowerW (site_summary env sv s)) (sl_NetLoadW sl))))"
    and t: "sl_TargetPowerW sl = round2 target" "f_le (Fin 0) target"
      "f_le target (cfg_BatteryPowerLimitW (normalizeConfig (rq_Config req)))"
    using DecideApply_candidate [OF valid assms(6,7) pv [unfolded build_preview_def] can c0] unfolding sum by blast
  obtain k where k: "devices ?st k = Some b"
    using firstDevice_Some [OF b(1)] by (auto simp: Devices_def range_vals_def List.map_filter_def split: option.splits)
  then have "k = stateKey s (d_ID b)" using store_inv_device_key [OF assms(4)] firstDevice_Some [OF b(1)] by blast
  with k d b(2) have "d = b" by (simp add: DeviceInSite_def)
  moreover have "b \<in> ran (devices ?st)" using k by (auto simp: ran_def)
  moreover have "sl \<in> set (pl_Slots (pv_Plan preview))" "sl_StartAt sl \<le> ?now" "?now < sl_EndAt sl"
    using sl by (auto simp: candidate_slot_def intro: CurrentSlot_in dest: CurrentSlot_covers)
  ultimately show ?thesis
    using p body auth ok t sl plan b firstDevice_Some [OF b(1)]
    by (intro exI [of _ d] exI [of _ ?cmd] exI [of _ p] exI [of _ "dc_Reason (DecideApply preview req)"] exI [of _ preview]
        exI [of _ "DecideApply preview req"] exI [of _ "if sl_BatteryMode sl = ''charge'' then ''charging'' else ''discharging''"]
        exI [of _ target] exI [of _ "pv_Plan preview"] exI [of _ sl])
      (auto simp: sv' cl c candidate_command_def candidate_slot_def apply_limit_def firstDevice_find record_issued_def Let_def
        PutCommandIssued_def Commands_def push_front_capped_take)
qed

text \<open>
  A request that makes a handler panic is not audited: with a horizon of 2^40 hours, which
  passes the validation and asks for more slots than a slice can hold, dispatch/apply drops the connection and, although
  audit logging is on and the endpoint is a control operation, no row is written.
\<close>
theorem panic_not_audited:
  assumes "route r = Some (EApply s)" "requireControl sv r" "ae_apply env (hq_Body r) = Inr req"
    and "rq_Config req = zero_Config\<lparr>cfg_HorizonHours := 2 ^ 40\<rparr>" "\<not> f_lt (rq_MaxAbsTrackingErrorW req) (Fin 0)"
  shows "withAudit env r sv = (Aborted, sv) \<and> ValidateConfig (rq_Config req) = None \<and>
    auditAction r = Some ''dispatch.apply''"
proof -
  have v: "ValidateConfig (rq_Config req) = None"
    using default_values by (simp add: assms(4) ValidateConfig_def zero_Config_def normalizeConfig_sel f_lit_09 Let_def)
  have "slot_count (normalizeConfig (rq_Config req)) > max_slot_cap"
    by (simp add: assms(4) zero_Config_def normalizeConfig_sel slot_count_def max_slot_cap_def Let_def wrap64_def go_div_def)
  then have "build_preview env sv x (rq_Config req) = None" for x
    by (simp add: build_preview_def BuildPreview_def BuildDayAheadPlan_def Let_def)
  moreover have "auditAction r = Some ''dispatch.apply''" using assms(1) by (rule auditAction_control) simp
  ultimately show ?thesis
    using assms(1-3,5) v by (simp add: withAudit_def mux_def api_applyDispatch_def Let_def)
qed

section \<open>Witnesses\<close>

text \<open>A site with one battery, a control token and audit logging.\<close>

definition ax_store :: Store where
  "ax_store = UpsertDevice 5 NewStore plan_ex_dev"

definition ax_server :: Server where
  "ax_server = WithAuditRecorder (WithControlToken ''t''
     (api_New ''s1'' (NewClient 0 ax_store Map.empty False)
       (scheduler_New ''s1'' \<lparr>p_BatteryMinSOC = Fin 0, p_BatteryMaxSOC = Fin 1, p_LoadShedThreshold = Fin 0\<rparr>) rx_repo True))"

definition ax_env :: "ApplyRequest \<Rightarrow> ApiEnv" where
  "ax_env req = \<lparr>ae_clk = (\<lambda>_. 0), ae_zone = (\<lambda>_. 0), ae_sin = (\<lambda>_. Fin 0), ae_mqtt = ex_env,
     ae_broker = (\<lambda>_ _. None), ae_jsonb = id, ae_unmarshal = (\<lambda>_. None), ae_db_ok = (\<lambda>_. True), ae_dbnow = 0,
     ae_db_err = [], ae_marshal_err = [],
     ae_dev_order = [stateKey ''s1'' ''b1''], ae_tele_order = [], ae_audit_order = [],
     ae_render = \<lparr>ro_metrics = (\<lambda>_. []), ro_status = [], ro_severity = [], ro_audit = [], ro_rejects = []\<rparr>,
     ae_checks = [], ae_device = (\<lambda>_. Inr plan_ex_dev), ae_config = (\<lambda>_. Inr plan_ex_cfg), ae_apply = (\<lambda>_. Inr req),
     ae_policy = (\<lambda>_. Inl []), ae_command = (\<lambda>_. Inr ex_cmd)\<rparr>"

definition ax_post :: "string \<Rightarrow> string list \<Rightarrow> HttpRequest" where
  "ax_post token segs = \<lparr>hq_Method = ''POST'', hq_Segments = segs,
     hq_Header = (\<lambda>h. if h = ''X-VPP-Control-Token'' then token else []), hq_Body = [], hq_RemoteAddr = []\<rparr>"

definition ax_request :: "Config \<Rightarrow> ApplyRequest" where
  "ax_request cfg = \<lparr>rq_Confirm = True, rq_MaxAbsTrackingErrorW = Fin 0, rq_Config = cfg\<rparr>"

lemma ax_server_sel [simp]:
  "sv_token ax_server = ''t''" "sv_has_audit ax_server" "sv_siteID ax_server = ''s1''" "sv_store ax_server = ax_store"
  "sv_repo ax_server = rx_repo" "mc_keys (sv_client ax_server) = Map.empty" "\<not> mc_recorder (sv_client ax_server)"
proof -
  have "strings_TrimSpace ''t'' = ''t''" by (simp add: strings_TrimSpace_plain plain_char_def)
  then show "sv_token ax_server = ''t''" "sv_has_audit ax_server" "sv_siteID ax_server = ''s1''" "sv_store ax_server = ax_store"
    "sv_repo ax_server = rx_repo" "mc_keys (sv_client ax_server) = Map.empty" "\<not> mc_recorder (sv_client ax_server)"
    by (simp_all add: ax_server_def WithAuditRecorder_def WithControlToken_def api_New_def NewClient_def)
qed

lemma ax_auth: "requireControl ax_server (ax_post ''t'' segs)"
  by (simp add: requireControl_def ax_post_def strings_TrimSpace_plain plain_char_def Let_def)

lemma ax_device: "DeviceInSite ax_store ''s1'' ''b1'' = Some plan_ex_dev"
  by (simp add: DeviceInSite_def ax_store_def UpsertDevice_def plan_ex_dev_def zero_Device_def time_IsZero_def)

theorem control_token_gate_witness:
  "fst (withAudit (ax_env (ax_request zero_Config)) (ax_post ''x'' [''api'', ''v1'', ''devices'']) ax_server) = Reply 401 (BError ''control token required'')"
proof -
  let ?r = "ax_post ''x'' [''api'', ''v1'', ''devices'']"
  have t: "sv_token ax_server \<noteq> []" by simp
  have g: "(let t = strings_TrimSpace (hq_Header ?r ''X-VPP-Control-Token'') in
      if t = [] then api_bearerToken (hq_Header ?r ''Authorization'') else t) \<noteq> sv_token ax_server"
    by (simp add: ax_post_def strings_TrimSpace_plain plain_char_def Let_def)
  have "route ?r = Some EUpsertDevice" by (simp add: route_def route_specific_def ax_post_def is_get_def)
  with control_token_gate [OF t g, of "ax_env (ax_request zero_Config)" "\<lambda>_ _. None"] show ?thesis by (auto simp: Let_def split: prod.splits)
qed

theorem control_requests_audited_witness:
  "\<exists>row. tb_audit (sv_repo (snd (withAudit (ax_env (ax_request zero_Config)) (ax_post ''x'' [''api'', ''v1'', ''devices'']) ax_server)))
     (fmt_d (time_unix_nano 0)) = Some row \<and> aw_action row = ''device.upsert'' \<and> aw_status row = 401"
proof -
  let ?r = "ax_post ''x'' [''api'', ''v1'', ''devices'']"
  have a: "sv_has_audit ax_server" "route ?r = Some EUpsertDevice" "control_action EUpsertDevice = Some ''device.upsert''"
    by (simp_all add: route_def route_specific_def ax_post_def is_get_def)
  have no: "\<not> requireControl ax_server ?r"
    by (simp add: requireControl_def ax_post_def strings_TrimSpace_plain plain_char_def Let_def)
  have "auditAction ?r = Some ''device.upsert''" using a(2,3) by (rule auditAction_control)
  then obtain sv' where w: "withAudit (ax_env (ax_request zero_Config)) ?r ax_server = (Reply 401 (BError ''control token required''), sv')"
    by (simp add: withAudit_def mux_def a(2) api_upsertDevice_def no)
  have d: "ae_db_ok (ax_env (ax_request zero_Config)) 2" "tb_audit (sv_repo ax_server) (fmt_d (time_unix_nano (ae_clk (ax_env (ax_request zero_Config)) 4))) = None"
    by (simp_all add: ax_env_def rx_repo_def)
  from control_requests_audited [OF a w d] w show ?thesis by (auto simp: ax_env_def)
qed

theorem reading_changes_nothing_witness:
  "snd (withAudit (ax_env (ax_request zero_Config)) (ax_post ''t'' [''api'', ''v1'', ''sites'', ''s1'', ''plan'']) ax_server) = ax_server"
  by (rule reading_changes_nothing [of _ "ECustomPlan ''s1''"])
    (simp_all add: route_def route_specific_def ax_post_def is_get_def)

theorem command_endpoint_witness:
  "\<exists>cmd. fst (withAudit (ax_env (ax_request zero_Config)) (ax_post ''t'' [''api'', ''v1'', ''devices'', ''b1'', ''command'']) ax_server) = Reply 202 (BCommand cmd)"
proof -
  let ?r = "ax_post ''t'' [''api'', ''v1'', ''devices'', ''b1'', ''command'']"
  have r: "route ?r = Some (ECommand [] ''b1'')" by (simp add: route_def route_specific_def ax_post_def is_get_def)
  obtain resp sv' where w: "withAudit (ax_env (ax_request zero_Config)) ?r ax_server = (resp, sv')" by force
  have act: "strings_TrimSpace (c_Action ex_cmd) \<noteq> []" by (simp add: ex_cmd_def strings_TrimSpace_plain plain_char_def)
  have "resp = Reply 202 (BCommand (ex_cmd\<lparr>c_CommandID := ''b1-'' @ time_FormatNano (\<lambda>_. 0) 0, c_IssuedAt := time_unix_sec 0\<rparr>))"
    using command_endpoint [OF r w] act
    by (simp add: Let_def ax_auth ax_device) (simp add: ax_env_def ex_env_def)
  with w show ?thesis by simp
qed

theorem apply_end_to_end_witness:
  "\<exists>body sv'. withAudit (ax_env (ax_request plan_ex_cfg)) (ax_post ''t'' [''api'', ''v1'', ''sites'', ''s1'', ''dispatch'', ''apply'']) ax_server =
     (Reply 202 body, sv') \<and> length (Commands (sv_store sv')) = 1"
proof -
  let ?r = "ax_post ''t'' [''api'', ''v1'', ''sites'', ''s1'', ''dispatch'', ''apply'']" and ?e = "ax_env (ax_request plan_ex_cfg)"
  have r: "route ?r = Some (EApply ''s1'')" by (simp add: route_def route_specific_def ax_post_def is_get_def)
  have inv: "store_inv (sv_store ax_server)"
    using store_inv_step [OF store_step.upsert store_inv_New] by (simp add: ax_store_def)
  have summary: "site_summary ?e ax_server ''s1'' = plan_ex_summary"
    by (simp add: site_summary_def ax_env_def Summary_def range_vals_def List.map_filter_def plan_ex_summary_def
        zero_SiteSummary_def f64_ops f64_eval f_zero_def)
  have devs: "Devices (ae_dev_order ?e) (sv_store ax_server) = [plan_ex_dev]"
    using ax_device by (simp add: Devices_def ax_env_def DeviceInSite_def)
  obtain pv where pv: "BuildPreview (\<lambda>_. Fin 0) (\<lambda>_. 0) 0 plan_ex_summary [plan_ex_dev] plan_ex_cfg = Some pv"
    "pv_CandidateCommand pv \<noteq> None" "pv_CandidateDeviceID pv = ''b1''" "pv_TrackingErrorW pv = Fin (- 45/2)"
    using plan_ex_preview by blast
  have "build_preview ?e ax_server ''s1'' plan_ex_cfg = Some pv"
    unfolding build_preview_def summary devs using pv(1) by (simp add: ax_env_def)
  moreover have "dc_CanApply (DecideApply pv (ax_request plan_ex_cfg))"
    using pv(2-) by (auto simp: DecideApply_iff apply_limit_def ax_request_def math_Abs_def)
  moreover obtain c0 where "pv_CandidateCommand pv = Some c0" using pv(2) by auto
  ultimately obtain body sv1 where "api_applyDispatch ?e ''s1'' ?r ax_server = (Reply 202 body, sv1)"
    using ax_auth [of "[''api'', ''v1'', ''sites'', ''s1'', ''dispatch'', ''apply'']"] plan_ex_ok(1) pv(3) ax_device
    by (simp add: api_applyDispatch_def site_or_default_def ax_env_def ax_request_def Let_def api_publish_def
        PublishCommand_def ex_env_def split: prod.split)
  then obtain sv' where w: "withAudit ?e ?r ax_server = (Reply 202 body, sv')"
    using r auditAction_control [OF r, of "''dispatch.apply''"] by (simp add: withAudit_def mux_def)
  have a: "ae_apply ?e (hq_Body ?r) = Inr (ax_request plan_ex_cfg)" by (simp add: ax_env_def)
  have "finite_cfg (rq_Config (ax_request plan_ex_cfg))" "cfg_HorizonHours (rq_Config (ax_request plan_ex_cfg)) \<le> max_horizon"
    using plan_ex_ok by (simp_all add: ax_request_def)
  from apply_end_to_end [OF r _ w inv a this] have "length (Commands (sv_store sv')) = 1"
    by (auto simp: ax_store_def UpsertDevice_def NewStore_def Commands_def Let_def)
  with w show ?thesis by blast
qed

theorem panic_not_audited_witness:
  "fst (withAudit (ax_env (ax_request (zero_Config\<lparr>cfg_HorizonHours := 2 ^ 40\<rparr>)))
     (ax_post ''t'' [''api'', ''v1'', ''sites'', ''s1'', ''dispatch'', ''apply'']) ax_server) = Aborted"
proof -
  let ?r = "ax_post ''t'' [''api'', ''v1'', ''sites'', ''s1'', ''dispatch'', ''apply'']"
  let ?q = "ax_request (zero_Config\<lparr>cfg_HorizonHours := 2 ^ 40\<rparr>)"
  have r: "route ?r = Some (EApply ''s1'')" by (simp add: route_def route_specific_def ax_post_def is_get_def)
  have q: "ae_apply (ax_env ?q) (hq_Body ?r) = Inr ?q" "rq_Config ?q = zero_Config\<lparr>cfg_HorizonHours := 2 ^ 40\<rparr>"
    "\<not> f_lt (rq_MaxAbsTrackingErrorW ?q) (Fin 0)"
    by (simp_all add: ax_env_def ax_request_def)
  from panic_not_audited [OF r ax_auth q] show ?thesis by simp
qed

end
