(* ===== verification/Go_Strconv.thy ===== *)
theory Go_Strconv
  imports Go_Time
begin

text \<open>
  The parsers of Go's packages \<open>strconv\<close> and \<open>time\<close> that read the settings of the programs:
  \<open>ParseBool\<close>, \<open>Atoi\<close>, \<open>ParseFloat(s, 64)\<close> and \<open>ParseDuration\<close>. \<open>None\<close> is an error.

  Contents: the parsers; their results are in range; what the texts of numbers and durations read as.
\<close>

section \<open>Booleans and integers\<close>

definition ParseBool :: "string \<Rightarrow> bool option" where
  "ParseBool s =
     (if s \<in> {''1'', ''t'', ''T'', ''TRUE'', ''true'', ''True''} then Some True
      else if s \<in> {''0'', ''f'', ''F'', ''FALSE'', ''false'', ''False''} then Some False
      else None)"

definition is_digit :: "char \<Rightarrow> bool" where
  "is_digit c \<longleftrightarrow> CHR ''0'' \<le> c \<and> c \<le> CHR ''9''"

definition digit_val :: "char \<Rightarrow> nat" where
  "digit_val c = of_char c - 48"

text \<open>An optional sign: whether it is a minus, and the rest.\<close>

definition take_sign :: "string \<Rightarrow> bool \<times> string" where
  "take_sign s =
     (case s of
        c # s' \<Rightarrow> if c = CHR ''-'' then (True, s') else if c = CHR ''+'' then (False, s') else (False, s)
      | [] \<Rightarrow> (False, s))"

definition Atoi :: "string \<Rightarrow> int option" where
  "Atoi s =
     (case take_sign s of (neg, ds) \<Rightarrow>
        if ds = [] \<or> \<not> list_all is_digit ds then None
        else let i = (if neg then - int (str_nat ds) else int (str_nat ds)) in
          if int64_ok i then Some i else None)"

section \<open>Durations\<close>

fun leading_int :: "nat \<Rightarrow> string \<Rightarrow> (nat \<times> string) option" where
  "leading_int x [] = Some (x, [])"
| "leading_int x (c # s) =
     (if \<not> is_digit c then Some (x, c # s)
      else if x > 2 ^ 63 div 10 then None
      else let x' = x * 10 + digit_val c in if x' > 2 ^ 63 then None else leading_int x' s)"

fun leading_fraction :: "nat \<Rightarrow> float64 \<Rightarrow> bool \<Rightarrow> string \<Rightarrow> nat \<times> float64 \<times> string" where
  "leading_fraction x scale overflow [] = (x, scale, [])"
| "leading_fraction x scale overflow (c # s) =
     (if \<not> is_digit c then (x, scale, c # s)
      else if overflow \<or> x > (2 ^ 63 - 1) div 10 then leading_fraction x scale True s
      else let y = x * 10 + digit_val c in
        if y > 2 ^ 63 then leading_fraction x scale True s
        else leading_fraction y (f_mul scale (Fin 10)) False s)"

text \<open>The unit map, in nanoseconds; the two spellings of the micro sign are in UTF-8.\<close>

definition unit_ns :: "string \<Rightarrow> nat option" where
  "unit_ns u =
     (if u = ''ns'' then Some 1
      else if u = ''us'' \<or> u = [CHR 0xC2, CHR 0xB5, CHR ''s''] \<or> u = [CHR 0xCE, CHR 0xBC, CHR ''s''] then Some 1000
      else if u = ''ms'' then Some 1000000
      else if u = ''s'' then Some 1000000000
      else if u = ''m'' then Some 60000000000
      else if u = ''h'' then Some 3600000000000
      else None)"

definition unit_char :: "char \<Rightarrow> bool" where
  "unit_char c \<longleftrightarrow> c \<noteq> CHR ''.'' \<and> \<not> is_digit c"

text \<open>The fraction after a dot: its digits, its scale, the rest, and whether there was a digit.\<close>

definition take_fraction :: "string \<Rightarrow> nat \<times> float64 \<times> string \<times> bool" where
  "take_fraction s =
     (case s of
        c # s' \<Rightarrow>
          if c = CHR ''.'' then
            (case leading_fraction 0 (Fin 1) False s' of (f, scale, r) \<Rightarrow> (f, scale, r, length r \<noteq> length s'))
          else (0, Fin 1, s, False)
      | [] \<Rightarrow> (0, Fin 1, s, False))"

text \<open>One number with its unit: the unsigned nanoseconds and the rest.\<close>

definition dur_part :: "string \<Rightarrow> (nat \<times> string) option" where
  "dur_part s =
     (if s = [] \<or> \<not> (hd s = CHR ''.'' \<or> is_digit (hd s)) then None
      else
        case leading_int 0 s of
          None \<Rightarrow> None
        | Some (v, s1) \<Rightarrow>
            (case take_fraction s1 of (f, scale, s2, post) \<Rightarrow>
               if length s1 = length s \<and> \<not> post then None
               else
                 case unit_ns (takeWhile unit_char s2) of
                   None \<Rightarrow> None
                 | Some unit \<Rightarrow>
                     if v > 2 ^ 63 div unit then None
                     else
                       let v1 = v * unit;
                           frac = f_to_int64 (f_mul (f_of_int (int f)) (f_div (f_of_int (int unit)) scale));
                           v2 = (if f > 0 then (v1 + nat frac) mod 2 ^ 64 else v1) in
                       if f > 0 \<and> v2 > 2 ^ 63 then None else Some (v2, dropWhile unit_char s2)))"

lemma leading_int_length: "leading_int x s = Some (v, r) \<Longrightarrow> length r \<le> length s"
  by (induction x s rule: leading_int.induct) (auto simp: Let_def split: if_splits)

lemma leading_fraction_length: "leading_fraction x sc ov s = (f, sc', r) \<Longrightarrow> length r \<le> length s"
  by (induction x sc ov s rule: leading_fraction.induct) (auto simp: Let_def split: if_splits)

lemma take_fraction_length: "take_fraction s = (f, sc, r, post) \<Longrightarrow> length r \<le> length s"
  by (auto simp: take_fraction_def split: list.splits if_splits prod.splits dest!: leading_fraction_length)

lemma dur_part_length:
  assumes "dur_part s = Some (v, r)"
  shows "length r < length s"
proof -
  from assms obtain v0 s1 f sc s2 post where p: "leading_int 0 s = Some (v0, s1)" "take_fraction s1 = (f, sc, s2, post)"
    "takeWhile unit_char s2 \<noteq> []" "r = dropWhile unit_char s2"
    by (fastforce simp: dur_part_def unit_ns_def Let_def split: option.splits prod.splits if_splits)
  then have "length r < length s2"
    using arg_cong [OF takeWhile_dropWhile_id [of unit_char s2], of length] by (cases "takeWhile unit_char s2") auto
  with p leading_int_length take_fraction_length show ?thesis by (metis le_trans not_less)
qed

text \<open>The loop over the parts; the sum is a \<open>uint64\<close>.\<close>

function dur_loop :: "nat \<Rightarrow> string \<Rightarrow> nat option" where
  "dur_loop d s =
     (if s = [] then Some d
      else
        case dur_part s of
          None \<Rightarrow> None
        | Some (v, r) \<Rightarrow> let d' = (d + v) mod 2 ^ 64 in if d' > 2 ^ 63 then None else dur_loop d' r)"
  by pat_completeness auto
termination
  by (relation "measure (length \<circ> snd)") (auto dest: dur_part_length)

declare dur_loop.simps [simp del]

definition ParseDuration :: "string \<Rightarrow> duration option" where
  "ParseDuration s =
     (case take_sign s of (neg, s') \<Rightarrow>
        if s' = ''0'' then Some 0
        else if s' = [] then None
        else
          case dur_loop 0 s' of
            None \<Rightarrow> None
          | Some d \<Rightarrow>
              if neg then Some (wrap64 (- int d))
              else if d > 2 ^ 63 - 1 then None else Some (int d))"

section \<open>Floating-point numbers\<close>

text \<open>ASCII letters without case.\<close>

definition lower :: "char \<Rightarrow> char" where
  "lower c = (if CHR ''A'' \<le> c \<and> c \<le> CHR ''Z'' then char_of (of_char c + 32 :: nat) else c)"

definition is_hex_letter :: "char \<Rightarrow> bool" where
  "is_hex_letter c \<longleftrightarrow> CHR ''a'' \<le> lower c \<and> lower c \<le> CHR ''f''"

text \<open>\<open>special\<close>: infinities with an optional sign, and the unsigned nan.\<close>

definition parse_special :: "string \<Rightarrow> float64 option" where
  "parse_special s =
     (case take_sign s of (neg, r) \<Rightarrow>
        if map lower r \<in> {''inf'', ''infinity''} then Some (f_inf neg)
        else if map lower s = ''nan'' then Some NaN else None)"

text \<open>
  The mantissa: its value without the point, the number of digits after the point, whether there
  is a digit, and the rest. \<open>readFloat\<close> keeps at most 19 digits and repairs the rounding
  afterwards; the value here is exact.
\<close>

fun scan_mantissa :: "bool \<Rightarrow> nat \<Rightarrow> nat \<Rightarrow> bool \<Rightarrow> bool \<Rightarrow> string \<Rightarrow> nat \<times> nat \<times> bool \<times> string" where
  "scan_mantissa hex m nfrac sawdot sawdigits [] = (m, nfrac, sawdigits, [])"
| "scan_mantissa hex m nfrac sawdot sawdigits (c # s) =
     (let nfrac' = (if sawdot then nfrac + 1 else nfrac) in
      if c = CHR ''_'' then scan_mantissa hex m nfrac sawdot sawdigits s
      else if c = CHR ''.'' then
        (if sawdot then (m, nfrac, sawdigits, c # s) else scan_mantissa hex m nfrac True sawdigits s)
      else if is_digit c then scan_mantissa hex (m * (if hex then 16 else 10) + digit_val c) nfrac' sawdot True s
      else if hex \<and> is_hex_letter c then scan_mantissa hex (m * 16 + (of_char (lower c) - 87)) nfrac' sawdot True s
      else (m, nfrac, sawdigits, c # s))"

fun scan_exponent :: "nat \<Rightarrow> string \<Rightarrow> nat \<times> string" where
  "scan_exponent e [] = (e, [])"
| "scan_exponent e (c # s) =
     (if c = CHR ''_'' then scan_exponent e s
      else if is_digit c then scan_exponent (if e < 10000 then e * 10 + digit_val c else e) s
      else (e, c # s))"

text \<open>The optional exponent at the end: \<open>None\<close> where the text is malformed.\<close>

definition read_exponent :: "bool \<Rightarrow> string \<Rightarrow> int option" where
  "read_exponent hex s =
     (case s of
        [] \<Rightarrow> if hex then None else Some 0
      | c # s1 \<Rightarrow>
          if lower c \<noteq> (if hex then CHR ''p'' else CHR ''e'') then None
          else
            case take_sign s1 of (neg, s2) \<Rightarrow>
              if s2 = [] \<or> \<not> is_digit (hd s2) then None
              else
                case scan_exponent 0 s2 of (e, r) \<Rightarrow>
                  if r \<noteq> [] then None else Some (if neg then - int e else int e))"

text \<open>
  \<open>underscoreOK\<close>: an underscore stands between digits, a base prefix counting as one. The second
  argument says what precedes: a digit (0), an underscore (1) or something else (2).
\<close>

fun underscores_ok :: "bool \<Rightarrow> nat \<Rightarrow> string \<Rightarrow> bool" where
  "underscores_ok hex i [] = (i \<noteq> 1)"
| "underscores_ok hex i (c # s) =
     (if is_digit c \<or> hex \<and> is_hex_letter c then underscores_ok hex 0 s
      else if c = CHR ''_'' then i = 0 \<and> underscores_ok hex 1 s
      else i \<noteq> 1 \<and> underscores_ok hex 2 s)"

definition underscoreOK :: "string \<Rightarrow> bool" where
  "underscoreOK s =
     (case take_sign s of (_, r) \<Rightarrow>
        if 2 \<le> length r \<and> r ! 0 = CHR ''0'' \<and> lower (r ! 1) \<in> {CHR ''b'', CHR ''o'', CHR ''x''}
        then underscores_ok (lower (r ! 1) = CHR ''x'') 0 (drop 2 r)
        else underscores_ok False 2 r)"

definition ParseFloat :: "string \<Rightarrow> float64 option" where
  "ParseFloat s =
     (case parse_special s of
        Some x \<Rightarrow> Some x
      | None \<Rightarrow>
          (case take_sign s of (neg, r) \<Rightarrow>
             let hex = (3 \<le> length r \<and> r ! 0 = CHR ''0'' \<and> lower (r ! 1) = CHR ''x'') in
             case scan_mantissa hex 0 0 False False (if hex then drop 2 r else r) of
               (m, nfrac, sawdigits, rest) \<Rightarrow>
                 if \<not> sawdigits then None
                 else
                   case read_exponent hex rest of
                     None \<Rightarrow> None
                   | Some e \<Rightarrow>
                       if CHR ''_'' \<in> set s \<and> \<not> underscoreOK s then None
                       else
                         let base = (if hex then 16 else 10) :: rat;
                             x = round64 (of_nat m / base ^ nfrac * (if hex then 2 else 10) powi e);
                             y = (if neg then f_neg x else x) in
                         if f_isfin y then Some y else None))"

section \<open>The results are in range\<close>

lemma Atoi_range: "Atoi s = Some i \<Longrightarrow> int64_ok i"
  by (auto simp: Atoi_def Let_def split: prod.splits if_splits)

lemma dur_loop_range: "dur_loop d s = Some r \<Longrightarrow> d \<le> 2 ^ 63 \<Longrightarrow> r \<le> 2 ^ 63"
proof (induction d s rule: dur_loop.induct)
  case (1 d s)
  from 1(1,3) 1(2) [unfolded dur_loop.simps [of d s]] show ?case by (auto simp: Let_def split: if_splits option.splits)
qed

lemma ParseDuration_range: "ParseDuration s = Some d \<Longrightarrow> int64_ok d"
  using dur_loop_range [of 0 "snd (take_sign s)"]
  by (auto simp: ParseDuration_def int64_ok_def wrap64_def split: prod.splits option.splits if_splits)

lemma ParseFloat_f64: "ParseFloat s = Some x \<Longrightarrow> is_f64 x"
  by (auto simp: ParseFloat_def parse_special_def f_inf_def Let_def split: prod.splits option.splits if_splits)

section \<open>Texts of numbers\<close>

lemma digit_char: "d < 10 \<Longrightarrow> is_digit (char_of (48 + d)) \<and> digit_val (char_of (48 + d)) = d"
  by (simp add: is_digit_def digit_val_def less_eq_char_def)

lemma nat_str_is_digits: "list_all is_digit (nat_str n)"
  using nat_str_digits [of n] by (auto simp: list_all_iff dest!: digit_char)

lemma nat_str_not_Nil [simp]: "nat_str n \<noteq> []"
  by (subst nat_str.simps) simp

text \<open>The value of digits read after others, as \<open>leading_int\<close> and \<open>str_nat\<close> build it up.\<close>

definition digits_from :: "nat \<Rightarrow> string \<Rightarrow> nat" where
  "digits_from x ds = foldl (\<lambda>n c. 10 * n + (of_char c - 48)) x ds"

lemma digits_from_simps [simp]:
  "digits_from x [] = x" "digits_from x (c # ds) = digits_from (10 * x + (of_char c - 48)) ds"
  by (simp_all add: digits_from_def)

lemma digits_from_ge: "x \<le> digits_from x ds"
proof (induction ds arbitrary: x)
  case (Cons c ds)
  have "x \<le> 10 * x + (of_char c - 48)" by simp
  also have "\<dots> \<le> digits_from x (c # ds)" using Cons by simp
  finally show ?case .
qed simp

lemma leading_int_digits:
  assumes "list_all is_digit ds" "u = [] \<or> \<not> is_digit (hd u)" "x \<le> 2 ^ 63"
  shows "leading_int x (ds @ u) = (if digits_from x ds \<le> 2 ^ 63 then Some (digits_from x ds, u) else None)"
  using assms
proof (induction ds arbitrary: x)
  case Nil
  then show ?case by (cases u) auto
next
  case (Cons c ds)
  let ?y = "10 * x + (of_char c - 48)"
  have y: "x * 10 + digit_val c = ?y" by (simp add: digit_val_def)
  consider "2 ^ 63 < ?y" | "?y \<le> 2 ^ 63" by linarith
  then show ?case
  proof cases
    case 1
    with digits_from_ge [of ?y ds] Cons.prems show ?thesis by (auto simp: y Let_def)
  next
    case 2
    then have "\<not> 2 ^ 63 div 10 < x" by auto
    with 2 Cons show ?thesis by (auto simp: y)
  qed
qed

lemma str_nat_from: "str_nat ds = digits_from 0 ds"
  by (simp add: str_nat_def digits_from_def)

text \<open>The signless text of a number with a unit.\<close>

lemma unit_chars:
  assumes "unit_ns u = Some k"
  shows "takeWhile unit_char u = u" "dropWhile unit_char u = []" "u \<noteq> []" "\<not> is_digit (hd u)" "hd u \<noteq> CHR ''.''"
    and "0 < k" "k \<le> 3600000000000"
  using assms
  by (auto simp: unit_ns_def unit_char_def is_digit_def less_eq_char_def split: if_splits)

lemma dur_part_number:
  assumes "unit_ns u = Some k"
  shows "dur_part (nat_str n @ u) = (if n * k \<le> 2 ^ 63 then Some (n * k, []) else None)"
proof -
  note u = unit_chars [OF assms]
  have d: "leading_int 0 (nat_str n @ u) = (if n \<le> 2 ^ 63 then Some (n, u) else None)"
    using leading_int_digits [OF nat_str_is_digits, of u 0 n] u(4) by (simp add: str_nat_from [symmetric])
  have f: "take_fraction u = (0, Fin 1, u, False)" using u(3,5) by (cases u) (auto simp: take_fraction_def)
  have h: "is_digit (hd (nat_str n @ u))"
    using nat_str_is_digits [of n] nat_str_not_Nil [of n] by (cases "nat_str n") (auto simp del: nat_str_not_Nil)
  have "2 ^ 63 div k < n \<longleftrightarrow> 2 ^ 63 < n * k" using u(6) by (simp add: div_less_iff_less_mult)
  moreover have "n * k \<le> 2 ^ 63 \<Longrightarrow> n \<le> 2 ^ 63" using u(6) le_trans [of n "n * k" "2 ^ 63"] by simp
  moreover have "unit_ns (takeWhile unit_char u) = Some k" "dropWhile unit_char u = []" by (simp_all only: u(1,2) assms)
  ultimately show ?thesis using h by (simp add: dur_part_def d f)
qed


text \<open>The text of a number is a number, not a duration, unless it is zero.\<close>

lemma take_sign_nat_str [simp]: "take_sign (nat_str n @ u) = (False, nat_str n @ u)"
  using nat_str_is_digits [of n] nat_str_not_Nil [of n]
  by (cases "nat_str n") (auto simp: take_sign_def is_digit_def less_eq_char_def simp del: nat_str_not_Nil)

lemma Atoi_nat_str: "Atoi (nat_str n) = (if n < 2 ^ 63 then Some (int n) else None)"
  using take_sign_nat_str [of n "[]"] nat_str_is_digits [of n] by (simp add: Atoi_def int64_ok_def)

lemma ParseDuration_nat_str: "0 < n \<Longrightarrow> ParseDuration (nat_str n) = None"
proof -
  assume "0 < n"
  moreover have "str_nat ''0'' = 0" by (simp add: str_nat_def)
  ultimately have "nat_str n \<noteq> ''0''" using str_nat_nat_str [of n] by (metis less_not_refl)
  moreover have "dur_part (nat_str n) = None"
    using leading_int_digits [OF nat_str_is_digits, of "[]" 0 n]
    by (auto simp: dur_part_def take_fraction_def unit_ns_def split: option.split)
  then have "dur_loop 0 (nat_str n) = None" by (subst dur_loop.simps) simp
  ultimately show ?thesis using take_sign_nat_str [of n "[]"] by (simp add: ParseDuration_def)
qed

text \<open>Settings as they are written: integers, and decimals with digits after the point.\<close>

lemma Atoi_fmt_d: "int64_ok i \<Longrightarrow> Atoi (fmt_d i) = Some i"
proof (cases "i < 0")
  case True
  assume "int64_ok i"
  moreover have "take_sign (''-'' @ nat_str (nat (- i))) = (True, nat_str (nat (- i)))" by (simp add: take_sign_def)
  ultimately show ?thesis using True nat_str_is_digits by (simp add: fmt_d_def Atoi_def)
next
  case False
  assume "int64_ok i"
  with False show ?thesis by (simp add: fmt_d_def Atoi_nat_str int64_ok_def)
qed

definition decimal :: "nat \<Rightarrow> string \<Rightarrow> string" where
  "decimal a ds = nat_str a @ ''.'' @ ds"

definition decimal_value :: "nat \<Rightarrow> string \<Rightarrow> rat" where
  "decimal_value a ds = of_nat (digits_from a ds) / 10 ^ length ds"

lemma scan_mantissa_digits:
  assumes "list_all is_digit ds"
  shows "scan_mantissa False m nfrac sawdot sawdigits (ds @ u) =
    scan_mantissa False (digits_from m ds) (if sawdot then nfrac + length ds else nfrac) sawdot (sawdigits \<or> ds \<noteq> []) u"
  using assms
proof (induction ds arbitrary: m nfrac sawdigits)
  case (Cons c ds)
  have "is_digit c" using Cons.prems by simp
  then have "c \<noteq> CHR ''_''" "c \<noteq> CHR ''.''" by (auto simp: is_digit_def less_eq_char_def)
  moreover have "m * 10 + digit_val c = 10 * m + (of_char c - 48)" by (simp add: digit_val_def)
  ultimately show ?case using Cons \<open>is_digit c\<close> by (simp add: Let_def mult.commute [of m])
qed simp

lemma ParseFloat_decimal:
  assumes "list_all is_digit ds"
  shows "ParseFloat (decimal a ds) =
    (if f_isfin (round64 (decimal_value a ds)) then Some (round64 (decimal_value a ds)) else None)"
proof -
  let ?s = "decimal a ds"
  have plain: "lower c = c \<and> c \<noteq> CHR ''i'' \<and> c \<noteq> CHR ''n'' \<and> c \<noteq> CHR ''x'' \<and> c \<noteq> CHR ''_''" if "c \<in> set ?s" for c
  proof -
    have "is_digit c \<or> c = CHR ''.''"
      using that assms nat_str_is_digits [of a] by (auto simp: decimal_def list_all_iff)
    then show ?thesis by (auto simp: lower_def is_digit_def less_eq_char_def)
  qed
  have len: "2 \<le> length ?s" using nat_str_not_Nil [of a] by (cases "nat_str a") (simp_all add: decimal_def del: nat_str_not_Nil)
  then obtain c d r where s: "?s = c # d # r" by (metis Suc_le_length_iff numeral_2_eq_2)
  have "take_sign ?s = (False, ?s)" unfolding decimal_def by (rule take_sign_nat_str)
  moreover have "map lower ?s = ?s" using plain by (intro map_idI) blast
  moreover have "?s \<noteq> ''inf''" "?s \<noteq> ''infinity''" "?s \<noteq> ''nan''" using plain [of c] s by auto
  moreover have "lower (?s ! 1) \<noteq> CHR ''x''" using plain [of d] s by simp
  moreover have "CHR ''_'' \<notin> set ?s" using plain by blast
  moreover have "scan_mantissa False 0 0 False False ?s = (digits_from a ds, length ds, True, [])"
    using scan_mantissa_digits [OF nat_str_is_digits, of 0 0 False False a "''.'' @ ds"]
      scan_mantissa_digits [OF assms, of a 0 True True "[]"]
    by (simp add: decimal_def str_nat_from [symmetric] Let_def)
  ultimately show ?thesis
    by (simp add: ParseFloat_def parse_special_def read_exponent_def decimal_value_def Let_def)
qed

section \<open>Properties\<close>

text \<open>
  Durations as a user writes them: a number and a unit, with an optional sign, read as that
  many units, and exactly those that fit an \<open>int64\<close> number of nanoseconds are accepted.
\<close>
theorem duration_text:
  assumes "unit_ns u = Some k"
  shows "ParseDuration (nat_str n @ u) = (if n * k < 2 ^ 63 then Some (int (n * k)) else None) \<and>
    ParseDuration (''-'' @ nat_str n @ u) = (if n * k \<le> 2 ^ 63 then Some (- int (n * k)) else None)"
proof -
  have loop: "dur_loop 0 (nat_str n @ u) = (if n * k \<le> 2 ^ 63 then Some (n * k) else None)"
    using dur_part_number [OF assms, of n] by (subst dur_loop.simps) (simp add: dur_loop.simps [of _ "[]"])
  have z: "nat_str n @ u \<noteq> ''0''" "nat_str n @ u \<noteq> []"
    using unit_chars(3) [OF assms] by (cases "nat_str n"; cases "tl (nat_str n)"; auto)+
  have "take_sign (''-'' @ nat_str n @ u) = (True, nat_str n @ u)" by (simp add: take_sign_def)
  moreover have "wrap64 (- int m) = - int m" if "m \<le> 2 ^ 63" for m :: nat
    using that by (intro wrap64_id) (simp add: int64_ok_def)
  ultimately show ?thesis
    using z loop by (auto simp: ParseDuration_def simp del: of_nat_mult)
qed

theorem duration_text_witness:
  "ParseDuration (nat_str 2562047 @ ''h'') = Some 9223369200000000000 \<and> ParseDuration (nat_str 2562048 @ ''h'') = None"
  using duration_text [of "''h''" 3600000000000 2562047] duration_text [of "''h''" 3600000000000 2562048]
  by (simp add: unit_ns_def)

lemma ParseDuration_fmt_d:
  assumes "int64_ok d"
  shows "ParseDuration (fmt_d d @ ''ns'') = Some d"
proof -
  have u: "unit_ns ''ns'' = Some 1" by (simp add: unit_ns_def)
  show ?thesis
  proof (cases "d < 0")
    case True
    then have "nat (- d) \<le> 2 ^ 63" using assms by (simp add: int64_ok_def)
    then show ?thesis using duration_text [OF u, of "nat (- d)"] True by (simp add: fmt_d_def)
  next
    case False
    then have "nat d < 2 ^ 63" using assms by (simp add: int64_ok_def)
    then show ?thesis using duration_text [OF u, of "nat d"] False by (simp add: fmt_d_def)
  qed
qed

end
