(* ===== verification/Simulator.thy ===== *)
theory Simulator
  imports Mqtt_Client Go_Strconv
begin

text \<open>
  cmd/simulator/main.go: the simulated devices of a site. The simulator receives commands over MQTT,
  keeps the state of two relays and a battery, answers every command, and publishes telemetry and
  battery events every two seconds. Arguments: the codecs and the MAC (\<open>SimEnv\<close>), the readings of
  the clock in the order they are made, the zone, \<open>math.Sin\<close>. Publications are logged in order;
  the broker's answer to them is only logged by the source. A handler and a round of the loop are
  atomic.

  Contents: the operations and the start; their invariant; the end of charging and discharging; the way of a
  command from the platform to the simulator and back; properties.
\<close>

section \<open>State\<close>

record simulator =
  sim_siteID :: string
  sim_keys :: Keys
  sim_relays :: "string \<rightharpoonup> bool"
  sim_batteryMode :: string
  sim_soc :: float64
  sim_lowSOCOpen :: bool
  sim_client :: bool
  sim_out :: "(string \<times> string) list"

record SimEnv =
  se_mqtt :: MqttEnv
  se_command :: "string \<Rightarrow> Command option"
  se_marshal_ack :: "CommandAck \<Rightarrow> string option"
  se_marshal_event :: "DeviceEvent \<Rightarrow> string option"

definition newSimulator :: "string \<Rightarrow> Keys \<Rightarrow> simulator" where
  "newSimulator siteID keys =
     \<lparr>sim_siteID = siteID, sim_keys = keys, sim_relays = [''load_01'' \<mapsto> True, ''load_02'' \<mapsto> True],
      sim_batteryMode = ''idle'', sim_soc = f_lit (65/100), sim_lowSOCOpen = False, sim_client = False, sim_out = []\<rparr>"

text \<open>\<open>sim.client = client\<close>, once the connection stands.\<close>

definition sim_connect :: "simulator \<Rightarrow> simulator" where
  "sim_connect s = s\<lparr>sim_client := True\<rparr>"

definition relayOn :: "simulator \<Rightarrow> string \<Rightarrow> bool" where
  "relayOn s deviceID = (case sim_relays s deviceID of None \<Rightarrow> False | Some on \<Rightarrow> on)"

section \<open>The battery\<close>

text \<open>The second part of \<open>batteryTelemetry\<close>: a battery at a limit stops there.\<close>

definition soc_limits :: "float64 \<Rightarrow> string \<Rightarrow> float64 \<times> string" where
  "soc_limits soc mode =
     (let (soc1, mode1) = (if f_le (f_lit (95/100)) soc then (f_lit (95/100), ''idle'') else (soc, mode)) in
      if f_le soc1 (f_lit (15/100)) then (f_lit (15/100), ''idle'') else (soc1, mode1))"

definition batteryTelemetry :: "simulator \<Rightarrow> (float64 \<times> float64 \<times> string) \<times> simulator" where
  "batteryTelemetry s =
     (let (power, soc0) =
            (if sim_batteryMode s = ''charging'' then (Fin (- 15), f_add (sim_soc s) (f_lit (5/1000)))
             else if sim_batteryMode s = ''discharging'' then (Fin 15, f_sub (sim_soc s) (f_lit (5/1000)))
             else (Fin 0, sim_soc s));
          (soc, mode) = soc_limits soc0 (sim_batteryMode s) in
      ((soc, power, mode), s\<lparr>sim_soc := soc, sim_batteryMode := mode\<rparr>))"

section \<open>Publications\<close>

definition sim_publish :: "string \<Rightarrow> string \<Rightarrow> simulator \<Rightarrow> simulator" where
  "sim_publish topic payload s = s\<lparr>sim_out := sim_out s @ [(topic, payload)]\<rparr>"

definition signPayload :: "SimEnv \<Rightarrow> time \<Rightarrow> string \<Rightarrow> string \<Rightarrow> string \<Rightarrow> Keys \<Rightarrow> string" where
  "signPayload env now topic deviceID payload keys =
     (if \<not> keys_Enabled keys then payload
      else
        case keys deviceID of
          None \<Rightarrow> payload
        | Some secret \<Rightarrow>
            (case SignPayload (me_decode (se_mqtt env)) (me_encode (se_mqtt env)) (me_mac (se_mqtt env)) topic payload secret now of
               Inl err \<Rightarrow> payload
             | Inr p \<Rightarrow> p))"

text \<open>\<open>payload, _ := json.Marshal(...)\<close>: an error leaves an empty payload.\<close>

definition or_empty :: "string option \<Rightarrow> string" where
  "or_empty r = (case r of None \<Rightarrow> [] | Some p \<Rightarrow> p)"

text \<open>\<open>stamped\<close> is the time of the telemetry, \<open>signedAt\<close> that of its signature.\<close>

definition publishState ::
  "SimEnv \<Rightarrow> time \<Rightarrow> time \<Rightarrow> DeviceType \<Rightarrow> string \<Rightarrow> int \<Rightarrow> string \<Rightarrow> (string \<rightharpoonup> float64) \<Rightarrow> simulator \<Rightarrow> simulator" where
  "publishState env stamped signedAt ty i seq st metrics s =
     (let payload = or_empty (me_marshal_telemetry (se_mqtt env)
            (zero_Telemetry\<lparr>t_DeviceID := i, t_Timestamp := time_unix_sec stamped, t_Metrics := metrics, t_State := st, t_Seq := seq\<rparr>));
          t = topic_Telemetry (sim_siteID s) ty i in
      sim_publish t (signPayload env signedAt t i payload (sim_keys s)) s)"

text \<open>Whether a battery event is due, and the flag afterwards: the first part of \<open>publishBatterySOCEvent\<close>.\<close>

definition soc_event :: "float64 \<Rightarrow> bool \<Rightarrow> string option \<times> bool" where
  "soc_event soc lowOpen =
     (let shouldWarn = f_le soc (f_lit (20/100)) \<and> \<not> lowOpen;
          shouldRecover = f_le (f_lit (30/100)) soc \<and> lowOpen in
      (if shouldWarn then Some ''low_soc'' else if shouldRecover then Some ''soc_recovered'' else None,
       if shouldRecover then False else if shouldWarn then True else lowOpen))"

definition publishEvent ::
  "SimEnv \<Rightarrow> zone \<Rightarrow> (nat \<Rightarrow> time) \<Rightarrow> string \<Rightarrow> string \<Rightarrow> string \<Rightarrow> string \<Rightarrow> gmap \<Rightarrow> simulator \<Rightarrow> simulator" where
  "publishEvent env z clk deviceID severity code message details s =
     (let payload = or_empty (se_marshal_event env
            \<lparr>e_EventID = deviceID @ ''-'' @ code @ ''-'' @ time_FormatSec z (clk 0), e_SiteID = [], e_DeviceID = [],
             e_DeviceType = [], e_Severity = severity, e_Code = code, e_Message = message, e_Details = details,
             e_Timestamp = time_unix_sec (clk 1), e_CreatedAt = 0\<rparr>);
          t = ''vpp/'' @ sim_siteID s @ ''/'' @ DeviceBattery @ ''/'' @ deviceID @ ''/event'' in
      sim_publish t (signPayload env (clk 2) t deviceID payload (sim_keys s)) s)"

definition publishBatterySOCEvent ::
  "SimEnv \<Rightarrow> zone \<Rightarrow> (nat \<Rightarrow> time) \<Rightarrow> float64 \<Rightarrow> simulator \<Rightarrow> simulator" where
  "publishBatterySOCEvent env z clk soc s =
     (if \<not> sim_client s then s
      else
        let (due, lowOpen) = soc_event soc (sim_lowSOCOpen s);
            s1 = s\<lparr>sim_lowSOCOpen := lowOpen\<rparr>;
            details = Some [(''soc'', GNum soc)] in
        case due of
          None \<Rightarrow> s1
        | Some code \<Rightarrow>
            if code = ''low_soc'' then
              publishEvent env z clk ''battery_01'' ''warning'' code ''battery SOC is below 20%'' details s1
            else publishEvent env z clk ''battery_01'' ''info'' code ''battery SOC recovered above 30%'' details s1)"

section \<open>Commands\<close>

definition boolParam :: "gmap \<Rightarrow> string \<Rightarrow> bool option" where
  "boolParam params key = (case gmap_get params key of Some (GBool b) \<Rightarrow> Some b | _ \<Rightarrow> None)"

definition stringParam :: "gmap \<Rightarrow> string \<Rightarrow> string option" where
  "stringParam params key = (case gmap_get params key of Some (GStr v) \<Rightarrow> Some v | _ \<Rightarrow> None)"

text \<open>The switch over the actions: the error of the answer, if any, and the new state.\<close>

definition apply_action :: "Parsed \<Rightarrow> Command \<Rightarrow> simulator \<Rightarrow> string option \<times> simulator" where
  "apply_action parsed cmd s =
     (if c_Action cmd = ''set_relay'' then
        (case boolParam (c_Params cmd) ''on'' of
           Some on \<Rightarrow>
             if tp_DeviceType parsed \<noteq> DeviceLoad then (Some ''set_relay requires load device and bool params.on'', s)
             else (None, s\<lparr>sim_relays := (sim_relays s)(tp_DeviceID parsed \<mapsto> on)\<rparr>)
         | None \<Rightarrow> (Some ''set_relay requires load device and bool params.on'', s))
      else if c_Action cmd = ''set_mode'' then
        (case stringParam (c_Params cmd) ''mode'' of
           Some mode \<Rightarrow>
             if tp_DeviceType parsed \<noteq> DeviceBattery then (Some ''set_mode requires battery device and string params.mode'', s)
             else if mode \<noteq> ''charging'' \<and> mode \<noteq> ''discharging'' \<and> mode \<noteq> ''idle'' then
               (Some ''unsupported battery mode (use idle/charging/discharging)'', s)
             else (None, s\<lparr>sim_batteryMode := mode\<rparr>)
         | None \<Rightarrow> (Some ''set_mode requires battery device and string params.mode'', s))
      else (Some ''unsupported action'', s))"

text \<open>
  \<open>handleCommand\<close>: \<open>None\<close> is the panic of the call of \<open>Publish\<close> on a client that is not set yet.
\<close>

definition sim_ack :: "Command \<Rightarrow> time \<Rightarrow> string option \<Rightarrow> CommandAck" where
  "sim_ack cmd now err =
     \<lparr>a_CommandID = c_CommandID cmd, a_OK = (err = None), a_Error = or_empty err, a_Timestamp = time_unix_sec now\<rparr>"

definition sim_handleCommand :: "SimEnv \<Rightarrow> (nat \<Rightarrow> time) \<Rightarrow> string \<Rightarrow> string \<Rightarrow> simulator \<Rightarrow> simulator option" where
  "sim_handleCommand env clk topic payload s =
     (case topic_Parse topic of
        None \<Rightarrow> Some s
      | Some parsed \<Rightarrow>
          if tp_Kind parsed \<noteq> ''command'' then Some s
          else
            case se_command env payload of
              None \<Rightarrow> Some s
            | Some cmd \<Rightarrow>
                let (err, s1) = apply_action parsed cmd s;
                    answer = or_empty (se_marshal_ack env (sim_ack cmd (clk 0) err));
                    ackTopic = ''vpp/'' @ sim_siteID s1 @ ''/'' @ tp_DeviceType parsed @ ''/'' @ tp_DeviceID parsed @ ''/command/ack'' in
                if \<not> sim_client s1 then None
                else Some (sim_publish ackTopic
                       (signPayload env (clk 1) ackTopic (tp_DeviceID parsed) answer (sim_keys s1)) s1))"

section \<open>The loop\<close>

definition sim_pv :: "(float64 \<Rightarrow> float64) \<Rightarrow> zone \<Rightarrow> time \<Rightarrow> float64" where
  "sim_pv math_Sin z now =
     (let h = f_add (f_of_int (time_Hour z now)) (f_div (f_of_int (time_Minute z now)) (Fin 60)) in
      math_Max (Fin 0) (f_mul (Fin 90) (math_Sin (f_mul (f_div (f_sub h (Fin 6)) (Fin 12)) math_Pi))))"

text \<open>
  One turn of the loop in \<open>main\<close>: the readings of the clock are numbered in the order in which they
  are made when every publication is signed and an event is due.
\<close>

definition sim_load :: "(float64 \<Rightarrow> float64) \<Rightarrow> rat \<Rightarrow> rat \<Rightarrow> rat \<Rightarrow> int \<Rightarrow> float64" where
  "sim_load math_Sin base amp period seq =
     f_add (Fin base) (f_mul (Fin amp) (math_Sin (f_div (f_of_int seq) (Fin period))))"

definition sim_round ::
  "SimEnv \<Rightarrow> (float64 \<Rightarrow> float64) \<Rightarrow> zone \<Rightarrow> (nat \<Rightarrow> time) \<Rightarrow> int \<Rightarrow> simulator \<Rightarrow> int \<times> simulator" where
  "sim_round env math_Sin z clk seq0 s =
     (let seq = wrap64 (seq0 + 1);
          pvPower = sim_pv math_Sin z (clk 0);
          load1 = (if relayOn s ''load_01'' then sim_load math_Sin 25 5 10 seq else Fin 0);
          load2 = (if relayOn s ''load_02'' then sim_load math_Sin 45 10 7 seq else Fin 0);
          ((soc, batteryPower, batteryState), s1) = batteryTelemetry s;
          pvState = (if f_eq pvPower (Fin 0) then ''off'' else ''on'');
          s2 = publishState env (clk 1) (clk 2) DevicePV ''pv_01'' seq pvState
                 [''voltage'' \<mapsto> Fin 18, ''current'' \<mapsto> f_div pvPower (Fin 18), ''power'' \<mapsto> pvPower] s1;
          s3 = publishState env (clk 3) (clk 4) DeviceBattery ''battery_01'' seq batteryState
                 [''voltage'' \<mapsto> f_lit (124/10), ''current'' \<mapsto> f_div batteryPower (f_lit (124/10)),
                  ''power'' \<mapsto> batteryPower, ''soc'' \<mapsto> soc, ''temperature'' \<mapsto> Fin 25] s2;
          s4 = publishBatterySOCEvent env z (\<lambda>i. clk (5 + i)) soc s3;
          s5 = publishState env (clk 8) (clk 9) DeviceLoad ''load_01'' seq (if relayOn s4 ''load_01'' then ''on'' else ''off'')
                 [''voltage'' \<mapsto> Fin 12, ''current'' \<mapsto> f_div load1 (Fin 12), ''power'' \<mapsto> load1] s4;
          s6 = publishState env (clk 10) (clk 11) DeviceLoad ''load_02'' seq (if relayOn s5 ''load_02'' then ''on'' else ''off'')
                 [''voltage'' \<mapsto> Fin 12, ''current'' \<mapsto> f_div load2 (Fin 12), ''power'' \<mapsto> load2] s5 in
      (seq, s6))"


text \<open>\<open>n\<close> turns of the loop; \<open>clk k\<close> are the readings of turn \<open>k\<close>.\<close>

fun sim_loop ::
  "SimEnv \<Rightarrow> (float64 \<Rightarrow> float64) \<Rightarrow> zone \<Rightarrow> (nat \<Rightarrow> nat \<Rightarrow> time) \<Rightarrow> nat \<Rightarrow> int \<times> simulator \<Rightarrow> int \<times> simulator" where
  "sim_loop env math_Sin z clk 0 st = st"
| "sim_loop env math_Sin z clk (Suc n) st =
     (case sim_loop env math_Sin z clk n st of (seq, s) \<Rightarrow> sim_round env math_Sin z (clk n) seq s)"

section \<open>Start-up\<close>

definition sim_getenv :: "(string \<Rightarrow> string) \<Rightarrow> string \<Rightarrow> string \<Rightarrow> string" where
  "sim_getenv env key fallback = (if env key \<noteq> [] then env key else fallback)"

definition sim_getbool :: "(string \<Rightarrow> string) \<Rightarrow> string \<Rightarrow> bool \<Rightarrow> bool" where
  "sim_getbool env key fallback =
     (if env key = [] then fallback
      else case ParseBool (env key) of None \<Rightarrow> fallback | Some b \<Rightarrow> b)"

text \<open>
  \<open>main\<close> up to its loop; \<open>Inl\<close> is the step whose error ends the process. \<open>tls\<close> is \<open>NewTLSConfig\<close> on
  the files, \<open>connect\<close> the answer of the broker to a connection with this user and configuration.
\<close>

definition sim_main ::
  "(string \<Rightarrow> string) \<Rightarrow> (TLSFiles \<Rightarrow> string + 'cert TLSConfig option) \<Rightarrow>
   (string \<Rightarrow> (string \<times> string) option \<Rightarrow> 'cert TLSConfig option \<Rightarrow> string option) \<Rightarrow> string + simulator"
where
  "sim_main env tls connect =
     (case ParseKeys (sim_getenv env ''DEVICE_KEYS'' []) of
        Inl err \<Rightarrow> Inl ''parse device keys''
      | Inr deviceKeys \<Rightarrow>
          let sim = newSimulator (sim_getenv env ''SITE_ID'' ''home-lab'') deviceKeys;
              username = sim_getenv env ''MQTT_USERNAME'' [];
              user = (if username \<noteq> [] then Some (username, sim_getenv env ''MQTT_PASSWORD'' []) else None) in
          case tls \<lparr>tf_CAFile = sim_getenv env ''MQTT_TLS_CA_FILE'' [], tf_CertFile = sim_getenv env ''MQTT_TLS_CERT_FILE'' [],
                    tf_KeyFile = sim_getenv env ''MQTT_TLS_KEY_FILE'' [],
                    tf_InsecureSkipVerify = sim_getbool env ''MQTT_TLS_INSECURE_SKIP_VERIFY'' False\<rparr> of
            Inl err \<Rightarrow> Inl ''load mqtt tls config''
          | Inr tlsConfig \<Rightarrow>
              if connect (sim_getenv env ''MQTT_BROKER'' ''tcp://localhost:1883'') user tlsConfig \<noteq> None
              then Inl ''connect mqtt'' else Inr (sim_connect sim))"

section \<open>Invariant\<close>

text \<open>What happens to the simulator: a connection, a message, a turn of the loop.\<close>

inductive sim_step :: "simulator \<Rightarrow> simulator \<Rightarrow> bool" where
  connect: "sim_step s (sim_connect s)"
| message: "sim_handleCommand env clk topic payload s = Some s' \<Longrightarrow> sim_step s s'"
| round: "sim_step s (snd (sim_round env math_Sin z clk seq s))"

inductive_cases sim_stepE: "sim_step s s'"

abbreviation battery_modes :: "string set" where
  "battery_modes \<equiv> {''idle'', ''charging'', ''discharging''}"

definition sim_inv :: "simulator \<Rightarrow> bool" where
  "sim_inv s \<longleftrightarrow> is_f64 (sim_soc s) \<and> f_le (f_lit (15/100)) (sim_soc s) \<and> f_le (sim_soc s) (f_lit (95/100)) \<and>
     sim_batteryMode s \<in> battery_modes \<and> {''load_01'', ''load_02''} \<subseteq> dom (sim_relays s)"

text \<open>The limits and the step of the state of charge as float values.\<close>

lemma soc_literals:
  "f_lit (15/100) = Fin (5404319552844595 / 2 ^ 55)" "f_lit (95/100) = Fin (8556839292003942 / 2 ^ 53)"
  "f_lit (65/100) = Fin (5854679515581645 / 2 ^ 53)" "f_lit (5/1000) = Fin (5764607523034235 / 2 ^ 60)"
  using round64_eqI [of "- 3" "15/100" 5404319552844595] round64_eqI [of "- 1" "95/100" 8556839292003942]
    round64_eqI [of "- 1" "65/100" 5854679515581645] round64_eqI [of "- 8" "5/1000" 5764607523034235]
  by (simp_all add: f64_eval rne_def f_lit_def)

abbreviation soc_lo :: rat where "soc_lo \<equiv> 5404319552844595 / 2 ^ 55"
abbreviation soc_hi :: rat where "soc_hi \<equiv> 8556839292003942 / 2 ^ 53"
abbreviation soc_step :: rat where "soc_step \<equiv> 5764607523034235 / 2 ^ 60"

lemma soc_range:
  "f_le (f_lit (15/100)) x \<and> f_le x (f_lit (95/100)) \<longleftrightarrow> (\<exists>q. x = Fin q \<and> soc_lo \<le> q \<and> q \<le> soc_hi)"
  unfolding soc_literals by (cases x) (auto simp: f_le_def)

text \<open>Rounding a positive number keeps it between multiples of \<open>2 ^ -20\<close>.\<close>

lemma round64_grid:
  assumes "of_int k / 2 ^ 20 \<le> x" "x \<le> of_int m / 2 ^ 20" "0 < k" "m < 2 ^ 53"
  obtains r where "round64 x = Fin r" "of_int k / 2 ^ 20 \<le> r" "r \<le> of_int m / 2 ^ 20"
proof -
  have "of_int k \<le> (of_int m :: rat)" using assms(1,2) by simp
  then have "k \<le> m" by simp
  then have "\<bar>k\<bar> < 2 ^ 53" "\<bar>m\<bar> < 2 ^ 53" using assms(3,4) by auto
  then have g: "round64 (of_int k / 2 ^ 20) = Fin (of_int k / 2 ^ 20)" "round64 (of_int m / 2 ^ 20) = Fin (of_int m / 2 ^ 20)"
    using round64_exact [of k "- 20"] round64_exact [of m "- 20"]
    by (simp_all only: pow2_neg_numeral times_divide_eq_right mult_1_right)
  have "Q (of_int k / 2 ^ 20) \<le> f_key (round64 x)" "f_key (round64 x) \<le> Q (of_int m / 2 ^ 20)"
    using round64_mono [OF assms(1)] round64_mono [OF assms(2)] g by simp_all
  moreover have "0 < (of_int k :: rat)" using assms(3) by simp
  ultimately show thesis by (cases "round64 x") (auto intro: that simp: divide_le_0_iff)
qed

lemma soc_limits_Fin:
  "soc_limits (Fin r) mode =
    (if soc_hi \<le> r then (Fin soc_hi, ''idle'') else if r \<le> soc_lo then (Fin soc_lo, ''idle'') else (Fin r, mode))"
  unfolding soc_limits_def soc_literals by (simp add: Let_def)

text \<open>The battery after a telemetry: the change of the state of charge, limited.\<close>

lemma soc_step_add:
  "f_add (Fin q) (f_lit (5/1000)) = round64 (q + soc_step)" "f_sub (Fin q) (f_lit (5/1000)) = round64 (q - soc_step)"
  unfolding soc_literals by (simp_all add: f_add_def f_sub_def)

lemma battery_Fin:
  assumes "sim_soc s = Fin q"
  shows "sim_batteryMode s = ''charging'' \<Longrightarrow> round64 (q + soc_step) = Fin r \<Longrightarrow>
      (sim_soc (snd (batteryTelemetry s)), sim_batteryMode (snd (batteryTelemetry s))) = soc_limits (Fin r) ''charging''"
    and "sim_batteryMode s = ''discharging'' \<Longrightarrow> round64 (q - soc_step) = Fin r \<Longrightarrow>
      (sim_soc (snd (batteryTelemetry s)), sim_batteryMode (snd (batteryTelemetry s))) = soc_limits (Fin r) ''discharging''"
    and "sim_batteryMode s \<noteq> ''charging'' \<Longrightarrow> sim_batteryMode s \<noteq> ''discharging'' \<Longrightarrow>
      (sim_soc (snd (batteryTelemetry s)), sim_batteryMode (snd (batteryTelemetry s))) = soc_limits (Fin q) (sim_batteryMode s)"
  using assms unfolding batteryTelemetry_def Let_def split_beta by (simp_all only: soc_step_add if_True if_False fst_conv snd_conv simulator.simps prod.collapse, simp_all)

text \<open>One step of charging or discharging, on the grid.\<close>

lemma charge_once:
  assumes "sim_batteryMode s = ''charging''" "sim_soc s = Fin q" "of_int j / 2 ^ 20 \<le> q" "q \<le> soc_hi" "157000 \<le> j"
  shows "let s' = snd (batteryTelemetry s) in
    sim_batteryMode s' = ''idle'' \<and> sim_soc s' = Fin soc_hi \<or>
    sim_batteryMode s' = ''charging'' \<and> (\<exists>r. sim_soc s' = Fin r \<and> soc_lo \<le> r \<and> r \<le> soc_hi \<and> of_int (j + 5242) / 2 ^ 20 \<le> r)"
proof -
  have "of_int (j + 5242) / 2 ^ 20 \<le> q + soc_step" "q + soc_step \<le> of_int (2 ^ 20) / 2 ^ 20"
    using assms(3,4) by (simp_all add: field_simps)
  then obtain r where r: "round64 (q + soc_step) = Fin r" "of_int (j + 5242) / 2 ^ 20 \<le> r"
    using round64_grid [of "j + 5242" "q + soc_step" "2 ^ 20"] assms(5) by auto
  have "of_int (157000 + 5242) / 2 ^ 20 \<le> (of_int (j + 5242) / 2 ^ 20 :: rat)"
    using assms(5) by (intro divide_right_mono) (simp_all only: of_int_le_iff, simp_all)
  with r(2) have "soc_lo < r" by simp
  with battery_Fin(1) [OF assms(2,1) r(1)] r(2) show ?thesis
    unfolding soc_limits_Fin by (auto simp: Let_def split: if_splits)
qed

lemma discharge_once:
  assumes "sim_batteryMode s = ''discharging''" "sim_soc s = Fin q" "q \<le> of_int j / 2 ^ 20" "soc_lo \<le> q" "j \<le> 997000"
  shows "let s' = snd (batteryTelemetry s) in
    sim_batteryMode s' = ''idle'' \<and> sim_soc s' = Fin soc_lo \<or>
    sim_batteryMode s' = ''discharging'' \<and> (\<exists>r. sim_soc s' = Fin r \<and> soc_lo \<le> r \<and> r \<le> soc_hi \<and> r \<le> of_int (j - 5242) / 2 ^ 20)"
proof -
  have "of_int 150000 / 2 ^ 20 \<le> q - soc_step" "q - soc_step \<le> of_int (j - 5242) / 2 ^ 20"
    using assms(3,4) by (simp_all add: field_simps)
  then obtain r where r: "round64 (q - soc_step) = Fin r" "r \<le> of_int (j - 5242) / 2 ^ 20"
    using round64_grid [of 150000 "q - soc_step" "j - 5242"] assms(5) by auto
  have "(of_int (j - 5242) / 2 ^ 20 :: rat) \<le> of_int (997000 - 5242) / 2 ^ 20"
    using assms(5) by (intro divide_right_mono) (simp_all only: of_int_le_iff, simp_all)
  with r(2) have "r < soc_hi" by simp
  with battery_Fin(2) [OF assms(2,1) r(1)] r(2) show ?thesis
    unfolding soc_limits_Fin by (auto simp: Let_def split: if_splits)
qed

text \<open>What the other parts of a turn leave alone.\<close>

lemma sim_publish_frame [simp]:
  "sim_soc (sim_publish t p s) = sim_soc s" "sim_batteryMode (sim_publish t p s) = sim_batteryMode s"
  "sim_relays (sim_publish t p s) = sim_relays s" "sim_lowSOCOpen (sim_publish t p s) = sim_lowSOCOpen s"
  "sim_client (sim_publish t p s) = sim_client s"
  by (simp_all add: sim_publish_def)

lemma publishState_frame [simp]:
  "sim_soc (publishState env a b ty i seq st m s) = sim_soc s"
  "sim_batteryMode (publishState env a b ty i seq st m s) = sim_batteryMode s"
  "sim_relays (publishState env a b ty i seq st m s) = sim_relays s"
  "sim_lowSOCOpen (publishState env a b ty i seq st m s) = sim_lowSOCOpen s"
  "sim_client (publishState env a b ty i seq st m s) = sim_client s"
  by (simp_all add: publishState_def Let_def)

lemma publishBatterySOCEvent_frame [simp]:
  "sim_soc (publishBatterySOCEvent env z clk soc s) = sim_soc s"
  "sim_batteryMode (publishBatterySOCEvent env z clk soc s) = sim_batteryMode s"
  "sim_relays (publishBatterySOCEvent env z clk soc s) = sim_relays s"
  by (simp_all add: publishBatterySOCEvent_def publishEvent_def Let_def split_beta split: option.split)

lemma round_battery:
  "sim_soc (snd (sim_round env math_Sin z clk seq s)) = sim_soc (snd (batteryTelemetry s))"
  "sim_batteryMode (snd (sim_round env math_Sin z clk seq s)) = sim_batteryMode (snd (batteryTelemetry s))"
  "sim_relays (snd (sim_round env math_Sin z clk seq s)) = sim_relays s"
  by (simp_all only: sim_round_def Let_def split_beta snd_conv fst_conv publishState_frame publishBatterySOCEvent_frame)
    (simp add: batteryTelemetry_def Let_def split_beta)

lemma soc_moves:
  assumes "soc_lo \<le> q" "q \<le> soc_hi"
  obtains r r' where "round64 (q + soc_step) = Fin r" "round64 (q - soc_step) = Fin r'"
proof -
  have "of_int 150000 / 2 ^ 20 \<le> q + soc_step" "q + soc_step \<le> of_int (2 ^ 20) / 2 ^ 20"
    using assms by simp_all
  then obtain r where "round64 (q + soc_step) = Fin r" by (rule round64_grid) simp_all
  moreover have "of_int 150000 / 2 ^ 20 \<le> q - soc_step" "q - soc_step \<le> of_int (2 ^ 20) / 2 ^ 20"
    using assms by simp_all
  then obtain r' where "round64 (q - soc_step) = Fin r'" by (rule round64_grid) simp_all
  ultimately show thesis by (rule that)
qed

lemma soc_limits_ok:
  assumes "is_f64 (Fin r)" "mode \<in> battery_modes" "(x, mode') = soc_limits (Fin r) mode"
  shows "is_f64 x \<and> f_le (f_lit (15/100)) x \<and> f_le x (f_lit (95/100)) \<and> mode' \<in> battery_modes"
proof -
  have "is_f64 (Fin soc_lo)" "is_f64 (Fin soc_hi)"
    unfolding soc_literals [symmetric] by (simp_all only: f_lit_def is_f64_round64)
  with assms show ?thesis unfolding soc_literals soc_limits_Fin by (auto split: if_splits)
qed

lemma battery_inv:
  assumes "sim_inv s"
  shows "sim_inv (snd (batteryTelemetry s))"
proof -
  obtain q where q: "sim_soc s = Fin q" "soc_lo \<le> q" "q \<le> soc_hi"
    using assms soc_range [of "sim_soc s"] by (auto simp: sim_inv_def)
  from q(2,3) obtain r r' where r: "round64 (q + soc_step) = Fin r" "round64 (q - soc_step) = Fin r'"
    by (rule soc_moves)
  have f: "is_f64 (Fin r)" "is_f64 (Fin r')" "is_f64 (Fin q)"
    using is_f64_round64 [of "q + soc_step"] is_f64_round64 [of "q - soc_step"] r assms q(1) by (simp_all only: sim_inv_def)
  have "\<exists>x m. is_f64 (Fin x) \<and> m \<in> battery_modes \<and>
      (sim_soc (snd (batteryTelemetry s)), sim_batteryMode (snd (batteryTelemetry s))) = soc_limits (Fin x) m"
    using battery_Fin [OF q(1)] r f assms by (auto simp: sim_inv_def)
  with soc_limits_ok have "is_f64 (sim_soc (snd (batteryTelemetry s))) \<and> f_le (f_lit (15/100)) (sim_soc (snd (batteryTelemetry s))) \<and>
      f_le (sim_soc (snd (batteryTelemetry s))) (f_lit (95/100)) \<and> sim_batteryMode (snd (batteryTelemetry s)) \<in> battery_modes"
    by blast
  moreover have "sim_relays (snd (batteryTelemetry s)) = sim_relays s"
    by (simp add: batteryTelemetry_def Let_def split_beta)
  ultimately show ?thesis using assms by (simp add: sim_inv_def)
qed

lemma sim_inv_cong:
  assumes "sim_soc s' = sim_soc s" "sim_batteryMode s' = sim_batteryMode s" "sim_relays s' = sim_relays s"
  shows "sim_inv s' \<longleftrightarrow> sim_inv s"
  by (simp only: sim_inv_def assms)

lemma apply_action_inv:
  assumes "sim_inv s"
  shows "sim_inv (snd (apply_action parsed cmd s))"
  using assms by (auto simp: apply_action_def sim_inv_def split: option.split)

interpretation sim: keeps_invariant sim_step sim_inv
proof
  fix s s' assume inv: "sim_inv s" and "sim_step s s'"
  from this(2) show "sim_inv s'"
  proof cases
    case connect
    with inv show ?thesis by (simp add: sim_inv_def sim_connect_def)
  next
    case (message env clk topic payload)
    from message have "\<exists>parsed cmd. sim_soc s' = sim_soc (snd (apply_action parsed cmd s)) \<and>
        sim_batteryMode s' = sim_batteryMode (snd (apply_action parsed cmd s)) \<and>
        sim_relays s' = sim_relays (snd (apply_action parsed cmd s)) \<or> s' = s"
      by (force simp: sim_handleCommand_def Let_def split_beta split: option.splits if_splits)
    then show ?thesis using inv apply_action_inv [OF inv] sim_inv_cong by metis
  next
    case (round env math_Sin z clk seq)
    have "sim_relays (snd (batteryTelemetry s)) = sim_relays s"
      by (simp add: batteryTelemetry_def Let_def split_beta)
    with round battery_inv [OF inv] show ?thesis by (simp add: sim_inv_def round_battery)
  qed
qed

lemma sim_inv_new: "sim_inv (newSimulator siteID keys)"
proof -
  have "is_f64 (f_lit (65/100))" by (simp only: f_lit_def is_f64_round64)
  moreover have "f_le (f_lit (15/100)) (f_lit (65/100)) \<and> f_le (f_lit (65/100)) (f_lit (95/100))"
    unfolding soc_literals by simp
  ultimately show ?thesis by (simp add: sim_inv_def newSimulator_def)
qed

lemma sim_main_started:
  assumes "sim_main env tls connect = Inr s"
  shows "sim_client s" "sim_step\<^sup>*\<^sup>* (newSimulator (sim_siteID s) (sim_keys s)) s" "sim_inv s"
proof -
  obtain site keys where s: "s = sim_connect (newSimulator site keys)"
    using assms by (auto simp: sim_main_def Let_def split: sum.splits if_splits)
  then show "sim_client s" by (simp add: sim_connect_def)
  from s show step: "sim_step\<^sup>*\<^sup>* (newSimulator (sim_siteID s) (sim_keys s)) s"
    using sim_step.connect [of "newSimulator site keys"] by (simp add: sim_connect_def newSimulator_def r_into_rtranclp)
  show "sim_inv s" using sim.inv_steps [OF step sim_inv_new] .
qed

text \<open>A turn of the loop moves the battery by one step.\<close>

lemma loop_battery:
  "sim_soc (snd (sim_loop env math_Sin z clk (Suc k) st)) = sim_soc (snd (batteryTelemetry (snd (sim_loop env math_Sin z clk k st))))"
  "sim_batteryMode (snd (sim_loop env math_Sin z clk (Suc k) st)) =
    sim_batteryMode (snd (batteryTelemetry (snd (sim_loop env math_Sin z clk k st))))"
  by (simp_all add: split_beta round_battery)

lemma idle_stays:
  assumes "sim_batteryMode s = ''idle'' \<and> sim_soc s = Fin q" "q = soc_hi \<or> q = soc_lo"
  shows "sim_batteryMode (snd (batteryTelemetry s)) = ''idle'' \<and> sim_soc (snd (batteryTelemetry s)) = Fin q"
  using battery_Fin(3) [of s q] assms unfolding soc_limits_Fin by auto

lemma charge_phase:
  assumes "sim_batteryMode s = ''charging''" "sim_soc s = Fin q" "soc_lo \<le> q" "q \<le> soc_hi"
  shows "let run = \<lambda>k. snd (sim_loop env math_Sin z clk k (seq, s)) in
    \<exists>n \<le> 161. (\<forall>k < n. sim_batteryMode (run k) = ''charging'') \<and>
      (\<forall>k \<ge> n. sim_batteryMode (run k) = ''idle'' \<and> sim_soc (run k) = Fin soc_hi)"
proof -
  let ?s = "\<lambda>k. snd (sim_loop env math_Sin z clk k (seq, s))"
  let ?P = "\<lambda>k. sim_batteryMode (?s k) = ''charging'' \<and>
    (\<exists>r. sim_soc (?s k) = Fin r \<and> soc_lo \<le> r \<and> r \<le> soc_hi \<and> of_int (157286 + int k * 5242) / 2 ^ 20 \<le> r)"
  have "\<exists>n \<le> 161. (\<forall>k < n. ?P k) \<and> (\<forall>k \<ge> n. sim_batteryMode (?s k) = ''idle'' \<and> sim_soc (?s k) = Fin soc_hi)"
  proof (rule phase_ends)
    show "?P 0" using assms by simp
  next
    fix k assume "?P k"
    then obtain r where r: "sim_batteryMode (?s k) = ''charging''" "sim_soc (?s k) = Fin r"
      "of_int (157286 + int k * 5242) / 2 ^ 20 \<le> r" "r \<le> soc_hi" by blast
    show "?P (Suc k) \<or> sim_batteryMode (?s (Suc k)) = ''idle'' \<and> sim_soc (?s (Suc k)) = Fin soc_hi"
      using charge_once [OF r] unfolding loop_battery Let_def by (simp add: algebra_simps del: sim_loop.simps) blast
  next
    fix k assume "sim_batteryMode (?s k) = ''idle'' \<and> sim_soc (?s k) = Fin soc_hi"
    then show "sim_batteryMode (?s (Suc k)) = ''idle'' \<and> sim_soc (?s (Suc k)) = Fin soc_hi"
      unfolding loop_battery using idle_stays by blast
  next
    show "\<not> ?P 161" by auto
  qed
  then show ?thesis unfolding Let_def by blast
qed

lemma discharge_phase:
  assumes "sim_batteryMode s = ''discharging''" "sim_soc s = Fin q" "soc_lo \<le> q" "q \<le> soc_hi"
  shows "let run = \<lambda>k. snd (sim_loop env math_Sin z clk k (seq, s)) in
    \<exists>n \<le> 161. (\<forall>k < n. sim_batteryMode (run k) = ''discharging'') \<and>
      (\<forall>k \<ge> n. sim_batteryMode (run k) = ''idle'' \<and> sim_soc (run k) = Fin soc_lo)"
proof -
  let ?s = "\<lambda>k. snd (sim_loop env math_Sin z clk k (seq, s))"
  let ?P = "\<lambda>k. sim_batteryMode (?s k) = ''discharging'' \<and>
    (\<exists>r. sim_soc (?s k) = Fin r \<and> soc_lo \<le> r \<and> r \<le> soc_hi \<and> r \<le> of_int (996148 - int k * 5242) / 2 ^ 20)"
  have "\<exists>n \<le> 161. (\<forall>k < n. ?P k) \<and> (\<forall>k \<ge> n. sim_batteryMode (?s k) = ''idle'' \<and> sim_soc (?s k) = Fin soc_lo)"
  proof (rule phase_ends)
    show "?P 0" using assms by simp
  next
    fix k assume "?P k"
    then obtain r where r: "sim_batteryMode (?s k) = ''discharging''" "sim_soc (?s k) = Fin r"
      "r \<le> of_int (996148 - int k * 5242) / 2 ^ 20" "soc_lo \<le> r" by blast
    show "?P (Suc k) \<or> sim_batteryMode (?s (Suc k)) = ''idle'' \<and> sim_soc (?s (Suc k)) = Fin soc_lo"
      using discharge_once [OF r] unfolding loop_battery Let_def by (simp add: algebra_simps del: sim_loop.simps) blast
  next
    fix k assume "sim_batteryMode (?s k) = ''idle'' \<and> sim_soc (?s k) = Fin soc_lo"
    then show "sim_batteryMode (?s (Suc k)) = ''idle'' \<and> sim_soc (?s (Suc k)) = Fin soc_lo"
      unfolding loop_battery using idle_stays by blast
  next
    show "\<not> ?P 161" by auto
  qed
  then show ?thesis unfolding Let_def by blast
qed

section \<open>The way of a command and back\<close>

text \<open>What an action that is answered without error has done.\<close>

definition carried_out :: "Parsed \<Rightarrow> Command \<Rightarrow> simulator \<Rightarrow> bool" where
  "carried_out parsed cmd s' \<longleftrightarrow>
     c_Action cmd = ''set_relay'' \<and> tp_DeviceType parsed = DeviceLoad \<and>
       gmap_get (c_Params cmd) ''on'' = Some (GBool (relayOn s' (tp_DeviceID parsed))) \<or>
     c_Action cmd = ''set_mode'' \<and> tp_DeviceType parsed = DeviceBattery \<and>
       gmap_get (c_Params cmd) ''mode'' = Some (GStr (sim_batteryMode s')) \<and> sim_batteryMode s' \<in> battery_modes"

lemma boolParam_Some: "boolParam ps k = Some b \<longleftrightarrow> gmap_get ps k = Some (GBool b)"
  by (auto simp: boolParam_def split: option.split gany.split)

lemma stringParam_Some: "stringParam ps k = Some v \<longleftrightarrow> gmap_get ps k = Some (GStr v)"
  by (auto simp: stringParam_def split: option.split gany.split)

lemma apply_action_result:
  assumes "apply_action parsed cmd s = (err, s')"
  shows "if err = None then carried_out parsed cmd s' else s' = s"
    and "sim_siteID s' = sim_siteID s" "sim_keys s' = sim_keys s" "sim_client s' = sim_client s" "sim_out s' = sim_out s"
    and "sim_soc s' = sim_soc s"
  using assms
  by (auto simp: apply_action_def carried_out_def relayOn_def boolParam_Some stringParam_Some split: if_splits option.splits)

text \<open>
  The answer \<open>p\<close> of the simulator to the platform: both without keys, or with the same key of the
  device, a codec that reads back what is signed, and clocks that agree up to the allowed skew.
\<close>

definition answer_travels ::
  "SimEnv \<Rightarrow> time \<Rightarrow> time \<Rightarrow> Keys \<Rightarrow> Keys \<Rightarrow> duration \<Rightarrow> string \<Rightarrow> string \<Rightarrow> string \<Rightarrow> string \<Rightarrow> bool" where
  "answer_travels env signedAt arrived simKeys keys maxSkew topic dev answer p \<longleftrightarrow>
     simKeys = Map.empty \<and> keys = Map.empty \<and> p = answer \<or>
     (\<exists>secret. simKeys dev = Some secret \<and> keys dev = Some secret \<and> time_unix_sec signedAt \<noteq> 0 \<and>
        \<bar>arrived - time_Unix (time_unix_sec signedAt)\<bar> \<le> maxSkew \<and>
        codec_signs (me_decode (se_mqtt env)) (me_encode (se_mqtt env)) (me_decode_auth (se_mqtt env)) (me_mac (se_mqtt env))
          topic secret signedAt answer p)"

lemma answer_verified:
  assumes "answer_travels env signedAt arrived simKeys keys maxSkew topic dev answer p"
  shows "signPayload env signedAt topic dev answer simKeys = p"
    and "VerifyPayload (me_decode (se_mqtt env)) (me_encode (se_mqtt env)) (me_decode_auth (se_mqtt env)) (me_mac (se_mqtt env))
      topic dev p keys arrived maxSkew = None"
proof -
  from assms consider "simKeys = Map.empty" "keys = Map.empty" "p = answer"
    | secret where "simKeys dev = Some secret" "keys dev = Some secret" "time_unix_sec signedAt \<noteq> 0"
      "\<bar>arrived - time_Unix (time_unix_sec signedAt)\<bar> \<le> maxSkew"
      "codec_signs (me_decode (se_mqtt env)) (me_encode (se_mqtt env)) (me_decode_auth (se_mqtt env)) (me_mac (se_mqtt env))
         topic secret signedAt answer p"
    unfolding answer_travels_def by blast
  then have "signPayload env signedAt topic dev answer simKeys = p \<and>
    VerifyPayload (me_decode (se_mqtt env)) (me_encode (se_mqtt env)) (me_decode_auth (se_mqtt env)) (me_mac (se_mqtt env))
      topic dev p keys arrived maxSkew = None"
  proof cases
    case 1
    then show ?thesis by (simp add: signPayload_def VerifyPayload_def keys_Enabled_def)
  next
    case (2 secret)
    from sign_verify [where keys = keys and deviceID = dev, OF 2(5,3,2,4)] 2(1) show ?thesis by (simp add: signPayload_def keys_Enabled_Some)
  qed
  then show "signPayload env signedAt topic dev answer simKeys = p"
    "VerifyPayload (me_decode (se_mqtt env)) (me_encode (se_mqtt env)) (me_decode_auth (se_mqtt env)) (me_mac (se_mqtt env))
      topic dev p keys arrived maxSkew = None" by simp_all
qed

lemma handleCommand_answers:
  assumes "slash_free site" "slash_free ty" "slash_free i" "se_command env payload = Some cmd"
    and "sim_client s" "sim_siteID s = site"
    and "apply_action \<lparr>tp_SiteID = site, tp_DeviceType = ty, tp_DeviceID = i, tp_Kind = ''command''\<rparr> cmd s = (err, s1)"
    and "se_marshal_ack env (sim_ack cmd (clk 0) err) = Some answer"
    and "signPayload env (clk 1) (topic_Command site ty i @ ''/ack'') i answer (sim_keys s) = p"
  shows "sim_handleCommand env clk (topic_Command site ty i) payload s =
    Some (sim_publish (topic_Command site ty i @ ''/ack'') p s1)"
proof -
  have "topic_Parse (topic_Command site ty i) = Some \<lparr>tp_SiteID = site, tp_DeviceType = ty, tp_DeviceID = i, tp_Kind = ''command''\<rparr>"
    using topic_Parse_kind [OF assms(1-3), of "''command''"] by (simp add: topic_Command_def)
  then show ?thesis
    using assms apply_action_result [OF assms(7)]
    by (simp add: sim_handleCommand_def or_empty_def) (simp add: topic_Command_def)
qed

section \<open>Properties\<close>

text \<open>
  C30. The simulated battery stays within its limits: after any sequence of connections, messages of
  any content and turns of the loop, the state of charge is a float between 0.15 and 0.95, the
  mode is one of idle, charging and discharging, and both relays have a position.
\<close>
theorem simulator_invariant:
  assumes "sim_step\<^sup>*\<^sup>* (newSimulator siteID keys) s"
  shows "is_f64 (sim_soc s) \<and> f_le (f_lit (15/100)) (sim_soc s) \<and> f_le (sim_soc s) (f_lit (95/100)) \<and>
    sim_batteryMode s \<in> {''idle'', ''charging'', ''discharging''} \<and> {''load_01'', ''load_02''} \<subseteq> dom (sim_relays s)"
  using sim.inv_steps [OF assms sim_inv_new] by (simp add: sim_inv_def)

text \<open>
  C29. Charging and discharging end: from any state within the limits, a battery in one of these
  modes that gets no other command is idle after at most 161 turns of the loop (about five
  minutes), at the upper or lower limit, and stays there; until then it keeps the mode.
\<close>
theorem battery_mode_ends:
  assumes "sim_inv s" "sim_batteryMode s \<in> {''charging'', ''discharging''}"
  shows "\<exists>n \<le> 161. (\<forall>k < n. sim_batteryMode (snd (sim_loop env math_Sin z clk k (seq, s))) = sim_batteryMode s) \<and>
    (\<forall>k \<ge> n. sim_batteryMode (snd (sim_loop env math_Sin z clk k (seq, s))) = ''idle'' \<and>
       sim_soc (snd (sim_loop env math_Sin z clk k (seq, s))) =
         (if sim_batteryMode s = ''charging'' then f_lit (95/100) else f_lit (15/100)))"
proof -
  obtain q where q: "sim_soc s = Fin q" "soc_lo \<le> q" "q \<le> soc_hi"
    using assms(1) soc_range [of "sim_soc s"] by (auto simp: sim_inv_def)
  consider "sim_batteryMode s = ''charging''" | "sim_batteryMode s = ''discharging''" using assms(2) by blast
  then show ?thesis
  proof cases
    case 1
    with charge_phase [OF 1 q, of env math_Sin z clk seq] show ?thesis unfolding soc_literals Let_def by simp
  next
    case 2
    with discharge_phase [OF 2 q, of env math_Sin z clk seq] show ?thesis unfolding soc_literals Let_def by simp
  qed
qed

text \<open>
  C5. The history tells the truth about the device: a command the platform publishes reaches the
  simulator, which answers exactly once on the device's acknowledgement topic, and the platform,
  on receiving the answer, turns its newest record to acked or failed with that answer. Acked means
  the relay has the position or the battery the mode that the command asked for; failed means
  that the devices are as before, and the record shows the simulator's error. This holds without
  device keys and with the same key on both sides.
\<close>
theorem command_closes_loop:
  assumes "slash_free site" "slash_free (d_Type d)" "slash_free (d_ID d)"
    and "PublishCommand (se_mqtt env) broker now site d cmd c = (c1, None)"
    and "me_marshal_command (se_mqtt env) cmd = Some payload" "se_command env payload = Some cmd"
    and "sim_client s" "sim_siteID s = site"
    and "apply_action \<lparr>tp_SiteID = site, tp_DeviceType = d_Type d, tp_DeviceID = d_ID d, tp_Kind = ''command''\<rparr> cmd s = (err, s1)"
    and "se_marshal_ack env (sim_ack cmd (sclk 0) err) = Some answer" "me_ack (se_mqtt env) p = Some (sim_ack cmd (sclk 0) err)"
    and "answer_travels env (sclk 1) (clk 0) (sim_keys s) (mc_keys c1) (mc_maxSkew c1)
           (topic_Command site (d_Type d) (d_ID d) @ ''/ack'') (d_ID d) answer p"
  shows "\<exists>s'. sim_handleCommand env sclk (topic_Command site (d_Type d) (d_ID d)) payload s = Some s' \<and>
    sim_out s' = sim_out s @ [(topic_Command site (d_Type d) (d_ID d) @ ''/ack'', p)] \<and>
    (if err = None then
       c_Action cmd = ''set_relay'' \<and> d_Type d = DeviceLoad \<and> gmap_get (c_Params cmd) ''on'' = Some (GBool (relayOn s' (d_ID d))) \<or>
       c_Action cmd = ''set_mode'' \<and> d_Type d = DeviceBattery \<and> gmap_get (c_Params cmd) ''mode'' = Some (GStr (sim_batteryMode s'))
     else sim_relays s' = sim_relays s \<and> sim_batteryMode s' = sim_batteryMode s) \<and>
    Commands (mc_store (handleMessage (se_mqtt env) ok ks clk (topic_Command site (d_Type d) (d_ID d) @ ''/ack'') p c1)) =
      \<lparr>r_SiteID = site, r_DeviceID = d_ID d, r_DeviceType = d_Type d, r_Command = cmd,
       r_Status = (if err = None then ''acked'' else ''failed''), r_Ack = Some (sim_ack cmd (sclk 0) err), r_UpdatedAt = clk 1\<rparr>
      # take 199 (Commands (mc_store c))"
proof (intro exI conjI)
  let ?t = "topic_Command site (d_Type d) (d_ID d) @ ''/ack''"
  note v = answer_verified [OF assms(12)]
  show "sim_handleCommand env sclk (topic_Command site (d_Type d) (d_ID d)) payload s = Some (sim_publish ?t p s1)"
    using handleCommand_answers [where clk = sclk, OF assms(1-3,6-10) v(1)] .
  show "sim_out (sim_publish ?t p s1) = sim_out s @ [(?t, p)]"
    using apply_action_result(5) [OF assms(9)] by (simp add: sim_publish_def)
  show "if err = None then
       c_Action cmd = ''set_relay'' \<and> d_Type d = DeviceLoad \<and>
         gmap_get (c_Params cmd) ''on'' = Some (GBool (relayOn (sim_publish ?t p s1) (d_ID d))) \<or>
       c_Action cmd = ''set_mode'' \<and> d_Type d = DeviceBattery \<and>
         gmap_get (c_Params cmd) ''mode'' = Some (GStr (sim_batteryMode (sim_publish ?t p s1)))
     else sim_relays (sim_publish ?t p s1) = sim_relays s \<and> sim_batteryMode (sim_publish ?t p s1) = sim_batteryMode s"
    using apply_action_result(1) [OF assms(9)] by (auto simp: carried_out_def relayOn_def split: if_splits)
  have "accepted_ack (se_mqtt env) clk c1 ?t p (d_ID d) (sim_ack cmd (sclk 0) err)"
    using v(2) assms(11) by (simp add: accepted_ack_def)
  from PublishCommand_ack [OF assms(1-4) this] show "Commands (mc_store (handleMessage (se_mqtt env) ok ks clk ?t p c1)) =
      \<lparr>r_SiteID = site, r_DeviceID = d_ID d, r_DeviceType = d_Type d, r_Command = cmd,
       r_Status = (if err = None then ''acked'' else ''failed''), r_Ack = Some (sim_ack cmd (sclk 0) err), r_UpdatedAt = clk 1\<rparr>
      # take 199 (Commands (mc_store c))"
    by (simp add: sim_ack_def)
qed

text \<open>
  A command that arrives before \<open>main\<close> has set the client ends the simulator: the handler publishes
  its answer on a client that is nil, without the check that \<open>publishBatterySOCEvent\<close> makes.
\<close>

theorem command_before_connect_panics:
  assumes "slash_free site" "slash_free ty" "slash_free i" "se_command env payload = Some cmd"
  shows "sim_handleCommand env clk (topic_Command site ty i) payload (newSimulator site' keys) = None"
proof -
  have "topic_Parse (topic_Command site ty i) = Some \<lparr>tp_SiteID = site, tp_DeviceType = ty, tp_DeviceID = i, tp_Kind = ''command''\<rparr>"
    using topic_Parse_kind [OF assms(1-3), of "''command''"] by (simp add: topic_Command_def)
  moreover have "\<not> sim_client (snd (apply_action parsed cmd (newSimulator site' keys)))" for parsed
    using apply_action_result(4) [of parsed cmd "newSimulator site' keys"]
    by (cases "apply_action parsed cmd (newSimulator site' keys)") (simp add: newSimulator_def)
  ultimately show ?thesis using assms(4) by (simp add: sim_handleCommand_def split_beta)
qed

section \<open>Witnesses\<close>

definition sx_cmd :: Command where
  "sx_cmd = ex_cmd\<lparr>c_Params := Some [(''mode'', GStr ''charging'')]\<rparr>"

definition sx_env :: SimEnv where
  "sx_env = \<lparr>se_mqtt = ex_env, se_command = (\<lambda>_. Some sx_cmd), se_marshal_ack = (\<lambda>_. Some ''a''), se_marshal_event = (\<lambda>_. None)\<rparr>"

theorem simulator_invariant_witness:
  "sim_batteryMode (snd (sim_round sx_env (\<lambda>x. x) (\<lambda>_. 0) (\<lambda>_. 5) 0 (sim_connect (newSimulator ''s1'' Map.empty)))) \<in> battery_modes"
proof -
  have "sim_step\<^sup>*\<^sup>* (newSimulator ''s1'' Map.empty)
      (snd (sim_round sx_env (\<lambda>x. x) (\<lambda>_. 0) (\<lambda>_. 5) 0 (sim_connect (newSimulator ''s1'' Map.empty))))"
    by (meson connect round converse_rtranclp_into_rtranclp r_into_rtranclp)
  from simulator_invariant [OF this] show ?thesis by simp
qed

theorem battery_mode_ends_witness:
  "\<exists>n \<le> 161. sim_batteryMode (snd (sim_loop sx_env (\<lambda>x. x) (\<lambda>_. 0) (\<lambda>_ _. 5) n
     (0, (newSimulator ''s1'' Map.empty)\<lparr>sim_batteryMode := ''charging''\<rparr>))) = ''idle''"
proof -
  have "sim_inv ((newSimulator ''s1'' Map.empty)\<lparr>sim_batteryMode := ''charging''\<rparr>)"
    using sim_inv_new [of "''s1''" Map.empty] by (simp add: sim_inv_def)
  from battery_mode_ends [OF this, of sx_env "\<lambda>x. x" "\<lambda>_. 0" "\<lambda>_ _. 5" 0] show ?thesis by force
qed

theorem command_closes_loop_witness:
  "\<exists>c1 s'. PublishCommand ex_env (\<lambda>_ _. None) 5 ''s1'' ex_dev sx_cmd ex_client = (c1, None) \<and>
     sim_handleCommand sx_env (\<lambda>_. time_Unix 2) (topic_Command ''s1'' ''battery'' ''b1'') ''c''
       (sim_connect (newSimulator ''s1'' Map.empty)) = Some s' \<and> sim_batteryMode s' = ''charging'' \<and>
     map r_Status (Commands (mc_store (handleMessage ex_env True [] (\<lambda>_. 7)
       (topic_Command ''s1'' ''battery'' ''b1'' @ ''/ack'') ''a'' c1))) = [''acked'']"
proof -
  obtain c1 where c1: "PublishCommand ex_env (\<lambda>_ _. None) 5 ''s1'' ex_dev sx_cmd ex_client = (c1, None)"
    by (simp add: PublishCommand_def ex_env_def)
  then have k: "mc_keys c1 = Map.empty"
    by (auto simp: PublishCommand_def record_issued_def ex_env_def ex_client_def NewClient_def Let_def)
  let ?s = "sim_connect (newSimulator ''s1'' Map.empty)"
  obtain s1 where s1: "apply_action \<lparr>tp_SiteID = ''s1'', tp_DeviceType = d_Type ex_dev, tp_DeviceID = d_ID ex_dev, tp_Kind = ''command''\<rparr>
      sx_cmd ?s = (None, s1)"
    by (simp add: apply_action_def sx_cmd_def ex_cmd_def stringParam_def gmap_get_def DeviceBattery_def)
  have ack: "sim_ack sx_cmd (time_Unix 2) None = \<lparr>a_CommandID = ''b1-1'', a_OK = True, a_Error = [], a_Timestamp = 2\<rparr>"
    by (simp add: sim_ack_def sx_cmd_def ex_cmd_def or_empty_def time_unix_sec_def time_Unix_def wrap64_def)
  have "answer_travels sx_env (time_Unix 2) 7 (sim_keys ?s) (mc_keys c1) (mc_maxSkew c1) t i ''a'' ''a''" for t i
    by (simp add: answer_travels_def k sim_connect_def newSimulator_def)
  note travels = this
  have env: "se_mqtt sx_env = ex_env" "se_command sx_env ''c'' = Some sx_cmd" "se_marshal_ack sx_env a = Some ''a''"
    "me_marshal_command ex_env cmd = Some ''c''"
    "me_ack ex_env q = Some (sim_ack sx_cmd (time_Unix 2) None)" for a cmd q
    by (simp_all only: ack sx_env_def ex_env_def SimEnv.simps MqttEnv.simps)
  have sim: "sim_client ?s" "sim_siteID ?s = ''s1''" by (simp_all add: sim_connect_def newSimulator_def)
  have names: "slash_free ''s1''" "slash_free (d_Type ex_dev)" "slash_free (d_ID ex_dev)" by simp_all
  have old: "Commands (mc_store ex_client) = []" by (simp add: ex_client_def NewClient_def NewStore_def Commands_def)
  have mode: "gmap_get (c_Params sx_cmd) ''mode'' = Some (GStr ''charging'')" "c_Action sx_cmd = ''set_mode''"
    by (simp_all add: sx_cmd_def ex_cmd_def gmap_get_def)
  from command_closes_loop [where sclk = "\<lambda>_. time_Unix 2" and clk = "\<lambda>_. 7" and s = ?s and payload = "''c''"
      and env = sx_env and ok = True and ks = "[]", unfolded env, OF names c1 refl refl sim s1 refl refl travels [unfolded env]]
  obtain s' where "sim_handleCommand sx_env (\<lambda>_. time_Unix 2) (topic_Command ''s1'' ''battery'' ''b1'') ''c'' ?s = Some s'"
    "sim_batteryMode s' = ''charging''"
    "map r_Status (Commands (mc_store (handleMessage ex_env True [] (\<lambda>_. 7) (topic_Command ''s1'' ''battery'' ''b1'' @ ''/ack'') ''a'' c1))) = [''acked'']"
    using mode old by auto
  with c1 show ?thesis by (intro exI conjI)
qed

end
