(* ===== verification/Platform.thy ===== *)
theory Platform
  imports Api_Server Platform_Config
begin

text \<open>
  cmd/vpp-lab/main.go: the platform process. Start-up reads the settings, opens the state store and
  the database, fills the store, connects to the broker and builds the scheduler and the API server
  over the same client. From then on three kinds of events change the process, in any order: an MQTT
  message, an HTTP request and a tick of the scheduler. The state is the \<open>Server\<close> of the API, which
  reaches everything the process holds. Each event is atomic: the components lock their own state,
  and no event depends on a value it read before another event changed it, except as said in the
  findings.

  Contents: start-up; events; what an event can add to the client's log; the invariant; properties.
\<close>

section \<open>Start-up\<close>

definition newStateStore ::
  "(string \<Rightarrow> Telemetry option) \<Rightarrow> bool \<Rightarrow> bool \<Rightarrow> string list \<Rightarrow> redis_db \<Rightarrow> PlatformConfig \<Rightarrow> Store option" where
  "newStateStore unmarshal ping_ok load_ok ks db cfg =
     (if cf_RedisAddr cfg = [] then Some NewStore
      else NewRedisStore unmarshal ping_ok load_ok ks (cf_SiteID cfg) db)"

definition healthChecks ::
  "bool \<Rightarrow> string option \<Rightarrow> string option \<Rightarrow> Server \<Rightarrow> (string \<times> string option option) list" where
  "healthChecks mqtt_up pg_answer redis_answer sv =
     [(''mqtt'', Some (client_Healthy mqtt_up)), (''postgres'', Some (repo_Ping pg_answer (sv_repo sv))),
      (''state'', Some (store_Ping redis_answer (sv_store sv)))]"

definition seed_devices :: "string \<Rightarrow> Device list" where
  "seed_devices siteID =
     [zero_Device\<lparr>d_ID := ''pv_01'', d_SiteID := siteID, d_Type := DevicePV, d_Name := ''PV Simulator'', d_RatedPowerW := Fin 100\<rparr>,
      zero_Device\<lparr>d_ID := ''battery_01'', d_SiteID := siteID, d_Type := DeviceBattery, d_Name := ''Battery Pack'',
        d_RatedPowerW := Fin 80, d_CapacityWh := Fin 150\<rparr>,
      zero_Device\<lparr>d_ID := ''load_01'', d_SiteID := siteID, d_Type := DeviceLoad, d_Name := ''Critical Load'',
        d_RatedPowerW := Fin 40, d_CriticalLoad := True\<rparr>,
      zero_Device\<lparr>d_ID := ''load_02'', d_SiteID := siteID, d_Type := DeviceLoad, d_Name := ''Flexible Load'',
        d_RatedPowerW := Fin 60, d_CriticalLoad := False\<rparr>]"

text \<open>
  The loops of \<open>loadOrSeedDevices\<close>: \<open>out n\<close> is whether the statement for device \<open>n\<close> succeeds and the
  clock, \<open>clk n\<close> the clock of the store.
\<close>

fun upsert_all :: "(nat \<Rightarrow> bool \<times> time) \<Rightarrow> nat \<Rightarrow> Device list \<Rightarrow> DeviceRepository \<Rightarrow> DeviceRepository \<times> bool" where
  "upsert_all out n [] r = (r, True)"
| "upsert_all out n (d # ds) r =
     (case repo_Upsert (fst (out n)) (snd (out n)) d r of
        (r', ok) \<Rightarrow> if \<not> ok then (r', False) else upsert_all out (Suc n) ds r')"

fun store_all :: "(nat \<Rightarrow> time) \<Rightarrow> nat \<Rightarrow> Device list \<Rightarrow> Store \<Rightarrow> Store" where
  "store_all clk n [] s = s"
| "store_all clk n (d # ds) s = store_all clk (Suc n) ds (UpsertDevice (clk n) s d)"

definition loadOrSeedDevices ::
  "(string \<Rightarrow> string) \<Rightarrow> bool \<Rightarrow> (string \<times> string) list \<Rightarrow> (nat \<Rightarrow> bool \<times> time) \<Rightarrow> (nat \<Rightarrow> time) \<Rightarrow> string \<Rightarrow>
   DeviceRepository \<Rightarrow> Store \<Rightarrow> DeviceRepository \<times> Store option"
where
  "loadOrSeedDevices coll list_ok ks out clk siteID r s =
     (case repo_List coll list_ok ks r of
        None \<Rightarrow> (r, None)
      | Some ds \<Rightarrow>
          if ds = [] then
            (case upsert_all out 0 (seed_devices siteID) r of
               (r', ok) \<Rightarrow> (r', if ok then Some (store_all clk 0 (seed_devices siteID) s) else None))
          else (r, Some (store_all clk 0 ds s)))"

text \<open>What the outside answers during the start.\<close>

record StartEnv =
  su_unmarshal_tele :: "string \<Rightarrow> Telemetry option"
  su_redis :: redis_db
  su_redis_ok :: "bool \<times> bool"
  su_redis_order :: "string list"
  su_db :: "DeviceRepository option"
  su_db_ok :: "bool \<times> bool"
  su_coll :: "string \<Rightarrow> string"
  su_devices :: "bool \<times> (string \<times> string) list"
  su_upserts :: "nat \<Rightarrow> bool \<times> time"
  su_clk :: "nat \<Rightarrow> time"
  su_unmarshal :: "string \<Rightarrow> gmap"
  su_commands :: "bool \<times> string list"
  su_events :: "bool \<times> string list"
  su_tls :: "string + unit TLSConfig option"
  su_broker :: "string option"

definition platform_policy :: "PlatformConfig \<Rightarrow> Policy" where
  "platform_policy cfg =
     \<lparr>p_BatteryMinSOC = cf_BatteryMinSOC cfg, p_BatteryMaxSOC = cf_BatteryMaxSOC cfg, p_LoadShedThreshold = cf_LoadShedThreshold cfg\<rparr>"

text \<open>\<open>main\<close> up to the point where it serves; \<open>Inl\<close> is the step whose error ends the process.\<close>

definition platform_main :: "PlatformConfig \<Rightarrow> StartEnv \<Rightarrow> string + Server" where
  "platform_main cfg su =
     (case newStateStore (su_unmarshal_tele su) (fst (su_redis_ok su)) (snd (su_redis_ok su)) (su_redis_order su) (su_redis su) cfg of
        None \<Rightarrow> Inl ''init state store''
      | Some s0 \<Rightarrow>
     (case NewDeviceRepository (fst (su_db_ok su)) (snd (su_db_ok su)) (su_db su) of
        None \<Rightarrow> Inl ''init postgres''
      | Some r0 \<Rightarrow>
     (case loadOrSeedDevices (su_coll su) (fst (su_devices su)) (snd (su_devices su)) (su_upserts su) (su_clk su) (cf_SiteID cfg) r0 s0 of
        (r1, None) \<Rightarrow> Inl ''load devices''
      | (r1, Some s1) \<Rightarrow>
     (case loadRecentCommands (su_unmarshal su) (fst (su_commands su)) (snd (su_commands su)) r1 s1 of
        None \<Rightarrow> Inl ''load commands''
      | Some s2 \<Rightarrow>
     (case loadRecentEvents (su_unmarshal su) (fst (su_events su)) (snd (su_events su)) r1 s2 of
        None \<Rightarrow> Inl ''load events''
      | Some s3 \<Rightarrow>
     (case client_Connect (cf_DeviceKeys cfg) (su_tls su) (su_broker su)
             (WithCommandRecorder (NewClient (cf_DeviceAuthMaxSkew cfg) s3 (su_redis su) True)) of
        (c, Some err) \<Rightarrow> Inl ''connect mqtt''
      | (c, None) \<Rightarrow>
          Inr (WithAuditRecorder (WithControlToken (cf_ControlToken cfg)
            (api_New (cf_SiteID cfg) c (scheduler_New (cf_SiteID cfg) (platform_policy cfg)) r1 True)))))))))"

section \<open>Events\<close>

text \<open>A message: the handler of the client, with the recorder's calls applied to the database.\<close>

definition platform_message ::
  "MqttEnv \<Rightarrow> bool \<Rightarrow> string list \<Rightarrow> (nat \<Rightarrow> time) \<Rightarrow> string \<Rightarrow> string \<Rightarrow> (string \<Rightarrow> string) \<Rightarrow> (nat \<Rightarrow> bool \<times> time) \<Rightarrow> Server \<Rightarrow> Server"
where
  "platform_message env redis_ok ks clk topic payload jsonb out sv =
     (let c = handleMessage env redis_ok ks clk topic payload (sv_client sv) in
      sv\<lparr>sv_client := c,
         sv_repo := replay jsonb out 0 (drop (length (mc_effects (sv_client sv))) (mc_effects c)) (sv_repo sv)\<rparr>)"

text \<open>
  A tick: the scheduler's commander is the MQTT client. Its answer does not depend on the client's
  state, so the tick runs first and the accepted commands are then filed in the order of the calls;
  nothing in a tick reads the command history.
\<close>

definition pub_answer :: "ApiEnv \<Rightarrow> Client \<Rightarrow> Commander" where
  "pub_answer env c n siteID d cmd =
     map_option (publish_text env) (snd (PublishCommand (ae_mqtt env) (ae_broker env) 0 siteID d cmd c))"

fun file_calls :: "ApiEnv \<Rightarrow> (nat \<Rightarrow> bool \<times> time) \<Rightarrow> (nat \<Rightarrow> time) \<Rightarrow> string \<Rightarrow> nat \<Rightarrow> PublishCall list \<Rightarrow> Server \<Rightarrow> Server" where
  "file_calls env db now siteID n [] sv = sv"
| "file_calls env db now siteID n (c # cs) sv =
     file_calls env db now siteID (Suc n) cs
       (fst (api_publish (env\<lparr>ae_db_ok := \<lambda>_. fst (db n), ae_dbnow := snd (db n)\<rparr>) (now n) siteID (pc_Device c) (pc_Command c) sv))"

definition tick_run :: "ApiEnv \<Rightarrow> string list \<times> string list \<times> string list \<Rightarrow> Server \<Rightarrow> SchedRun" where
  "tick_run env orders sv =
     Tick (ae_clk env) (pub_answer env (sv_client sv)) orders (sv_store sv) \<lparr>run_sched = sv_sched sv, run_clk = 0, run_log = []\<rparr>"

definition platform_tick ::
  "ApiEnv \<Rightarrow> string list \<times> string list \<times> string list \<Rightarrow> (nat \<Rightarrow> bool \<times> time) \<Rightarrow> (nat \<Rightarrow> time) \<Rightarrow> Server \<Rightarrow> Server"
where
  "platform_tick env orders db now sv =
     (let r = tick_run env orders sv in
      file_calls env db now (sc_siteID (sv_sched sv)) 0 (run_log r) (sv\<lparr>sv_sched := run_sched r\<rparr>))"

datatype platform_event =
    PMessage MqttEnv bool "string list" "nat \<Rightarrow> time" string string "string \<Rightarrow> string" "nat \<Rightarrow> bool \<times> time"
  | PRequest ApiEnv HttpRequest bool "string option" "string option"
  | PTick ApiEnv "string list \<times> string list \<times> string list" "nat \<Rightarrow> bool \<times> time" "nat \<Rightarrow> time"

fun platform_exec :: "platform_event \<Rightarrow> Server \<Rightarrow> Server" where
  "platform_exec (PMessage env ok ks clk topic payload jsonb out) sv = platform_message env ok ks clk topic payload jsonb out sv"
| "platform_exec (PRequest env r up pg redis) sv = (case serve (env\<lparr>ae_checks := healthChecks up pg redis sv\<rparr>) r sv of (_, _, sv') \<Rightarrow> sv')"
| "platform_exec (PTick env orders db now) sv = platform_tick env orders db now sv"

inductive platform_step :: "Server \<Rightarrow> Server \<Rightarrow> bool" where
  exec: "platform_step sv (platform_exec ev sv)"

section \<open>What an event adds to the log\<close>

lemma handleMessage_log:
  "\<exists>new. mc_effects (handleMessage env ok ks clk topic payload c) = mc_effects c @ new \<and>
     (\<forall>site d cmd. RecordIssued site d cmd \<notin> set new)"
  by (auto simp: handleMessage_def handle_telemetry_def handle_ack_def handle_event_def incrementRejected_def Let_def
      split: option.split prod.split)

lemma api_publish_log:
  "mc_effects (sv_client (fst (api_publish env now siteID d cmd sv))) = mc_effects (sv_client sv) @
     (if snd (api_publish env now siteID d cmd sv) = None \<and> mc_recorder (sv_client sv) then [RecordIssued siteID d cmd] else [])"
  by (auto simp: api_publish_def PublishCommand_def record_issued_def Let_def split: option.split prod.split)

lemma file_calls_log:
  "\<exists>new. mc_effects (sv_client (file_calls env db now siteID n cs sv)) = mc_effects (sv_client sv) @ new \<and>
     (\<forall>e \<in> set new. \<exists>c \<in> set cs. e = RecordIssued siteID (pc_Device c) (pc_Command c))"
proof (induction cs arbitrary: n sv)
  case (Cons c cs)
  let ?env = "env\<lparr>ae_db_ok := \<lambda>_. fst (db n), ae_dbnow := snd (db n)\<rparr>"
  let ?sv = "fst (api_publish ?env (now n) siteID (pc_Device c) (pc_Command c) sv)"
  obtain new where new: "mc_effects (sv_client (file_calls env db now siteID (Suc n) cs ?sv)) = mc_effects (sv_client ?sv) @ new"
    "\<forall>e \<in> set new. \<exists>c \<in> set cs. e = RecordIssued siteID (pc_Device c) (pc_Command c)"
    using Cons [of "Suc n" ?sv] by blast
  show ?case unfolding file_calls.simps new(1) api_publish_log using new(2) by auto
qed simp

lemma request_log:
  assumes "\<not> requireControl sv r"
  shows "sv_client (snd (withAudit env r sv)) = sv_client sv" "sv_sched (snd (withAudit env r sv)) = sv_sched sv"
proof -
  obtain resp sv' where w: "withAudit env r sv = (resp, sv')" by force
  from withAudit_result [OF w] mux_unauthorized [OF assms, of env]
  show "sv_client (snd (withAudit env r sv)) = sv_client sv" "sv_sched (snd (withAudit env r sv)) = sv_sched sv"
    by (auto simp: w)
qed

lemma tick_run_log:
  assumes "c \<in> set (run_log (tick_run env (ks1, ks2, ks3) sv))"
  shows "tick_allows (sc_siteID (sv_sched sv)) (sc_policy (sv_sched sv))
      (s_NetPowerW (Summary ks1 (sv_store sv) (sc_siteID (sv_sched sv))))
      (soc_of (TelemetryForSite ks3 (sv_store sv) (sc_siteID (sv_sched sv))))
      (pc_Device c) (c_Action (pc_Command c)) (c_Params (pc_Command c))"
  using assms Tick_log [of "\<lparr>run_sched = sv_sched sv, run_clk = 0, run_log = []\<rparr>" ks1 "sv_store sv" ks3 "ae_clk env"
      "pub_answer env (sv_client sv)" ks2]
  by (auto simp: tick_run_def log_extends_def)

lemma tick_run_frame:
  "sc_policy (run_sched (tick_run env orders sv)) = sc_policy (sv_sched sv)"
  "sc_siteID (run_sched (tick_run env orders sv)) = sc_siteID (sv_sched sv)"
  using Tick_log [of "\<lparr>run_sched = sv_sched sv, run_clk = 0, run_log = []\<rparr>" "fst orders" "sv_store sv" "snd (snd orders)" "ae_clk env"
      "pub_answer env (sv_client sv)" "fst (snd orders)"]
  by (simp_all add: tick_run_def log_extends_def)

section \<open>Invariant\<close>

text \<open>
  The store is well-formed, the policy in force is valid, and the site, the control token and the
  device keys are those of the start.
\<close>

definition platform_inv :: "string \<Rightarrow> string \<Rightarrow> Keys \<Rightarrow> Server \<Rightarrow> bool" where
  "platform_inv site token keys sv \<longleftrightarrow>
     store_inv (sv_store sv) \<and> ValidatePolicy (sc_policy (sv_sched sv)) = None \<and>
     sv_siteID sv = site \<and> sc_siteID (sv_sched sv) = site \<and> sv_token sv = token \<and> mc_keys (sv_client sv) = keys"

lemma handleMessage_keys [simp]: "mc_keys (handleMessage env ok ks clk topic payload c) = mc_keys c"
  by (simp add: handleMessage_def handle_telemetry_def handle_ack_def handle_event_def incrementRejected_def Let_def
      split: option.split prod.split)

lemma PublishCommand_keys [simp]: "mc_keys (fst (PublishCommand env broker now site d cmd c)) = mc_keys c"
  by (simp add: PublishCommand_def record_issued_def Let_def split: option.split)

lemma api_publish_inv:
  assumes "platform_inv site token keys sv"
  shows "platform_inv site token keys (fst (api_publish env now siteID d cmd sv))"
proof -
  obtain sv' err where p: "api_publish env now siteID d cmd sv = (sv', err)" by force
  note f = api_publish_frame [OF p]
  have "client_inv (fst (PublishCommand (ae_mqtt env) (ae_broker env) now siteID d cmd (sv_client sv)))"
    using client.inv_step [OF _ client_step.publish] assms by (auto simp: platform_inv_def client_inv_def)
  with f assms show ?thesis by (simp add: p platform_inv_def client_inv_def)
qed

lemma platform_inv_repo [simp]: "platform_inv site token keys (sv\<lparr>sv_repo := r\<rparr>) \<longleftrightarrow> platform_inv site token keys sv"
  by (simp add: platform_inv_def)

lemma file_calls_inv:
  "platform_inv site token keys sv \<Longrightarrow> platform_inv site token keys (file_calls env db now siteID n cs sv)"
  by (induction env db now siteID n cs sv rule: file_calls.induct) (simp_all add: api_publish_inv)

lemma api_publish_pair_inv:
  "api_publish env now siteID d cmd sv = (sv', err) \<Longrightarrow> platform_inv site token keys sv \<Longrightarrow> platform_inv site token keys sv'"
  using api_publish_inv [of site token keys sv env now siteID d cmd] by simp

lemma handle_platform_inv:
  assumes inv: "platform_inv site token keys sv"
  shows "platform_inv site token keys (snd (handle env r sv e))"
proof (cases e)
  case EUpsertDevice
  have "platform_inv site token keys (sv\<lparr>sv_repo := repo, sv_client := (sv_client sv)\<lparr>mc_store := UpsertDevice now (sv_store sv) d\<rparr>\<rparr>)"
    "platform_inv site token keys (sv\<lparr>sv_client := (sv_client sv)\<lparr>mc_store := UpsertDevice now (sv_store sv) d\<rparr>\<rparr>)"
    for repo now d using inv by (simp_all add: platform_inv_def store_inv_steps)
  with inv show ?thesis unfolding EUpsertDevice
    by (simp add: api_upsertDevice_def Let_def split_beta split: sum.split)
next
  case (EApply s)
  with inv show ?thesis
    by (auto simp: api_applyDispatch_def Let_def dest: api_publish_pair_inv split: sum.split option.split prod.split)
next
  case ESetPolicy
  with inv show ?thesis by (auto simp: api_setPolicy_def platform_inv_def SetPolicy_def split: sum.split option.split)
next
  case (ECommand s d)
  with inv show ?thesis
    by (auto simp: api_command_def Let_def dest: api_publish_pair_inv split: sum.split option.split prod.split)
qed (use inv in simp_all)

interpretation platform: keeps_invariant platform_step "platform_inv site token keys" for site token keys
proof
  fix sv sv' assume inv: "platform_inv site token keys sv" and "platform_step sv sv'"
  from this(2) show "platform_inv site token keys sv'"
  proof cases
    case (exec ev)
    show ?thesis
    proof (cases ev)
      case (PMessage env ok ks clk topic payload jsonb out)
      have "client_inv (handleMessage env ok ks clk topic payload (sv_client sv))"
        using client.inv_step [OF _ client_step.message] inv by (auto simp: platform_inv_def client_inv_def)
      with inv show ?thesis by (simp add: exec PMessage platform_message_def Let_def platform_inv_def client_inv_def)
    next
      case (PRequest env r up pg redis)
      let ?env = "env\<lparr>ae_checks := healthChecks up pg redis sv\<rparr>"
      obtain resp sv1 where w: "withAudit ?env r sv = (resp, sv1)" by force
      have "platform_inv site token keys (snd (mux ?env r sv))"
        using inv handle_platform_inv [OF inv] by (simp add: mux_def split: option.split)
      then have "platform_inv site token keys sv1" using withAudit_result [OF w] by auto
      then show ?thesis by (simp add: exec PRequest serve_def w)
    next
      case (PTick env orders db now)
      have "platform_inv site token keys (sv\<lparr>sv_sched := run_sched (tick_run env orders sv)\<rparr>)"
        using inv by (simp add: platform_inv_def tick_run_frame)
      then show ?thesis by (simp add: exec PTick platform_tick_def Let_def file_calls_inv)
    qed
  qed
qed

text \<open>The state after a successful start.\<close>

lemma store_all_inv: "store_inv s \<Longrightarrow> store_inv (store_all clk n ds s)"
  by (induction clk n ds s rule: store_all.induct) (simp_all add: store_inv_steps)

lemma newStateStore_inv: "newStateStore unmarshal ok1 ok2 ks db cfg = Some s \<Longrightarrow> store_inv s"
  by (auto simp: newStateStore_def store_inv_New split: if_splits dest: store_inv_NewRedis)

lemma platform_main_inv:
  assumes "platform_main cfg su = Inr sv" "ValidatePolicy (platform_policy cfg) = None"
  shows "\<exists>keys. ParseKeys (cf_DeviceKeys cfg) = Inr keys \<and>
    platform_inv (cf_SiteID cfg) (strings_TrimSpace (cf_ControlToken cfg)) keys sv \<and> sv_has_audit sv \<and> mc_recorder (sv_client sv)"
proof -
  obtain s0 r0 r1 s1 s2 s3 c where
    s0: "newStateStore (su_unmarshal_tele su) (fst (su_redis_ok su)) (snd (su_redis_ok su)) (su_redis_order su) (su_redis su) cfg = Some s0"
    and s1: "loadOrSeedDevices (su_coll su) (fst (su_devices su)) (snd (su_devices su)) (su_upserts su) (su_clk su) (cf_SiteID cfg) r0 s0 = (r1, Some s1)"
    and s2: "loadRecentCommands (su_unmarshal su) (fst (su_commands su)) (snd (su_commands su)) r1 s1 = Some s2"
    and s3: "loadRecentEvents (su_unmarshal su) (fst (su_events su)) (snd (su_events su)) r1 s2 = Some s3"
    and c: "client_Connect (cf_DeviceKeys cfg) (su_tls su) (su_broker su)
       (WithCommandRecorder (NewClient (cf_DeviceAuthMaxSkew cfg) s3 (su_redis su) True)) = (c, None)"
    and sv: "sv = WithAuditRecorder (WithControlToken (cf_ControlToken cfg)
       (api_New (cf_SiteID cfg) c (scheduler_New (cf_SiteID cfg) (platform_policy cfg)) r1 True))"
    using assms(1) by (auto simp: platform_main_def split: option.splits prod.splits)
  have "store_inv s1" using s1 newStateStore_inv [OF s0]
    by (auto simp: loadOrSeedDevices_def store_all_inv split: option.splits prod.splits if_splits)
  then have "store_inv s3" using s2 s3
    by (auto simp: loadRecentCommands_def loadRecentEvents_def store_inv_step [OF store_step.set_commands]
        store_inv_step [OF store_step.set_events] split: option.splits)
  moreover obtain keys where "ParseKeys (cf_DeviceKeys cfg) = Inr keys" "mc_keys c = keys" "mc_store c = s3" "mc_recorder c"
    using c by (auto simp: client_Connect_def WithCommandRecorder_def NewClient_def Let_def split: sum.splits option.splits)
  ultimately show ?thesis using assms(2)
    by (simp add: sv platform_inv_def WithAuditRecorder_def WithControlToken_def api_New_def scheduler_New_def)
qed

section \<open>Devices in memory and in the database\<close>

text \<open>A device up to the time of its creation, which the two sides take from different clocks.\<close>

definition undated :: "Device \<Rightarrow> Device" where
  "undated d = d\<lparr>d_CreatedAt := 0\<rparr>"

definition rows_filed :: "DeviceRepository \<Rightarrow> bool" where
  "rows_filed r \<longleftrightarrow> (\<forall>a i d. tb_devices r (a, i) = Some d \<longrightarrow> d_SiteID d = a \<and> d_ID d = i \<and> nul_free a)"

definition same_devices :: "DeviceRepository \<Rightarrow> Store \<Rightarrow> bool" where
  "same_devices r s \<longleftrightarrow>
     (\<forall>a i. nul_free a \<longrightarrow> map_option undated (DeviceInSite s a i) = map_option undated (tb_devices r (a, i)))"

lemma upsert_devices:
  "map_option undated (DeviceInSite (UpsertDevice now s d) a i) =
    (if stateKey a i = stateKey (d_SiteID d) (d_ID d) then Some (undated d) else map_option undated (DeviceInSite s a i))"
  by (simp add: DeviceInSite_def UpsertDevice_def undated_def Let_def)

lemma upsert_rows:
  assumes "rows_filed r" "nul_free (d_SiteID d)" "repo_Upsert ok now d r = (r', True)"
  shows "rows_filed r'" "map_option undated (tb_devices r' (a, i)) =
    (if (a, i) = (d_SiteID d, d_ID d) then Some (undated d) else map_option undated (tb_devices r (a, i)))"
proof -
  have old: "d_SiteID old = d_SiteID d \<and> d_ID old = d_ID d" if "tb_devices r (d_SiteID d, d_ID d) = Some old" for old
    using assms(1) that by (simp add: rows_filed_def)
  obtain row where row: "r' = r\<lparr>tb_devices := (tb_devices r)((d_SiteID d, d_ID d) \<mapsto> row)\<rparr>"
    "d_SiteID row = d_SiteID d" "d_ID row = d_ID d" "undated row = undated d"
  proof (cases "tb_devices r (d_SiteID d, d_ID d)")
    case None
    with assms(3) show thesis by (auto simp: repo_Upsert_def undated_def Let_def intro!: that split: if_splits)
  next
    case (Some o')
    with assms(3) old [OF Some] show thesis
      by (auto simp: repo_Upsert_def undated_def Let_def intro!: that split: if_splits)
  qed
  show "rows_filed r'" using assms(1,2) row by (simp add: rows_filed_def)
  show "map_option undated (tb_devices r' (a, i)) =
    (if (a, i) = (d_SiteID d, d_ID d) then Some (undated d) else map_option undated (tb_devices r (a, i)))"
    using row by auto
qed

lemma seed_agrees:
  assumes "same_devices r s" "rows_filed r" "\<forall>d \<in> set ds. nul_free (d_SiteID d)" "upsert_all out n ds r = (r', True)"
  shows "same_devices r' (store_all clk m ds s) \<and> rows_filed r'"
  using assms
proof (induction ds arbitrary: n m r s)
  case (Cons d ds)
  obtain r1 where r1: "repo_Upsert (fst (out n)) (snd (out n)) d r = (r1, True)" "upsert_all out (Suc n) ds r1 = (r', True)"
    using Cons.prems(4) by (auto split: prod.splits if_splits)
  have d: "nul_free (d_SiteID d)" using Cons.prems(3) by simp
  note u = upsert_rows [OF Cons.prems(2) d r1(1)]
  have "same_devices r1 (UpsertDevice (clk m) s d)"
    using Cons.prems(1) d by (auto simp: same_devices_def upsert_devices u(2) stateKey_inj)
  from Cons.IH [OF this u(1) _ r1(2)] Cons.prems(3) show ?case by simp
qed simp

text \<open>Loading every row: each row is the only one with its key.\<close>

abbreviation dev_key :: "Device \<Rightarrow> string" where
  "dev_key d \<equiv> stateKey (d_SiteID d) (d_ID d)"

lemma store_all_other:
  "\<forall>d \<in> set ds. dev_key d \<noteq> stateKey a i \<Longrightarrow> DeviceInSite (store_all clk n ds s) a i = DeviceInSite s a i"
  by (induction clk n ds s rule: store_all.induct) (auto simp: dev_index.look_put)

lemma store_all_hit:
  assumes "d \<in> set ds" "dev_key d = stateKey a i" "\<forall>d' \<in> set ds. dev_key d' = stateKey a i \<longrightarrow> d' = d"
  shows "map_option undated (DeviceInSite (store_all clk n ds s) a i) = Some (undated d)"
  using assms
proof (induction ds arbitrary: n s)
  case (Cons e ds)
  show ?case
  proof (cases "d \<in> set ds")
    case True
    have "\<forall>d' \<in> set ds. dev_key d' = stateKey a i \<longrightarrow> d' = d" using Cons.prems(3) by (meson list.set_intros(2))
    then show ?thesis unfolding store_all.simps by (rule Cons.IH [OF True Cons.prems(2)])
  next
    case False
    with Cons.prems have "\<forall>d' \<in> set ds. dev_key d' \<noteq> stateKey a i" "e = d" by auto
    with Cons.prems(2) show ?thesis by (simp add: store_all_other upsert_devices)
  qed
qed simp

lemma load_agrees:
  assumes "rows_filed r" "set ds = ran (tb_devices r)" "devices s = Map.empty"
  shows "same_devices r (store_all clk n ds s)"
  unfolding same_devices_def
proof (intro allI impI)
  fix a i assume a: "nul_free a"
  have key: "tb_devices r (a, i) = Some d" if "d \<in> set ds" "dev_key d = stateKey a i" for d
  proof -
    from that(1) assms(2) obtain k where "tb_devices r k = Some d" unfolding ran_def by blast
    with assms(1) that(2) a show ?thesis by (cases k) (auto simp: rows_filed_def stateKey_inj)
  qed
  show "map_option undated (DeviceInSite (store_all clk n ds s) a i) = map_option undated (tb_devices r (a, i))"
  proof (cases "tb_devices r (a, i)")
    case None
    with key have "\<forall>d \<in> set ds. dev_key d \<noteq> stateKey a i" by auto
    with None assms(3) show ?thesis by (simp add: store_all_other) (simp add: DeviceInSite_def)
  next
    case (Some d)
    then have "d \<in> set ds" "dev_key d = stateKey a i" using assms(1,2) by (auto simp: rows_filed_def ran_def)
    moreover have "\<forall>d' \<in> set ds. dev_key d' = stateKey a i \<longrightarrow> d' = d" using key Some by fastforce
    ultimately have "map_option undated (DeviceInSite (store_all clk n ds s) a i) = Some (undated d)" by (rule store_all_hit)
    with Some show ?thesis by simp
  qed
qed

lemma seed_keys:
  assumes "d \<in> set (seed_devices siteID)"
  shows "dev_key d = stateKey siteID (d_ID d)"
    "\<forall>d' \<in> set (seed_devices siteID). dev_key d' = stateKey siteID (d_ID d) \<longrightarrow> d' = d"
  using assms by (auto simp: seed_devices_def stateKey_def)

section \<open>Properties\<close>

text \<open>
  C1. Where commands come from: a command reaches the devices and the history only through a request
  that passes the control token, or through a tick of the scheduler. A tick only commands devices of
  its own site, and only to charge a battery below the maximum under a surplus, to discharge one
  above the minimum under a deficit, or to switch off a load that is not critical above the shed
  threshold, all by the store and the policy at the time of the tick. MQTT messages issue nothing.
\<close>
theorem commands_only_from_control_or_tick:
  assumes "RecordIssued site d cmd \<in> set (drop (length (mc_effects (sv_client sv))) (mc_effects (sv_client (platform_exec ev sv))))"
  shows "(\<exists>env r up pg redis. ev = PRequest env r up pg redis \<and> requireControl sv r) \<or>
    (\<exists>env ks1 ks2 ks3 db now. ev = PTick env (ks1, ks2, ks3) db now \<and> site = sc_siteID (sv_sched sv) \<and> d_SiteID d = site \<and>
       (let net = s_NetPowerW (Summary ks1 (sv_store sv) site); soc = soc_of (TelemetryForSite ks3 (sv_store sv) site) d;
            policy = sc_policy (sv_sched sv) in
        d_Type d = DeviceBattery \<and> c_Action cmd = ''set_mode'' \<and> c_Params cmd = Some [(''mode'', GStr ''charging'')] \<and>
          f_lt net (Fin (- 10)) \<and> f_lt soc (p_BatteryMaxSOC policy) \<or>
        d_Type d = DeviceBattery \<and> c_Action cmd = ''set_mode'' \<and> c_Params cmd = Some [(''mode'', GStr ''discharging'')] \<and>
          f_lt (Fin 10) net \<and> f_lt (p_BatteryMinSOC policy) soc \<or>
        d_Type d = DeviceLoad \<and> c_Action cmd = ''set_relay'' \<and> c_Params cmd = Some [(''on'', GBool False)] \<and>
          \<not> d_CriticalLoad d \<and> f_lt (p_LoadShedThreshold policy) net))"
proof (cases ev)
  case (PMessage env ok ks clk topic payload jsonb out)
  with assms handleMessage_log [of env ok ks clk topic payload "sv_client sv"] show ?thesis
    by (auto simp: platform_message_def Let_def)
next
  case (PRequest env r up pg redis)
  have "requireControl sv r"
  proof (rule ccontr)
    assume "\<not> requireControl sv r"
    from request_log(1) [OF this, of "env\<lparr>ae_checks := healthChecks up pg redis sv\<rparr>"] assms show False
      by (simp add: PRequest serve_def split_beta)
  qed
  with PRequest show ?thesis by blast
next
  case (PTick env orders db now)
  obtain ks1 ks2 ks3 where o: "orders = (ks1, ks2, ks3)" by (cases orders)
  let ?r = "tick_run env orders sv"
  obtain c where c: "c \<in> set (run_log ?r)" "site = sc_siteID (sv_sched sv)" "d = pc_Device c" "cmd = pc_Command c"
    using assms file_calls_log [of env db now "sc_siteID (sv_sched sv)" 0 "run_log ?r" "sv\<lparr>sv_sched := run_sched ?r\<rparr>"]
    by (fastforce simp: PTick platform_tick_def Let_def)
  from tick_run_log [OF c(1) [unfolded o]] show ?thesis
    unfolding PTick o using c(2-4) by (intro disjI2) (auto simp: tick_allows_def Let_def)
qed

text \<open>
  C6. The platform keeps its promises from the start on: when the start succeeds with a valid policy in
  the environment, then after any messages, requests and ticks, in any order and with any answers of
  broker and database, every entry of the store is filed under its own site and id, the histories
  hold at most 200 entries, the policy in force is valid, and the site, the control token and the
  device keys are those of the settings.
\<close>
theorem platform_invariant:
  assumes "platform_main cfg su = Inr sv0" "ValidatePolicy (platform_policy cfg) = None" "platform_step\<^sup>*\<^sup>* sv0 sv"
  shows "(\<forall>k d. devices (sv_store sv) k = Some d \<longrightarrow> k = stateKey (d_SiteID d) (d_ID d)) \<and>
    (\<forall>k t. telemetry (sv_store sv) k = Some t \<longrightarrow> k = stateKey (t_SiteID t) (t_DeviceID t)) \<and>
    length (Commands (sv_store sv)) \<le> 200 \<and> length (Events (sv_store sv)) \<le> 200 \<and>
    ValidatePolicy (sched_Policy (sv_sched sv)) = None \<and>
    sv_siteID sv = cf_SiteID cfg \<and> sc_siteID (sv_sched sv) = cf_SiteID cfg \<and>
    sv_token sv = strings_TrimSpace (cf_ControlToken cfg) \<and> Inr (mc_keys (sv_client sv)) = ParseKeys (cf_DeviceKeys cfg)"
proof -
  obtain keys where k: "ParseKeys (cf_DeviceKeys cfg) = Inr keys"
    "platform_inv (cf_SiteID cfg) (strings_TrimSpace (cf_ControlToken cfg)) keys sv0"
    using platform_main_inv [OF assms(1,2)] by blast
  from platform.inv_steps [OF assms(3) k(2)] k(1) show ?thesis
    by (simp add: platform_inv_def store_inv_def Commands_def Events_def sched_Policy_def)
qed

text \<open>
  C35. The devices survive a restart: whenever the devices are loaded, or seeded into an empty
  database, memory and database hold the same devices under the same sites and ids, up to the time
  of creation, and an empty database holds the four seed devices of the site afterwards.
\<close>
theorem devices_loaded_or_seeded:
  assumes "loadOrSeedDevices coll ok ks out clk siteID r s = (r', Some s')" "devices s = Map.empty"
    and "rows_filed r" "range_order (tb_devices r) ks" "nul_free siteID"
  shows "(\<forall>a i. nul_free a \<longrightarrow>
      map_option undated (DeviceInSite s' a i) = map_option undated (tb_devices r' (a, i))) \<and>
    (if tb_devices r = Map.empty
     then (\<forall>d \<in> set (seed_devices siteID). map_option undated (DeviceInSite s' siteID (d_ID d)) = Some (undated d))
     else r' = r)"
proof -
  obtain ds where l: "repo_List coll ok ks r = Some ds"
    using assms(1) by (cases "repo_List coll ok ks r") (simp_all add: loadOrSeedDevices_def)
  then have "set ds = ran (tb_devices r)"
    using set_range_vals [OF assms(4)] by (simp add: repo_List_def split: if_splits) (metis set_sort_Slice)
  note ds = l this
  show ?thesis
  proof (cases "ds = []")
    case False
    then have r: "r' = r" "s' = store_all clk 0 ds s" using assms(1) ds(1) by (simp_all add: loadOrSeedDevices_def)
    have "tb_devices r \<noteq> Map.empty" using False ds(2) by auto
    with load_agrees [OF assms(3) ds(2) assms(2), of clk 0] show ?thesis by (simp add: same_devices_def r)
  next
    case True
    then have empty: "tb_devices r = Map.empty" using ds(2) by (auto simp: ran_def fun_eq_iff) (metis not_None_eq)
    have up: "upsert_all out 0 (seed_devices siteID) r = (r', True)" and s': "s' = store_all clk 0 (seed_devices siteID) s"
      using assms(1) ds(1) True by (auto simp: loadOrSeedDevices_def split: prod.splits if_splits)
    have "\<forall>d \<in> set (seed_devices siteID). nul_free (d_SiteID d)" using assms(5) by (simp add: seed_devices_def)
    moreover have "same_devices r s" using assms(2) by (simp add: same_devices_def DeviceInSite_def empty)
    ultimately have "same_devices r' s'" using seed_agrees [OF _ assms(3) _ up] s' by blast
    moreover have "map_option undated (DeviceInSite s' siteID (d_ID d)) = Some (undated d)"
      if "d \<in> set (seed_devices siteID)" for d
      unfolding s' by (rule store_all_hit [OF that seed_keys [OF that]])
    ultimately show ?thesis by (simp add: same_devices_def empty)
  qed
qed

section \<open>Witnesses\<close>

text \<open>A start with an empty environment and an empty database.\<close>

definition px_start :: StartEnv where
  "px_start = \<lparr>su_unmarshal_tele = (\<lambda>_. None), su_redis = Map.empty, su_redis_ok = (True, True), su_redis_order = [],
     su_db = None, su_db_ok = (True, True), su_coll = id, su_devices = (True, []), su_upserts = (\<lambda>_. (True, 5)), su_clk = (\<lambda>_. 6),
     su_unmarshal = (\<lambda>_. None), su_commands = (True, []), su_events = (True, []), su_tls = Inr None, su_broker = None\<rparr>"

definition px_config :: PlatformConfig where
  "px_config = config_Load (\<lambda>_. [])"

lemma px_policy: "ValidatePolicy (platform_policy px_config) = None"
proof -
  have "f_lit (25/100) = Fin (1/4)" by (simp add: f_lit_def f64_eval)
  then show ?thesis
    by (simp add: px_config_def config_Load_def platform_policy_def ValidatePolicy_def getfloat_def f_lit_09)
qed

lemma upsert_all_ok: "\<exists>r'. upsert_all (\<lambda>_. (True, t)) n ds r = (r', True)"
  by (induction ds arbitrary: n r) (auto simp: repo_Upsert_def Let_def)

lemma px_start_ok: "\<exists>sv. platform_main px_config px_start = Inr sv"
proof -
  let ?r0 = "\<lparr>tb_devices = Map.empty, tb_commands = Map.empty, tb_events = Map.empty, tb_audit = Map.empty\<rparr>"
  have "ParseKeys [] = Inr Map.empty" by (simp add: ParseKeys_def strings_TrimSpace_Nil)
  moreover obtain r1 where "upsert_all (\<lambda>_. (True, 5)) 0 (seed_devices ''home-lab'') ?r0 = (r1, True)"
    using upsert_all_ok by blast
  ultimately show ?thesis
    by (simp add: platform_main_def px_start_def px_config_def config_Load_def getenv_def newStateStore_def NewDeviceRepository_def
        repo_migrate_def loadOrSeedDevices_def repo_List_def loadRecentCommands_def
        repo_ListCommands_def loadRecentEvents_def repo_ListEvents_def client_Connect_def)
qed

text \<open>The example site of the scheduler, with a client that records: a tick discharges the battery.\<close>

definition px_server :: Server where
  "px_server = api_New ''s1'' (WithCommandRecorder (NewClient 0 ex_store Map.empty False)) (run_sched ex_run) rx_repo True"

definition px_env :: ApiEnv where
  "px_env = (ax_env (ax_request plan_ex_cfg))\<lparr>ae_clk := ex_clk\<rparr>"

lemma px_answer: "pub_answer px_env c = (\<lambda>_ _ _ _. None)"
  by (simp add: pub_answer_def px_env_def ax_env_def PublishCommand_def ex_env_def fun_eq_iff)

lemma px_tick: "run_log (tick_run px_env (ex_keys, ex_keys, ex_keys) px_server) =
  run_log (Tick ex_clk (\<lambda>_ _ _ _. None) (ex_keys, ex_keys, ex_keys) ex_store ex_run)"
  unfolding tick_run_def px_answer
  by (simp add: px_env_def px_server_def api_New_def WithCommandRecorder_def NewClient_def ex_run_def)

lemma px_log: "\<exists>c. run_log (tick_run px_env (ex_keys, ex_keys, ex_keys) px_server) = [c]"
proof -
  have "map sent (run_log (Tick ex_clk (\<lambda>_ _ _ _. None) (ex_keys, ex_keys, ex_keys) ex_store ex_run)) =
      [(ex_battery, ''set_mode'', discharging)]"
    by (simp add: ex_tick Tick_def sched_Policy_def Let_def publish_eq blocked_def in_cooldown_def call_of_def sent_def sched_cmd_def)
  then show ?thesis unfolding px_tick by auto
qed

theorem platform_invariant_witness:
  "\<exists>sv0. platform_main px_config px_start = Inr sv0 \<and>
     ValidatePolicy (sched_Policy (sv_sched (platform_exec (PTick px_env ([], [], []) (\<lambda>_. (True, 9)) (\<lambda>_. 9)) sv0))) = None"
proof -
  obtain sv0 where sv0: "platform_main px_config px_start = Inr sv0" using px_start_ok by blast
  have "platform_step\<^sup>*\<^sup>* sv0 (platform_exec (PTick px_env ([], [], []) (\<lambda>_. (True, 9)) (\<lambda>_. 9)) sv0)" by (rule r_into_rtranclp) (rule exec)
  from platform_invariant [OF sv0 px_policy this] sv0 show ?thesis by simp
qed

theorem commands_only_from_control_or_tick_witness:
  "\<exists>d cmd. RecordIssued ''s1'' d cmd \<in> set (mc_effects (sv_client
     (platform_exec (PTick px_env (ex_keys, ex_keys, ex_keys) (\<lambda>_. (True, 9)) (\<lambda>_. 9)) px_server))) \<and>
     d_Type d \<in> {DeviceBattery, DeviceLoad}"
proof -
  obtain c where c: "run_log (tick_run px_env (ex_keys, ex_keys, ex_keys) px_server) = [c]" using px_log by blast
  let ?ev = "PTick px_env (ex_keys, ex_keys, ex_keys) (\<lambda>_. (True, 9)) (\<lambda>_. 9)"
  have none: "mc_effects (sv_client px_server) = []"
    by (simp add: px_server_def api_New_def WithCommandRecorder_def NewClient_def)
  have sent: "RecordIssued ''s1'' (pc_Device c) (pc_Command c) \<in> set (mc_effects (sv_client (platform_exec ?ev px_server)))"
    by (simp add: platform_tick_def c api_publish_log Let_def)
      (simp add: api_publish_def PublishCommand_def px_env_def ax_env_def ex_env_def px_server_def api_New_def
        WithCommandRecorder_def NewClient_def ex_run_def scheduler_New_def)
  with commands_only_from_control_or_tick [of "''s1''" "pc_Device c" "pc_Command c" px_server ?ev] none
  have "d_Type (pc_Device c) \<in> {DeviceBattery, DeviceLoad}" by (auto simp: Let_def)
  with sent show ?thesis by blast
qed

theorem devices_loaded_or_seeded_witness:
  "\<exists>r' s'. loadOrSeedDevices id True [] (\<lambda>_. (True, 5)) (\<lambda>_. 6) ''s1'' rx_repo NewStore = (r', Some s') \<and>
     map_option undated (DeviceInSite s' ''s1'' ''pv_01'') = map_option undated (tb_devices r' (''s1'', ''pv_01''))"
proof -
  obtain r' where "upsert_all (\<lambda>_. (True, 5)) 0 (seed_devices ''s1'') rx_repo = (r', True)" using upsert_all_ok by blast
  then obtain s' where l: "loadOrSeedDevices id True [] (\<lambda>_. (True, 5)) (\<lambda>_. 6) ''s1'' rx_repo NewStore = (r', Some s')"
    by (simp add: loadOrSeedDevices_def repo_List_def)
  have "rows_filed rx_repo" "range_order (tb_devices rx_repo) []" "devices NewStore = Map.empty" "nul_free ''s1''"
    by (simp_all add: rows_filed_def rx_repo_def range_order_def NewStore_def)
  with devices_loaded_or_seeded [OF l] l show ?thesis by fastforce
qed

text \<open>
  The policy of the environment is not checked: with a minimal state of charge of 2 the platform
  starts, although the API would reject that policy.
\<close>

lemma ParseFloat_2: "ParseFloat ''2'' = Some (Fin 2)"
  by (simp add: ParseFloat_def parse_special_def take_sign_def is_digit_def digit_val_def lower_def read_exponent_def
      less_eq_char_def f64_eval Let_def)

theorem environment_policy_unchecked:
  "\<exists>sv. platform_main (config_Load (\<lambda>key. if key = ''BATTERY_MIN_SOC'' then ''2'' else [])) px_start = Inr sv \<and>
     ValidatePolicy (sched_Policy (sv_sched sv)) = Some ''battery_min_soc must be between 0 and 1''"
proof -
  let ?env = "\<lambda>key. if key = ''BATTERY_MIN_SOC'' then ''2'' else []"
  let ?r0 = "\<lparr>tb_devices = Map.empty, tb_commands = Map.empty, tb_events = Map.empty, tb_audit = Map.empty\<rparr>"
  have "ParseKeys [] = Inr Map.empty" by (simp add: ParseKeys_def strings_TrimSpace_Nil)
  moreover obtain r1 where "upsert_all (\<lambda>_. (True, 5)) 0 (seed_devices ''home-lab'') ?r0 = (r1, True)"
    using upsert_all_ok by blast
  moreover have "getfloat ?env ''BATTERY_MIN_SOC'' x = Fin 2" for x by (simp add: getfloat_def ParseFloat_2)
  ultimately show ?thesis
    by (simp add: platform_main_def px_start_def config_Load_def getenv_def newStateStore_def NewDeviceRepository_def
        repo_migrate_def loadOrSeedDevices_def repo_List_def loadRecentCommands_def repo_ListCommands_def
        loadRecentEvents_def repo_ListEvents_def client_Connect_def platform_policy_def ValidatePolicy_def
        sched_Policy_def WithAuditRecorder_def WithControlToken_def api_New_def scheduler_New_def)
qed

end
