(* ===== verification/Edge_Service.thy ===== *)
theory Edge_Service
  imports Edge_Gateway Metrics Mqtt_Client Go_Strconv
begin

text \<open>
  The process around the edge gateway (cmd/edge-gateway/main.go): its settings, its start-up, the
  routes of its HTTP interface, the page of metrics and the statistics of the cache. The
  environment is the function \<open>os.Getenv\<close>.

  Contents: the settings; the start; the HTTP interface; properties of the settings.
\<close>

section \<open>Settings\<close>

definition edge_getenv :: "(string \<Rightarrow> string) \<Rightarrow> string \<Rightarrow> string \<Rightarrow> string" where
  "edge_getenv env key fallback = (if env key \<noteq> [] then env key else fallback)"

text \<open>A number without a unit counts as seconds; the product is an \<open>int64\<close>.\<close>

definition edge_getdur :: "(string \<Rightarrow> string) \<Rightarrow> string \<Rightarrow> duration \<Rightarrow> duration" where
  "edge_getdur env key fallback =
     (if env key = [] then fallback
      else
        case ParseDuration (env key) of
          Some d \<Rightarrow> d
        | None \<Rightarrow> (case Atoi (env key) of Some i \<Rightarrow> wrap64 (i * Second) | None \<Rightarrow> fallback))"

definition edge_getbool :: "(string \<Rightarrow> string) \<Rightarrow> string \<Rightarrow> bool \<Rightarrow> bool" where
  "edge_getbool env key fallback =
     (if env key = [] then fallback
      else case ParseBool (env key) of None \<Rightarrow> fallback | Some b \<Rightarrow> b)"

record EdgeSettings =
  eg_siteID :: string
  eg_localBroker :: string
  eg_upstreamBroker :: string
  eg_cachePath :: string
  eg_flushInterval :: duration
  eg_cacheRetention :: duration
  eg_cleanupInterval :: duration
  eg_httpAddr :: string
  eg_controlToken :: string
  eg_captureKinds :: "string \<rightharpoonup> bool"
  eg_topicPrefix :: string
  eg_localUser :: "string \<times> string"
  eg_upstreamUser :: "string \<times> string"
  eg_localClientID :: string
  eg_upstreamClientID :: string
  eg_localTLS :: TLSFiles
  eg_upstreamTLS :: TLSFiles

definition edge_tls_files :: "(string \<Rightarrow> string) \<Rightarrow> string \<Rightarrow> TLSFiles" where
  "edge_tls_files env side =
     \<lparr>tf_CAFile = edge_getenv env (side @ ''_TLS_CA_FILE'') (edge_getenv env ''MQTT_TLS_CA_FILE'' []),
      tf_CertFile = edge_getenv env (side @ ''_TLS_CERT_FILE'') (edge_getenv env ''MQTT_TLS_CERT_FILE'' []),
      tf_KeyFile = edge_getenv env (side @ ''_TLS_KEY_FILE'') (edge_getenv env ''MQTT_TLS_KEY_FILE'' []),
      tf_InsecureSkipVerify = edge_getbool env (side @ ''_TLS_INSECURE_SKIP_VERIFY'')
        (edge_getbool env ''MQTT_TLS_INSECURE_SKIP_VERIFY'' False)\<rparr>"

definition edge_settings :: "(string \<Rightarrow> string) \<Rightarrow> EdgeSettings" where
  "edge_settings env =
     \<lparr>eg_siteID = edge_getenv env ''SITE_ID'' ''home-lab'',
      eg_localBroker = edge_getenv env ''EDGE_LOCAL_BROKER'' (edge_getenv env ''MQTT_BROKER'' ''tcp://localhost:1883''),
      eg_upstreamBroker = edge_getenv env ''EDGE_UPSTREAM_BROKER'' [],
      eg_cachePath = edge_getenv env ''EDGE_CACHE_PATH'' ''./data/edge-gateway/cache.db'',
      eg_flushInterval = edge_getdur env ''EDGE_FLUSH_INTERVAL'' (5 * Second),
      eg_cacheRetention = edge_getdur env ''EDGE_CACHE_RETENTION'' (24 * 60 * Minute),
      eg_cleanupInterval = edge_getdur env ''EDGE_CLEANUP_INTERVAL'' (60 * Minute),
      eg_httpAddr = edge_getenv env ''EDGE_HTTP_ADDR'' ''127.0.0.1:8081'',
      eg_controlToken = strings_TrimSpace (edge_getenv env ''EDGE_CONTROL_TOKEN'' []),
      eg_captureKinds = parseKindSet (edge_getenv env ''EDGE_CAPTURE_KINDS'' ''telemetry,event,status,command/ack''),
      eg_topicPrefix = strings_Trim (edge_getenv env ''EDGE_UPSTREAM_TOPIC_PREFIX'' []) (CHR ''/''),
      eg_localUser = (edge_getenv env ''EDGE_LOCAL_USERNAME'' (edge_getenv env ''MQTT_USERNAME'' []),
                      edge_getenv env ''EDGE_LOCAL_PASSWORD'' (edge_getenv env ''MQTT_PASSWORD'' [])),
      eg_upstreamUser = (edge_getenv env ''EDGE_UPSTREAM_USERNAME'' (edge_getenv env ''MQTT_USERNAME'' []),
                         edge_getenv env ''EDGE_UPSTREAM_PASSWORD'' (edge_getenv env ''MQTT_PASSWORD'' [])),
      eg_localClientID = edge_getenv env ''EDGE_LOCAL_CLIENT_ID'' ''vpp-edge-gateway-local'',
      eg_upstreamClientID = edge_getenv env ''EDGE_UPSTREAM_CLIENT_ID'' ''vpp-edge-gateway-upstream'',
      eg_localTLS = edge_tls_files env ''EDGE_LOCAL'', eg_upstreamTLS = edge_tls_files env ''EDGE_UPSTREAM''\<rparr>"

section \<open>Start-up\<close>

text \<open>The options of an MQTT client, as \<open>newMQTTClient\<close> sets them.\<close>

record 'cert ClientOptions =
  co_Broker :: string
  co_ClientID :: string
  co_AutoReconnect :: bool
  co_ConnectRetry :: bool
  co_ConnectRetryInterval :: duration
  co_Handler :: bool
  co_User :: "(string \<times> string) option"
  co_TLS :: "'cert TLSConfig option"

definition newMQTTClient ::
  "string \<Rightarrow> string \<Rightarrow> string \<times> string \<Rightarrow> 'cert TLSConfig option \<Rightarrow> bool \<Rightarrow> 'cert ClientOptions" where
  "newMQTTClient broker clientID user tlsConfig handler =
     \<lparr>co_Broker = broker, co_ClientID = clientID, co_AutoReconnect = True, co_ConnectRetry = True,
      co_ConnectRetryInterval = 2 * Second, co_Handler = handler,
      co_User = (if fst user \<noteq> [] then Some user else None), co_TLS = tlsConfig\<rparr>"

text \<open>
  \<open>main\<close> up to the point where the process serves: each step can end it with the message of
  \<open>log.Fatalf\<close>. The arguments are what the TLS files, the cache file and the brokers answer:
  \<open>connect\<close> for a client's options, \<open>subscribe\<close> for a topic. A running gateway has the cleanup loop or
  not, and the flush loop or not.
\<close>

datatype edge_start = EdgeFatal string | EdgeRunning Cache bool bool

fun subscribe_all :: "(string \<Rightarrow> string option) \<Rightarrow> string list \<Rightarrow> (string \<times> string) option" where
  "subscribe_all subscribe [] = None"
| "subscribe_all subscribe (t # ts) =
     (case subscribe t of Some err \<Rightarrow> Some (t, err) | None \<Rightarrow> subscribe_all subscribe ts)"

definition edge_main ::
  "EdgeSettings \<Rightarrow> (TLSFiles \<Rightarrow> string + 'cert TLSConfig option) \<Rightarrow> string + Cache \<Rightarrow>
   ('cert ClientOptions \<Rightarrow> string option) \<Rightarrow> (string \<Rightarrow> string option) \<Rightarrow> edge_start"
where
  "edge_main cfg tls opened connect subscribe =
     (case tls (eg_localTLS cfg) of
        Inl err \<Rightarrow> EdgeFatal (''load local mqtt tls config: '' @ err)
      | Inr localTLS \<Rightarrow>
     (case tls (eg_upstreamTLS cfg) of
        Inl err \<Rightarrow> EdgeFatal (''load upstream mqtt tls config: '' @ err)
      | Inr upstreamTLS \<Rightarrow>
     (case opened of
        Inl err \<Rightarrow> EdgeFatal (''open edge cache: '' @ err)
      | Inr cache \<Rightarrow>
          let cleanup = (eg_cacheRetention cfg > 0 \<and> eg_cleanupInterval cfg > 0) in
          case connect (newMQTTClient (eg_localBroker cfg) (eg_localClientID cfg) (eg_localUser cfg) localTLS True) of
            Some err \<Rightarrow> EdgeFatal (''connect local mqtt: '' @ err)
          | None \<Rightarrow>
              (case subscribe_all subscribe (edgeSubscribeTopics (eg_siteID cfg)) of
                 Some (t, err) \<Rightarrow> EdgeFatal (''subscribe local mqtt topic='' @ t @ '': '' @ err)
               | None \<Rightarrow>
                   if eg_upstreamBroker cfg = [] then EdgeRunning cache cleanup False
                   else
                     (case connect (newMQTTClient (eg_upstreamBroker cfg) (eg_upstreamClientID cfg) (eg_upstreamUser cfg)
                              upstreamTLS False) of
                        Some err \<Rightarrow> EdgeFatal (''connect upstream mqtt: '' @ err)
                      | None \<Rightarrow> EdgeRunning cache cleanup True)))))"

section \<open>The HTTP interface\<close>

datatype edge_endpoint = EgHealth | EgStats | EgLocalCommand | EgMetrics | EgNotFound | EgNotAllowed

text \<open>The routes of \<open>edgeHTTPHandler\<close>, by method and path; a GET pattern also takes HEAD.\<close>

definition edge_route :: "string \<Rightarrow> string \<Rightarrow> edge_endpoint" where
  "edge_route m path =
     (let get = (m = ''GET'' \<or> m = ''HEAD'') in
      if path = ''/healthz'' then (if get then EgHealth else EgNotAllowed)
      else if path = ''/api/v1/cache/stats'' then (if get then EgStats else EgNotAllowed)
      else if path = ''/api/v1/local-command'' then (if m = ''POST'' then EgLocalCommand else EgNotAllowed)
      else if path = ''/metrics'' then (if get then EgMetrics else EgNotAllowed)
      else EgNotFound)"

definition edge_stats_reply :: "string \<Rightarrow> CacheStats option \<Rightarrow> int \<times> (string + CacheStats)" where
  "edge_stats_reply err stats = (case stats of None \<Rightarrow> (500, Inl err) | Some st \<Rightarrow> (200, Inr st))"

definition edge_sample :: "string \<Rightarrow> string \<Rightarrow> string" where
  "edge_sample name v = name @ '' '' @ v @ nl"

abbreviation labelled :: "string \<Rightarrow> string \<Rightarrow> string \<Rightarrow> string" where
  "labelled name key v \<equiv> name @ ''{'' @ key @ ''='' @ [CHR 0x22] @ v @ [CHR 0x22] @ ''}''"

text \<open>The page \<open>/metrics\<close>; \<open>ks\<close> is the visiting order of the loop over the counter's map.\<close>

definition edge_metrics ::
  "time \<Rightarrow> duration \<Rightarrow> bool \<Rightarrow> bool \<Rightarrow> string list \<Rightarrow> edgeCounter \<Rightarrow> CacheStats \<Rightarrow> string"
where
  "edge_metrics now retention local_up upstream_up ks cnt st =
     writeHelp ''vpp_edge_cache_messages'' ''Edge MQTT cache messages by state.'' @
     writeType ''vpp_edge_cache_messages'' ''gauge'' @
     edge_sample (labelled ''vpp_edge_cache_messages'' ''state'' ''pending'') (fmt_d (cs_Pending st)) @
     edge_sample (labelled ''vpp_edge_cache_messages'' ''state'' ''total'') (fmt_d (cs_Total st)) @
     writeHelp ''vpp_edge_cache_oldest_pending_age_seconds'' ''Age of the oldest pending edge cache message.'' @
     writeType ''vpp_edge_cache_oldest_pending_age_seconds'' ''gauge'' @
     edge_sample ''vpp_edge_cache_oldest_pending_age_seconds''
       (fmt_fixed 0 (oldestPendingAgeSeconds now (cs_OldestPendingAt st))) @
     writeHelp ''vpp_edge_cache_retention_seconds'' ''Edge cache retention for sent messages.'' @
     writeType ''vpp_edge_cache_retention_seconds'' ''gauge'' @
     edge_sample ''vpp_edge_cache_retention_seconds'' (fmt_fixed 0 (dur_Seconds retention)) @
     writeHelp ''vpp_edge_mqtt_connected'' ''Edge MQTT connection state.'' @
     writeType ''vpp_edge_mqtt_connected'' ''gauge'' @
     edge_sample (labelled ''vpp_edge_mqtt_connected'' ''side'' ''local'') (fmt_fixed 0 (boolFloat local_up)) @
     edge_sample (labelled ''vpp_edge_mqtt_connected'' ''side'' ''upstream'') (fmt_fixed 0 (boolFloat upstream_up)) @
     writeHelp ''vpp_edge_local_commands_total'' ''Edge local commands by status.'' @
     writeType ''vpp_edge_local_commands_total'' ''counter'' @
     concat (map (\<lambda>(label, v). edge_sample (labelled ''vpp_edge_local_commands_total'' ''status'' label) (nat_str (unat v)))
       (counter_Snapshot ks cnt))"

section \<open>Properties\<close>

text \<open>
  A bare number of seconds: the gateway reads a setting that is a number without a unit as that
  many seconds, up to 9223372036. From 9223372037 seconds on the product wraps: that number gives
  a negative interval, with which the flush loop panics at its start.
\<close>
theorem edge_bare_seconds:
  assumes "env key = nat_str n" "0 < n"
  shows "edge_getdur env key fallback = (if n < 2 ^ 63 then wrap64 (int n * Second) else fallback) \<and>
    (n \<le> 9223372036 \<longrightarrow> edge_getdur env key fallback = int n * Second) \<and>
    (n = 9223372037 \<longrightarrow> flushLoop (edge_getdur env key fallback) ticks pfx cu = None)"
proof -
  have e: "edge_getdur env key fallback = (if n < 2 ^ 63 then wrap64 (int n * Second) else fallback)"
    using assms(2) by (simp add: edge_getdur_def assms(1) ParseDuration_nat_str Atoi_nat_str)
  moreover have "wrap64 (int n * Second) = int n * Second" if "n \<le> 9223372036"
    using that by (intro wrap64_id) (simp add: int64_ok_def)
  moreover have "wrap64 (int 9223372037 * Second) \<le> 0" by (simp add: wrap64_def)
  ultimately show ?thesis by (auto simp: flushLoop_def)
qed

theorem edge_bare_seconds_witness:
  "edge_getdur (\<lambda>_. nat_str 30) ''EDGE_FLUSH_INTERVAL'' 0 = 30 * Second"
  using edge_bare_seconds [of "\<lambda>_. nat_str 30" "''EDGE_FLUSH_INTERVAL''" 30 0] by simp

end
