(* ===== verification/Edge_Uplink.thy ===== *)
theory Edge_Uplink
  imports Edge_Gateway Command_History
begin

text \<open>
  The edge gateway in front of a platform: the messages the upstream broker has accepted from the
  gateway (cmd/edge-gateway/main.go) are handled by the platform's MQTT client
  (internal/mqtt/client.go), in that order. A lost mark makes the gateway forward a message again;
  the platform then handles it twice.

  Contents: the order of the upstream log; handling a sequence of messages; telemetry and command
  history as a function of the sequence; properties.
\<close>

section \<open>The upstream log\<close>

text \<open>
  In the log a message is repeated at most right after itself, and the ids go up by one otherwise:
  a forwarded message that is still in the queue is the last of the log, and the flush loop comes
  back to it first.
\<close>

definition gw_stutter :: "string \<Rightarrow> Gateway \<Rightarrow> bool" where
  "gw_stutter pfx g \<longleftrightarrow> gw_inv pfx g \<and> (\<exists>k \<ge> 0.
     remdups_adj (map fst (gw_up g)) = [1..k] \<and> (\<forall>i. gw_unmarked g = Some i \<longrightarrow> i = k) \<and>
     (\<forall>m \<in> set (queue (gw_cache g)) \<union> set (gw_queue g). m_ID m \<le> k \<longrightarrow> m_ID m = k) \<and>
     (gw_queue g \<noteq> [] \<and> gw_unmarked g = None \<and> k \<in> m_ID ` set (queue (gw_cache g)) \<longrightarrow> k \<in> m_ID ` set (gw_queue g)))"

lemma stutter_delivered: "remdups_adj (map fst (gw_up g)) = [1..k] \<Longrightarrow> delivered g = {1..k}"
  unfolding delivered_def by (metis list.set_map remdups_adj_set set_upto)

lemma remdups_adj_snoc:
  "remdups_adj (xs @ [x]) = (if xs \<noteq> [] \<and> last xs = x then remdups_adj xs else remdups_adj xs @ [x])"
  by (cases xs rule: rev_cases) (auto simp: remdups_adj_append_two)

lemma gw_stutter_forward:
  assumes "gw_stutter pfx g" "gw_queue g = m # ms" "gw_unmarked g = None"
  shows "gw_stutter pfx (g\<lparr>gw_queue := ms, gw_unmarked := Some (m_ID m), gw_up := gw_up g @ [up_entry pfx m]\<rparr>)"
proof -
  obtain k where inv: "gw_inv pfx g" and k: "0 \<le> k" "remdups_adj (map fst (gw_up g)) = [1..k]"
    and low: "\<forall>x \<in> set (queue (gw_cache g)) \<union> set (gw_queue g). m_ID x \<le> k \<longrightarrow> m_ID x = k"
    and again: "k \<in> m_ID ` set (queue (gw_cache g)) \<Longrightarrow> k \<in> m_ID ` set (gw_queue g)"
    using assms by (auto simp: gw_stutter_def)
  have D: "delivered g = {1..k}" using k(2) by (rule stutter_delivered)
  have one: "1 \<le> m_ID m" using inv assms(2) by (simp add: gw_inv_def msg_ok_def)
  have above: "\<forall>x \<in> set ms. m_ID m < m_ID x" using inv assms(2) by (simp add: gw_inv_def)
  have "m_ID m \<le> k + 1"
  proof (rule ccontr)
    assume "\<not> m_ID m \<le> k + 1"
    then have "k + 1 \<in> delivered g" using k(1) by (intro head_next [OF inv assms(2)]) auto
    with D show False by simp
  qed
  then consider "m_ID m = k + 1" | "m_ID m = k" using low assms(2) by fastforce
  then show ?thesis
  proof cases
    case 1
    have "map fst (gw_up g) \<noteq> [] \<Longrightarrow> last (map fst (gw_up g)) \<in> {1..k}"
      using D by (metis delivered_def last_in_set list.set_map)
    then have "remdups_adj (map fst (gw_up g) @ [k + 1]) = [1..k + 1]"
      using k upto_rec2 [of 1 "k + 1"] by (auto simp: remdups_adj_snoc)
    moreover have "k \<notin> m_ID ` set (gw_queue g)" using assms(2) above 1 by auto
    then have "\<forall>x \<in> set (queue (gw_cache g)). m_ID x \<noteq> k" using again by blast
    then have "\<forall>x \<in> set (queue (gw_cache g)). m_ID x \<le> k + 1 \<longrightarrow> m_ID x = k + 1" using low by force
    moreover have "\<forall>x \<in> set ms. m_ID x \<le> k + 1 \<longrightarrow> m_ID x = k + 1" using above 1 by auto
    ultimately show ?thesis
      using gw_inv_forward [OF inv assms(2)] k(1) 1 by (auto simp: gw_stutter_def up_entry_def intro!: exI [of _ "k + 1"])
  next
    case 2
    then have "map fst (gw_up g) \<noteq> []" using k one by auto
    moreover from this have "last (map fst (gw_up g)) = k"
      using k one 2 last_remdups_adj [of "map fst (gw_up g)"] upto_rec2 [of 1 k] by simp
    ultimately have "remdups_adj (map fst (gw_up g) @ [k]) = [1..k]" using k(2) by (simp add: remdups_adj_snoc)
    then show ?thesis
      using gw_inv_forward [OF inv assms(2)] k(1) low assms(2) 2
      by (auto simp: gw_stutter_def up_entry_def intro!: exI [of _ k])
  qed
qed

lemma gw_stutter_step:
  assumes "gw_stutter pfx g" "gw_step kinds pfx g g'"
  shows "gw_stutter pfx g'"
proof -
  obtain k where inv: "gw_inv pfx g" and k: "0 \<le> k" "remdups_adj (map fst (gw_up g)) = [1..k]"
    "\<forall>i. gw_unmarked g = Some i \<longrightarrow> i = k"
    "\<forall>m \<in> set (queue (gw_cache g)) \<union> set (gw_queue g). m_ID m \<le> k \<longrightarrow> m_ID m = k"
    "gw_queue g \<noteq> [] \<and> gw_unmarked g = None \<and> k \<in> m_ID ` set (queue (gw_cache g)) \<longrightarrow> k \<in> m_ID ` set (gw_queue g)"
    using assms(1) by (auto simp: gw_stutter_def)
  have inv': "gw_inv pfx g'" using inv assms(2) by (rule gw.inv_step)
  have c: "cache_inv (gw_cache g)" using inv by (simp add: gw_inv_def)
  from assms(2) show ?thesis
  proof cases
    case (capture_stored t now p)
    have "k \<le> seq (gw_cache g)"
      using delivered_bound [OF inv, of k] stutter_delivered [OF k(2)] k(1) c by (cases "k = 0") (auto simp: cache_inv_def)
    with k inv' capture_stored show ?thesis
      by (auto simp: gw_stutter_def capture_def cache_updates intro!: exI [of _ k])
  next
    case (capture_failed now t p)
    with assms(1) show ?thesis by (simp add: capture_def cache_Put_def)
  next
    case (flush_load ms)
    then have ms: "ms = take 100 (queue (gw_cache g))" using c by (simp add: Pending_queue)
    have "k \<in> m_ID ` set ms" if x: "x \<in> set (queue (gw_cache g))" "m_ID x = k" for x
    proof -
      obtain y ys where q: "queue (gw_cache g) = y # ys" using x(1) by (cases "queue (gw_cache g)") auto
      have "m_ID y \<le> k" using queue_sorted [OF c] x q by auto
      then have "m_ID y = k" using k(4) q by simp
      then show ?thesis unfolding ms q by simp
    qed
    moreover have "set ms \<subseteq> set (queue (gw_cache g))" unfolding ms by (rule set_take_subset)
    ultimately show ?thesis
      using k inv' flush_load by (auto simp: gw_stutter_def intro!: exI [of _ k])
  next
    case (forward m ms)
    with assms(1) show ?thesis by (simp add: gw_stutter_forward)
  next
    case forward_failed
    with k inv' show ?thesis by (auto simp: gw_stutter_def intro!: exI [of _ k])
  next
    case (mark i now)
    with k inv' show ?thesis by (auto simp: gw_stutter_def sqlite.mark_pending [OF c] intro!: exI [of _ k])
  next
    case (mark_failed i)
    with k inv' show ?thesis by (auto simp: gw_stutter_def intro!: exI [of _ k])
  next
    case (cleanup ok now retention)
    have "queue (cleanupSent ok now retention (gw_cache g)) = queue (gw_cache g)" using c by (rule cleanupSent_queue)
    with k inv' cleanup show ?thesis by (auto simp: gw_stutter_def intro!: exI [of _ k])
  next
    case restart
    with k inv' show ?thesis by (auto simp: gw_stutter_def intro!: exI [of _ k])
  qed
qed

interpretation gw_stutter: keeps_invariant "gw_step kinds pfx" "gw_stutter pfx" for kinds pfx
  by unfold_locales (rule gw_stutter_step)

lemma gw_reachable_stutter: "gw_reachable kinds pfx g \<Longrightarrow> gw_stutter pfx g"
  unfolding gw_reachable_def
  by (erule gw_stutter.inv_steps) (simp add: gw_stutter_def gw_inv_init, simp add: gw_init_def queue_def, rule exI [of _ 0], simp)

lemma stutter_log:
  assumes "gw_stutter pfx g"
  shows "\<exists>n \<le> length (gw_captured g). remdups_adj (map fst (gw_up g)) = [1..int n] \<and>
    map snd (gw_up g) = map (\<lambda>i. case gw_captured g ! nat (i - 1) of (t, p) \<Rightarrow> (upstreamTopic t pfx, p)) (map fst (gw_up g))"
proof -
  obtain k where inv: "gw_inv pfx g" and k: "0 \<le> k" "remdups_adj (map fst (gw_up g)) = [1..k]"
    using assms by (auto simp: gw_stutter_def)
  have "k \<le> int (length (gw_captured g))"
    using delivered_bound [OF inv, of k] stutter_delivered [OF k(2)] inv by (cases "k = 0") (use k(1) in \<open>auto simp: gw_inv_def\<close>)
  moreover have "snd e = (case gw_captured g ! nat (fst e - 1) of (t, p) \<Rightarrow> (upstreamTopic t pfx, p))" if "e \<in> set (gw_up g)" for e
  proof -
    have "up_ok pfx g e" using inv that by (simp add: gw_inv_def)
    then show ?thesis by (cases e) (simp add: up_ok_def split: prod.splits)
  qed
  ultimately show ?thesis using k by (intro exI [of _ "nat k"]) auto
qed

section \<open>The platform's side\<close>

text \<open>
  Handling a sequence of messages; \<open>arr j\<close> holds the inputs of the handler for message \<open>j\<close>: whether
  Redis accepts the write, the order of its loop over the devices, the readings of the clock.
\<close>

type_synonym arrival = "bool \<times> string list \<times> (nat \<Rightarrow> time)"

fun uplink :: "MqttEnv \<Rightarrow> (nat \<Rightarrow> arrival) \<Rightarrow> nat \<Rightarrow> (string \<times> string) list \<Rightarrow> Client \<Rightarrow> Client" where
  "uplink env arr n [] c = c"
| "uplink env arr n (m # ms) c =
     (case arr n of (ok, ks, clk) \<Rightarrow> uplink env arr (Suc n) ms (handleMessage env ok ks clk (fst m) (snd m) c))"

definition verified :: "MqttEnv \<Rightarrow> Client \<Rightarrow> arrival \<Rightarrow> string \<times> string \<Rightarrow> bool" where
  "verified env c a m \<longleftrightarrow> (\<forall>parsed. topic_Parse (fst m) = Some parsed \<and> requiresDeviceAuth (tp_Kind parsed) \<longrightarrow>
     VerifyPayload (me_decode env) (me_encode env) (me_decode_auth env) (me_mac env) (fst m) (tp_DeviceID parsed)
       (snd m) (mc_keys c) (snd (snd a) 0) (mc_maxSkew c) = None)"

text \<open>A telemetry message that names its time, on a topic with a site.\<close>

definition dated :: "MqttEnv \<Rightarrow> string \<times> string \<Rightarrow> bool" where
  "dated env m \<longleftrightarrow> (\<forall>parsed t. topic_Parse (fst m) = Some parsed \<and> tp_Kind parsed = ''telemetry'' \<and>
     me_telemetry env (snd m) = Some t \<longrightarrow> tp_SiteID parsed \<noteq> [] \<and> t_Timestamp t \<noteq> 0)"

text \<open>What such a message does to the latest telemetry.\<close>

definition tele_file :: "MqttEnv \<Rightarrow> (string \<rightharpoonup> Telemetry) \<Rightarrow> string \<times> string \<Rightarrow> (string \<rightharpoonup> Telemetry)" where
  "tele_file env tm m =
     (case topic_Parse (fst m) of
        None \<Rightarrow> tm
      | Some parsed \<Rightarrow>
          if tp_Kind parsed \<noteq> ''telemetry'' then tm
          else case me_telemetry env (snd m) of
            None \<Rightarrow> tm
          | Some t \<Rightarrow> tm(stateKey (tp_SiteID parsed) (tp_DeviceID parsed) \<mapsto>
              t\<lparr>t_SiteID := tp_SiteID parsed, t_DeviceID := tp_DeviceID parsed, t_Type := tp_DeviceType parsed\<rparr>))"

text \<open>What an acknowledgement does to the history of commands.\<close>

definition ack_file :: "MqttEnv \<Rightarrow> CommandRecord list \<Rightarrow> string \<times> string \<Rightarrow> CommandRecord list" where
  "ack_file env h m =
     (case topic_Parse (fst m) of
        None \<Rightarrow> h
      | Some parsed \<Rightarrow>
          if tp_Kind parsed \<noteq> ''command/ack'' then h
          else case me_ack env (snd m) of
            None \<Rightarrow> h
          | Some ack \<Rightarrow> update_first (ackMatches (tp_DeviceID parsed) ack) (ackRecord 0 ack) h)"

text \<open>The two together, as the platform shows them; and a message filed in both.\<close>

definition filed :: "Client \<Rightarrow> (string \<rightharpoonup> Telemetry) \<times> CommandRecord list" where
  "filed c = (telemetry (mc_store c), map unstamped (Commands (mc_store c)))"

definition file_msg :: "MqttEnv \<Rightarrow> (string \<rightharpoonup> Telemetry) \<times> CommandRecord list \<Rightarrow> string \<times> string \<Rightarrow>
    (string \<rightharpoonup> Telemetry) \<times> CommandRecord list" where
  "file_msg env v m = (tele_file env (fst v) m, ack_file env (snd v) m)"

lemma file_msg_twice: "file_msg env (file_msg env v m) m = file_msg env v m"
proof -
  have "tele_file env (tele_file env tm m) m = tele_file env tm m" for tm
    by (simp add: tele_file_def split: option.split)
  moreover have "ack_file env (ack_file env h m) m = ack_file env h m" for h
    by (auto simp: ack_file_def ackMatches_def ackRecord_def intro: update_first_idem split: option.split)
  ultimately show ?thesis by (simp add: file_msg_def)
qed

lemma handleMessage_frame:
  "mc_keys (handleMessage env ok ks clk t p c) = mc_keys c \<and> mc_maxSkew (handleMessage env ok ks clk t p c) = mc_maxSkew c"
  by (simp add: handleMessage_def handle_telemetry_def handle_ack_def handle_event_def incrementRejected_def Let_def
      split: option.split prod.split)

lemma handleMessage_telemetry:
  assumes "verified env c (ok, ks, clk) m" "dated env m"
  shows "telemetry (mc_store (handleMessage env ok ks clk (fst m) (snd m) c)) = tele_file env (telemetry (mc_store c)) m"
proof (cases "topic_Parse (fst m)")
  case (Some parsed)
  show ?thesis
  proof (cases "tp_Kind parsed = ''telemetry''")
    case True
    with Some assms show ?thesis
      by (auto simp: handleMessage_def verified_def dated_def tele_file_def handle_telemetry_def Let_def split_beta
          PutTelemetry_resolved memTelemetry_def split: option.split)
  next
    case False
    with Some show ?thesis
      by (auto simp: handleMessage_def tele_file_def handle_ack_def handle_event_def incrementRejected_def Let_def
          store_PutCommandAck_def PutEvent_def split: option.split)
  qed
qed (simp add: handleMessage_def tele_file_def)

lemma handleMessage_history:
  assumes "verified env c (ok, ks, clk) m"
  shows "map unstamped (Commands (mc_store (handleMessage env ok ks clk (fst m) (snd m) c))) =
    ack_file env (map unstamped (Commands (mc_store c))) m"
proof (cases "topic_Parse (fst m)")
  case (Some parsed)
  have tele: "commands (fst (PutTelemetry w ok ks s t db)) = commands s" for w s t db
    by (simp add: PutTelemetry_def memTelemetry_def Let_def split_beta)
  show ?thesis
  proof (cases "tp_Kind parsed = ''command/ack''")
    case True
    with Some assms show ?thesis
      by (auto simp: handleMessage_def verified_def requiresDeviceAuth_def ack_file_def handle_ack_def Commands_def
          store_PutCommandAck_def unstamped_update Let_def split: option.split)
  next
    case False
    with Some show ?thesis
      by (auto simp: handleMessage_def ack_file_def handle_telemetry_def handle_event_def incrementRejected_def Let_def
          split_beta tele Commands_def PutEvent_def split: option.split)
  qed
qed (simp add: handleMessage_def ack_file_def)

lemma uplink_filed:
  assumes "\<forall>j < length ms. verified env c (arr (n + j)) (ms ! j)" "\<forall>m \<in> set ms. dated env m"
  shows "filed (uplink env arr n ms c) = foldl (file_msg env) (filed c) ms"
  using assms
proof (induction ms arbitrary: n c)
  case (Cons m ms)
  obtain ok ks clk where a: "arr n = (ok, ks, clk)" by (metis prod_cases3)
  let ?c = "handleMessage env ok ks clk (fst m) (snd m) c"
  have "verified env c (ok, ks, clk) m" using Cons.prems(1) a by force
  then have m: "filed ?c = file_msg env (filed c) m"
    using Cons.prems(2) by (simp add: filed_def file_msg_def handleMessage_telemetry handleMessage_history)
  have "\<forall>j < length ms. verified env ?c (arr (Suc n + j)) (ms ! j)"
    using Cons.prems(1) by (force simp: verified_def handleMessage_frame)
  with Cons.IH [of ?c "Suc n"] Cons.prems(2) show ?case by (simp add: a m)
qed simp

lemma foldl_remdups_adj:
  assumes "\<And>s x. f (f s x) x = f s x"
  shows "foldl f s (remdups_adj xs) = foldl f s xs"
  by (induction xs arbitrary: s rule: remdups_adj.induct) (simp_all add: assms)

lemma map_nth_upto: "n \<le> length xs \<Longrightarrow> map (\<lambda>i. xs ! nat (i - 1)) [1..int n] = take n xs"
  by (rule nth_equalityI) (simp_all add: nth_upto)

text \<open>A message that is refused on arrival because it was signed too long ago.\<close>

definition expired :: "MqttEnv \<Rightarrow> Client \<Rightarrow> arrival \<Rightarrow> string \<times> string \<Rightarrow> bool" where
  "expired env c a m \<longleftrightarrow> mc_keys c \<noteq> Map.empty \<and> 0 < mc_maxSkew c \<and> mc_maxSkew c < 2 ^ 63 - 1 \<and>
     (\<exists>parsed. topic_Parse (fst m) = Some parsed \<and> requiresDeviceAuth (tp_Kind parsed) \<and>
      (\<forall>msg rawAuth auth. me_decode env (snd m) = Some (Some msg) \<and> msg Field = Some rawAuth \<and>
         me_decode_auth env rawAuth = Some auth \<longrightarrow> mc_maxSkew c < snd (snd a) 0 - time_Unix (au_Timestamp auth)))"

lemma handleMessage_expired:
  assumes "expired env c (ok, ks, clk) m"
  shows "handleMessage env ok ks clk (fst m) (snd m) c = incrementRejected ''auth'' c"
proof -
  obtain parsed where p: "topic_Parse (fst m) = Some parsed" "requiresDeviceAuth (tp_Kind parsed)"
    "\<And>msg rawAuth auth. me_decode env (snd m) = Some (Some msg) \<Longrightarrow> msg Field = Some rawAuth \<Longrightarrow>
       me_decode_auth env rawAuth = Some auth \<Longrightarrow> mc_maxSkew c < clk 0 - time_Unix (au_Timestamp auth)"
    using assms by (auto simp: expired_def)
  have "VerifyPayload (me_decode env) (me_encode env) (me_decode_auth env) (me_mac env) (fst m) (tp_DeviceID parsed)
      (snd m) (mc_keys c) (clk 0) (mc_maxSkew c) \<noteq> None"
  proof
    assume v: "VerifyPayload (me_decode env) (me_encode env) (me_decode_auth env) (me_mac env) (fst m) (tp_DeviceID parsed)
      (snd m) (mc_keys c) (clk 0) (mc_maxSkew c) = None"
    have "mc_keys c \<noteq> Map.empty" "0 < mc_maxSkew c" "mc_maxSkew c < 2 ^ 63 - 1" using assms by (auto simp: expired_def)
    from verified_fields [OF v this(1,3)] this(2) p(3) show False by fastforce
  qed
  then show ?thesis using p(1,2) by (simp add: handleMessage_def)
qed

lemma uplink_expired:
  assumes "\<forall>j < length ms. expired env c (arr (n + j)) (ms ! j)"
  shows "let c' = uplink env arr n ms c in
    mc_store c' = mc_store c \<and> mc_redis c' = mc_redis c \<and> mc_effects c' = mc_effects c \<and>
    (case mc_rejects c' ''auth'' of None \<Rightarrow> 0 | Some r \<Rightarrow> r) =
      (case mc_rejects c ''auth'' of None \<Rightarrow> 0 | Some r \<Rightarrow> r) + of_nat (length ms)"
  using assms
proof (induction ms arbitrary: n c)
  case (Cons m ms)
  obtain ok ks clk where a: "arr n = (ok, ks, clk)" by (metis prod_cases3)
  let ?c = "incrementRejected ''auth'' c"
  have "expired env c (ok, ks, clk) m" using Cons.prems a by force
  then have m: "handleMessage env ok ks clk (fst m) (snd m) c = ?c" by (rule handleMessage_expired)
  have "\<forall>j < length ms. expired env ?c (arr (Suc n + j)) (ms ! j)"
    using Cons.prems by (force simp: expired_def incrementRejected_def)
  from Cons.IH [OF this] show ?case by (simp add: a m incrementRejected_def Let_def algebra_simps)
qed simp

section \<open>Properties\<close>

text \<open>
  C14. The gateway is transparent for telemetry and acknowledgements: whatever interleaving of
  captures, flushes, failures, lost marks and restarts has happened, a platform that handles the
  messages the upstream broker has accepted, without a topic prefix, each verified when it arrives
  and telemetry naming its time, has the latest telemetry and the command history (but for the times
  of its updates) that the first captured messages give, each taken once and in the order of capture;
  so it has what it would have if it had received these messages directly, at any times at which they
  are verified.
\<close>
theorem uplink_converges:
  assumes "gw_reachable kinds pfx g" "strings_Trim pfx (CHR ''/'') = []"
    and "\<forall>m \<in> set (gw_captured g). dated env m"
    and "\<forall>j < length (gw_up g). verified env c (arr j) (snd (gw_up g ! j))"
  shows "\<exists>n \<le> length (gw_captured g). fst ` set (gw_up g) = {1..int n} \<and>
    filed (uplink env arr 0 (map snd (gw_up g)) c) = foldl (file_msg env) (filed c) (take n (gw_captured g)) \<and>
    (\<forall>arr'. (\<forall>j < n. verified env c (arr' j) (gw_captured g ! j)) \<longrightarrow>
       filed (uplink env arr' 0 (take n (gw_captured g)) c) = filed (uplink env arr 0 (map snd (gw_up g)) c))"
proof -
  let ?ids = "map fst (gw_up g)" and ?F = "\<lambda>i. gw_captured g ! nat (i - 1)" and ?f = "file_msg env"
  obtain n where n: "n \<le> length (gw_captured g)" "remdups_adj ?ids = [1..int n]" "map snd (gw_up g) = map ?F ?ids"
    using stutter_log [OF gw_reachable_stutter [OF assms(1)]] assms(2) by (auto simp: upstreamTopic_def split_beta)
  have ids: "set ?ids = {1..int n}" using n(2) by (metis remdups_adj_set set_upto)
  have "\<forall>m \<in> set (map snd (gw_up g)). dated env m"
    using assms(3) ids n(1) unfolding n(3) by (auto simp del: map_map)
  then have "filed (uplink env arr 0 (map snd (gw_up g)) c) = foldl ?f (filed c) (map snd (gw_up g))"
    using assms(4) by (intro uplink_filed) auto
  also have "\<dots> = foldl (\<lambda>v i. ?f v (?F i)) (filed c) ?ids" unfolding n(3) by (rule foldl_map)
  also have "\<dots> = foldl (\<lambda>v i. ?f v (?F i)) (filed c) [1..int n]"
    unfolding n(2) [symmetric] by (rule foldl_remdups_adj [symmetric]) (rule file_msg_twice)
  also have "\<dots> = foldl ?f (filed c) (map ?F [1..int n])" by (rule foldl_map [symmetric])
  also have "\<dots> = foldl ?f (filed c) (take n (gw_captured g))" using n(1) by (simp only: map_nth_upto)
  finally have up: "filed (uplink env arr 0 (map snd (gw_up g)) c) = foldl ?f (filed c) (take n (gw_captured g))" .
  have "filed (uplink env arr' 0 (take n (gw_captured g)) c) = foldl ?f (filed c) (take n (gw_captured g))"
    if "\<forall>j < n. verified env c (arr' j) (gw_captured g ! j)" for arr'
    using that assms(3) n(1) by (intro uplink_filed) (auto dest: in_set_takeD)
  with n(1) ids up show ?thesis by (intro exI [of _ n]) auto
qed

text \<open>
  Events are different: a complete event that is forwarded again is listed twice by the running
  platform, which does not look at its id, and once in the table, whose key it is.
\<close>
theorem repeated_event_listed_twice:
  assumes "topic_Parse t = Some parsed" "tp_Kind parsed = ''event''" "me_event env p = Some e"
    and "e_EventID e \<noteq> []" "e_Timestamp e \<noteq> 0" "\<not> time_IsZero (e_CreatedAt e)"
    and "verified env c (arr 0) (t, p)" "verified env c (arr 1) (t, p)" "mc_recorder c"
    and "mc_effects (uplink env arr 0 [(t, p), (t, p)] c) = mc_effects c @ es"
  shows "(\<exists>e'. e_EventID e' = e_EventID e \<and> es = [RecordEvent e', RecordEvent e'] \<and>
      Events (mc_store (uplink env arr 0 [(t, p), (t, p)] c)) = take 200 (e' # e' # Events (mc_store c))) \<and>
    replay jsonb (\<lambda>_. (True, now)) 0 es r = replay jsonb (\<lambda>_. (True, now)) 0 (take 1 es) r"
proof -
  let ?e = "e\<lparr>e_SiteID := tp_SiteID parsed, e_DeviceID := tp_DeviceID parsed, e_DeviceType := tp_DeviceType parsed\<rparr>"
  have step: "handleMessage env ok ks clk t p c' =
      c'\<lparr>mc_store := PutEvent (mc_store c') ?e, mc_effects := mc_effects c' @ [RecordEvent ?e]\<rparr>"
    if "verified env c' (ok, ks, clk) (t, p)" "mc_recorder c'" for ok ks clk c'
    using that assms(1-6)
    by (auto simp: handleMessage_def verified_def handle_event_def Let_def)
  obtain ok ks clk ok' ks' clk' where a: "arr 0 = (ok, ks, clk)" "arr 1 = (ok', ks', clk')" by (metis prod_cases3)
  let ?c = "handleMessage env ok ks clk t p c"
  have "verified env ?c (ok', ks', clk') (t, p)" "mc_recorder ?c"
    using assms(7-9) a by (auto simp: verified_def handleMessage_frame step)
  then have u: "uplink env arr 0 [(t, p), (t, p)] c =
      ?c\<lparr>mc_store := PutEvent (mc_store ?c) ?e, mc_effects := mc_effects ?c @ [RecordEvent ?e]\<rparr>"
    using a by (simp add: step)
  have c: "?c = c\<lparr>mc_store := PutEvent (mc_store c) ?e, mc_effects := mc_effects c @ [RecordEvent ?e]\<rparr>"
    using assms(7,9) a by (intro step) auto
  from u c assms(10) have es: "es = [RecordEvent ?e, RecordEvent ?e]" by simp
  have "Events (mc_store (uplink env arr 0 [(t, p), (t, p)] c)) = take 200 (?e # ?e # Events (mc_store c))"
    unfolding u c by (simp add: Events_def PutEvent_def push_front_capped_take take_Cons')
  moreover have "replay jsonb (\<lambda>_. (True, now)) 0 es r = replay jsonb (\<lambda>_. (True, now)) 0 (take 1 es) r"
    unfolding es by (simp add: repo_PutEvent_def Let_def split: option.split)
  ultimately show ?thesis using es by auto
qed

text \<open>
  C17. Buffered messages expire: when the platform has device keys and a maximal skew, a message that
  waits in the gateway for longer than that after it was signed is refused by the platform, which
  only counts it, while the gateway takes it off its queue: no message is filed, and none of those
  forwarded waits any more. The default skew is five minutes, the default retention of the
  gateway a day.
\<close>
theorem buffered_messages_expire:
  assumes "gw_reachable kinds pfx g" "\<not> gw_risk g" "at_rest g"
    and "mc_keys c \<noteq> Map.empty" "0 < mc_maxSkew c" "mc_maxSkew c < 2 ^ 63 - 1"
    and "\<forall>j < length (gw_up g). \<exists>parsed. topic_Parse (fst (snd (gw_up g ! j))) = Some parsed \<and>
      requiresDeviceAuth (tp_Kind parsed) \<and>
      (\<forall>msg rawAuth auth. me_decode env (snd (snd (gw_up g ! j))) = Some (Some msg) \<and> msg Field = Some rawAuth \<and>
         me_decode_auth env rawAuth = Some auth \<longrightarrow>
         mc_maxSkew c < snd (snd (arr j)) 0 - time_Unix (au_Timestamp auth))"
  shows "let c' = uplink env arr 0 (map snd (gw_up g)) c in
    mc_store c' = mc_store c \<and> mc_redis c' = mc_redis c \<and> mc_effects c' = mc_effects c \<and>
    (case mc_rejects c' ''auth'' of None \<Rightarrow> 0 | Some r \<Rightarrow> r) =
      (case mc_rejects c ''auth'' of None \<Rightarrow> 0 | Some r \<Rightarrow> r) + of_nat (length (gw_up g)) \<and>
    (\<forall>m \<in> set (queue (gw_cache g)). m_ID m \<notin> fst ` set (gw_up g))"
proof -
  have "\<forall>j < length (map snd (gw_up g)). expired env c (arr (0 + j)) (map snd (gw_up g) ! j)"
    using assms(4-7) unfolding expired_def by (auto simp: nth_map)
  from uplink_expired [OF this] gw_reachable_exact [OF assms(1)] assms(2,3) show ?thesis
    by (auto simp: Let_def gw_exact_def at_rest_def delivered_def)
qed

text \<open>
  A topic prefix hides the forwarded messages: when its first level is not vpp, a gateway on the same
  broker does not capture them again, and a platform does not handle them. Without a prefix a
  forwarded message of a captured kind is captured again.
\<close>
theorem prefix_hides:
  assumes "strings_Trim pfx (CHR ''/'') \<noteq> []" "hd (strings_Split (CHR ''/'') (strings_Trim pfx (CHR ''/''))) \<noteq> ''vpp''"
  shows "capture kinds ok now (upstreamTopic t pfx) p cache = cache \<and>
    handleMessage env rok ks clk (upstreamTopic t pfx) p c = c \<and>
    (captured_kind kinds t \<longrightarrow> capture kinds True now (upstreamTopic t []) p cache = fst (cache_Put True now t p cache))"
proof -
  have "hd (strings_Split (CHR ''/'') (upstreamTopic t pfx)) \<noteq> ''vpp''"
    using assms by (simp add: upstreamTopic_def Let_def hd_strings_Split_append)
  then have "topic_Parse (upstreamTopic t pfx) = None" by (simp add: topic_Parse_def Let_def hd_conv_nth)
  moreover have "upstreamTopic t [] = t" by (simp add: upstreamTopic_def strings_Trim_def)
  ultimately show ?thesis by (simp add: capture_def captured_kind_def handleMessage_def)
qed

section \<open>Witnesses\<close>

text \<open>The example of the gateway, after its message has been marked, in front of the example client.\<close>

definition gw_example_done :: Gateway where
  "gw_example_done = gw_example_up\<lparr>gw_cache := fst (cache_MarkSent True 8 1 (gw_cache gw_example_up)), gw_unmarked := None\<rparr>"

lemma gw_example_done:
  "gw_reachable [''telemetry'' \<mapsto> True] [] gw_example_done" "at_rest gw_example_done" "\<not> gw_risk gw_example_done"
  "gw_up gw_example_done = [(1, ''vpp/s/pv/p1/telemetry'', ''x'')]"
  "gw_captured gw_example_done = [(''vpp/s/pv/p1/telemetry'', ''x'')]"
proof -
  have "gw_step [''telemetry'' \<mapsto> True] [] gw_example_up gw_example_done"
    unfolding gw_example_done_def by (rule mark) (simp add: gw_example_up_def)
  then show "gw_reachable [''telemetry'' \<mapsto> True] [] gw_example_done"
    using gw_example_forwarded unfolding gw_reachable_def by simp
qed (simp_all add: gw_example_done_def gw_example_up_def gw_example_def gw_init_def at_rest_def)

lemma example_topic: "topic_Parse ''vpp/s/pv/p1/telemetry'' =
    Some \<lparr>tp_SiteID = ''s'', tp_DeviceType = ''pv'', tp_DeviceID = ''p1'', tp_Kind = ''telemetry''\<rparr>"
  by (simp add: topic_Parse_def)

theorem uplink_converges_witness:
  "map_option t_Seq (fst (filed (uplink (ex_env\<lparr>me_telemetry := \<lambda>_. Some (zero_Telemetry\<lparr>t_Timestamp := 9, t_Seq := 4\<rparr>)\<rparr>)
     (\<lambda>_. (True, [], \<lambda>_. 0)) 0 (map snd (gw_up gw_example_done)) ex_client)) (stateKey ''s'' ''p1'')) = Some 4"
proof -
  let ?env = "ex_env\<lparr>me_telemetry := \<lambda>_. Some (zero_Telemetry\<lparr>t_Timestamp := 9, t_Seq := 4\<rparr>)\<rparr>"
  have keys: "\<not> keys_Enabled (mc_keys ex_client)" by (simp add: keys_Enabled_def ex_client_def NewClient_def)
  have dated: "\<forall>m \<in> set (gw_captured gw_example_done). dated ?env m"
    by (simp add: gw_example_done dated_def example_topic)
  have trim: "strings_Trim [] (CHR ''/'') = []" by (simp add: strings_Trim_def strings_TrimLeft_def)
  have ver: "verified ?env ex_client a m" for a m by (simp add: verified_def VerifyPayload_def keys)
  obtain n where n: "fst ` set (gw_up gw_example_done) = {1..int n}"
    "filed (uplink ?env (\<lambda>_. (True, [], \<lambda>_. 0)) 0 (map snd (gw_up gw_example_done)) ex_client) =
      foldl (file_msg ?env) (filed ex_client) (take n (gw_captured gw_example_done))"
    using uplink_converges [OF gw_example_done(1) trim dated, of ex_client "\<lambda>_. (True, [], \<lambda>_. 0)"] ver by blast
  have "card {1..int n} = 1" using n(1) by (simp add: gw_example_done flip: n(1))
  then have "n = 1" by simp
  with n(2) show ?thesis by (simp add: gw_example_done file_msg_def tele_file_def example_topic)
qed

theorem buffered_messages_expire_witness:
  "mc_rejects (uplink ex_env (\<lambda>_. (True, [], \<lambda>_. time_Unix 1000 + 600 * Second)) 0 (map snd (gw_up gw_example_done))
     (ex_client\<lparr>mc_keys := [''p1'' \<mapsto> ''k''], mc_maxSkew := 300 * Second\<rparr>)) ''auth'' = Some 1"
proof -
  let ?c = "ex_client\<lparr>mc_keys := [''p1'' \<mapsto> ''k''], mc_maxSkew := 300 * Second\<rparr>"
  let ?arr = "\<lambda>_. (True, [], \<lambda>_. time_Unix 1000 + 600 * Second)"
  have "\<forall>j < length (gw_up gw_example_done). \<exists>parsed. topic_Parse (fst (snd (gw_up gw_example_done ! j))) = Some parsed \<and>
      requiresDeviceAuth (tp_Kind parsed) \<and>
      (\<forall>msg rawAuth auth. me_decode ex_env (snd (snd (gw_up gw_example_done ! j))) = Some (Some msg) \<and> msg Field = Some rawAuth \<and>
         me_decode_auth ex_env rawAuth = Some auth \<longrightarrow>
         mc_maxSkew ?c < snd (snd (?arr j)) 0 - time_Unix (au_Timestamp auth))"
    by (simp add: gw_example_done example_topic requiresDeviceAuth_def ex_env_def)
  from buffered_messages_expire [OF gw_example_done(1,3,2) _ _ _ this]
  have "(case mc_rejects (uplink ex_env ?arr 0 (map snd (gw_up gw_example_done)) ?c) ''auth'' of None \<Rightarrow> 0 | Some r \<Rightarrow> r) = (1 :: 64 word)"
    by (simp add: Let_def gw_example_done ex_client_def NewClient_def)
  then show ?thesis by (auto split: option.splits)
qed

end
