(* ===== verification/Command_Race.thy ===== *)
theory Command_Race
  imports Command_History
begin

text \<open>
  A command and its acknowledgements race: the platform files a command only after the broker has
  confirmed it (\<open>PublishCommand\<close> in internal/mqtt/client.go), so the device's answer can be handled
  before. The log of the recorder's calls shows in which order they were handled. This theory says
  what the history in memory and the table of commands hold afterwards, for every order.
\<close>

section \<open>What the log says about a command\<close>

text \<open>The last acknowledgement of the command with id \<open>i\<close>, and what a record then shows.\<close>

fun answer :: "string \<Rightarrow> client_effect list \<Rightarrow> CommandAck option" where
  "answer i [] = None"
| "answer i (RecordAck site ty dev ack # es) =
     (case answer i es of Some a \<Rightarrow> Some a | None \<Rightarrow> if a_CommandID ack = i then Some ack else None)"
| "answer i (e # es) = answer i es"

definition outcome :: "CommandAck option \<Rightarrow> string \<times> CommandAck option" where
  "outcome a = ((case a of None \<Rightarrow> ''issued'' | Some b \<Rightarrow> if a_OK b then ''acked'' else ''failed''), a)"

text \<open>A later call: no other command with the id, and acknowledgements of it from its device only.\<close>

fun names_only :: "string \<Rightarrow> string \<Rightarrow> client_effect \<Rightarrow> bool" where
  "names_only i dev (RecordIssued site d cmd) \<longleftrightarrow> c_CommandID cmd \<noteq> i"
| "names_only i dev (RecordAck site ty d ack) \<longleftrightarrow> (a_CommandID ack = i \<longrightarrow> d = dev \<and> int64_ok (a_Timestamp ack + unix_to_internal))"
| "names_only i dev e \<longleftrightarrow> True"

lemma answer_append: "answer i (xs @ ys) = (case answer i ys of Some a \<Rightarrow> Some a | None \<Rightarrow> answer i xs)"
proof (induction xs)
  case (Cons x xs)
  then show ?case by (cases x) (auto split: option.splits)
qed (simp split: option.split)

lemma answer_Cons: "answer i (e # es) = (case answer i es of Some a \<Rightarrow> Some a | None \<Rightarrow> answer i [e])"
  using answer_append [of i "[e]" es] by simp

lemma answer_id: "answer i es = Some a \<Longrightarrow> a_CommandID a = i"
proof (induction es)
  case (Cons e es)
  then show ?case by (cases e) (auto split: option.splits if_splits)
qed simp

section \<open>In memory\<close>

lemma filter_update_first_other:
  assumes "\<And>x. M x \<Longrightarrow> \<not> P x" "\<And>x. P (f x) = P x"
  shows "filter P (update_first M f xs) = filter P xs"
  by (induction xs) (auto simp: assms)

lemma filter_update_first_one:
  assumes "filter P xs = [x]" "M x" "\<And>y. M y \<Longrightarrow> P y" "\<And>y. P (f y) = P y"
  shows "filter P (update_first M f xs) = [f x]"
  using assms(1)
proof (induction xs)
  case (Cons y ys)
  show ?case
  proof (cases "P y")
    case True
    with Cons.prems have "y = x" "filter P ys = []" by simp_all
    with assms(2) True show ?thesis by (simp add: assms(4))
  next
    case False
    then have "\<not> M y" using assms(3) by blast
    with False Cons show ?thesis by simp
  qed
qed simp

lemma hist_absent:
  assumes "filter (\<lambda>x. rec_id x = i) h = []" "\<forall>e \<in> set es. names_only i dev e"
  shows "filter (\<lambda>x. rec_id x = i) (foldl hist_step h es) = []"
  using assms
proof (induction es arbitrary: h)
  case (Cons e es)
  have "filter (\<lambda>x. rec_id x = i) (hist_step h e) = []"
  proof (cases e)
    case (RecordIssued site d cmd)
    with Cons.prems show ?thesis by (auto simp: issuedRecord_def filter_empty_conv dest: in_set_takeD)
  next
    case (RecordAck site ty d ack)
    have "map rec_id (hist_step h e) = map rec_id h"
      unfolding RecordAck hist_step.simps by (rule map_update_first_same) (simp add: ackRecord_def)
    then have "rec_id ` set (hist_step h e) = rec_id ` set h" by (metis list.set_map)
    moreover have "i \<notin> rec_id ` set h" using Cons.prems(1) by (auto simp: filter_empty_conv)
    ultimately show ?thesis by (auto simp: filter_empty_conv simp del: hist_step.simps)
  qed (use Cons.prems in simp_all)
  with Cons show ?case by simp
qed simp

lemma hist_present:
  assumes "filter (\<lambda>x. rec_id x = i) h = [x]" "r_DeviceID x = dev" "(r_Status x, r_Ack x) = outcome a"
    and "\<forall>e \<in> set es. names_only i dev e" "length h + issues es \<le> 200"
  shows "\<exists>x. filter (\<lambda>x. rec_id x = i) (foldl hist_step h es) = [x] \<and>
    (r_Status x, r_Ack x) = outcome (case answer i es of Some b \<Rightarrow> Some b | None \<Rightarrow> a)"
  using assms
proof (induction es arbitrary: h x a)
  case (Cons e es)
  have len: "length (hist_step h e) + issues es \<le> 200" using Cons.prems(5) by (cases e) simp_all
  have id: "rec_id x = i" using Cons.prems(1) by (metis (mono_tags, lifting) filter_eq_Cons_iff)
  obtain x' where x': "filter (\<lambda>x. rec_id x = i) (hist_step h e) = [x']" "r_DeviceID x' = dev"
    "(r_Status x', r_Ack x') = outcome (case answer i [e] of Some b \<Rightarrow> Some b | None \<Rightarrow> a)"
  proof (cases e)
    case (RecordIssued site d cmd)
    with Cons.prems have "hist_step h e = issuedRecord 0 site d cmd # h" "c_CommandID cmd \<noteq> i" by simp_all
    with Cons.prems RecordIssued show ?thesis by (intro that [of x]) (simp_all add: issuedRecord_def)
  next
    case (RecordAck site ty d ack)
    show ?thesis
    proof (cases "a_CommandID ack = i")
      case True
      with RecordAck Cons.prems have "d = dev" by simp
      then have "filter (\<lambda>x. rec_id x = i) (hist_step h e) = [ackRecord 0 ack x]"
        unfolding RecordAck hist_step.simps using True id Cons.prems(2)
        by (intro filter_update_first_one [OF Cons.prems(1)]) (auto simp: ackMatches_def ackRecord_def)
      with RecordAck True Cons.prems(2) show ?thesis
        by (intro that [of "ackRecord 0 ack x"]) (simp_all add: ackRecord_def outcome_def)
    next
      case False
      then have "filter (\<lambda>x. rec_id x = i) (hist_step h e) = [x]"
        unfolding RecordAck hist_step.simps using Cons.prems(1)
        by (subst filter_update_first_other) (auto simp: ackMatches_def ackRecord_def)
      with RecordAck False Cons.prems show ?thesis by (intro that [of x]) simp_all
    qed
  qed (use Cons.prems that in auto)
  from Cons.IH [OF x' _ len] Cons.prems(4) show ?case
    by (simp add: answer_Cons [of i e es] split: option.splits)
qed simp

section \<open>In the table\<close>

definition row_shows :: "string \<Rightarrow> bool \<Rightarrow> Command \<Rightarrow> CommandAck option \<Rightarrow> command_row option \<Rightarrow> bool" where
  "row_shows dev issued cmd a row \<longleftrightarrow>
     (case row of
        None \<Rightarrow> \<not> issued \<and> a = None
      | Some w \<Rightarrow> cw_device w = dev \<and> (issued \<longrightarrow> cw_action w = c_Action cmd) \<and>
          (case a of
             None \<Rightarrow> issued \<and> cw_status w = ''issued'' \<and> cw_ack_ok w = None \<and> cw_ack_error w = None \<and> cw_ack_ts w = None
           | Some b \<Rightarrow> cw_status w = (if a_OK b then ''acked'' else ''failed'') \<and> cw_ack_ok w = Some (a_OK b) \<and>
               cw_ack_error w = Some (a_Error b) \<and> cw_ack_ts w = Some (time_Unix (a_Timestamp b)) \<and>
               int64_ok (a_Timestamp b + unix_to_internal)))"

lemma row_other:
  assumes "row_shows dev issued cmd a (tb_commands r i)" "names_only i dev e"
  shows "row_shows dev issued cmd (case answer i [e] of Some b \<Rightarrow> Some b | None \<Rightarrow> a)
    (tb_commands (record_effect jsonb (True, now) e r) i)"
proof (cases e)
  case (RecordAck site ty d ack)
  with assms show ?thesis
    by (cases "a_CommandID ack = i")
      (auto simp: row_shows_def repo_PutCommandAck_def Let_def split: option.splits)
qed (use assms in \<open>auto simp: repo_PutCommandIssued_def repo_PutEvent_def Let_def split: option.splits\<close>)

lemma row_replay:
  assumes "row_shows dev issued cmd a (tb_commands r i)" "\<forall>e \<in> set es. names_only i dev e" "\<forall>n. fst (out n)"
  shows "row_shows dev issued cmd (case answer i es of Some b \<Rightarrow> Some b | None \<Rightarrow> a) (tb_commands (replay jsonb out n es r) i)"
  using assms(1,2)
proof (induction es arbitrary: a r n)
  case (Cons e es)
  obtain now where out: "out n = (True, now)" using assms(3) by (metis prod.collapse)
  have "row_shows dev issued cmd (case answer i [e] of Some b \<Rightarrow> Some b | None \<Rightarrow> a) (tb_commands (record_effect jsonb (out n) e r) i)"
    unfolding out using Cons.prems by (intro row_other) simp_all
  from Cons.IH [OF this, of "Suc n"] Cons.prems show ?case
    by (simp add: answer_Cons [of i e es] split: option.splits)
qed simp

lemma row_issue:
  assumes "row_shows (d_ID d) False cmd a (tb_commands r (c_CommandID cmd))" "marshal_gmap (c_Params cmd) \<noteq> None"
  shows "row_shows (d_ID d) True cmd a
    (tb_commands (record_effect jsonb (True, now) (RecordIssued site d cmd) r) (c_CommandID cmd))"
  using assms by (auto simp: row_shows_def repo_PutCommandIssued_def Let_def split: option.splits)

lemma replay_append: "replay jsonb out n (xs @ ys) r = replay jsonb out (n + length xs) ys (replay jsonb out n xs r)"
  by (induction xs arbitrary: n r) simp_all

lemma row_scan:
  assumes "row_shows dev True cmd a row" "a \<noteq> None \<Longrightarrow> a_CommandID (the a) = i"
  shows "\<exists>w. row = Some w \<and> (r_Status (scan_command unm (i, w)), r_Ack (scan_command unm (i, w))) = outcome a \<and>
    c_Action (r_Command (scan_command unm (i, w))) = c_Action cmd"
  using assms by (auto simp: row_shows_def scan_command_def outcome_def pg_epoch_Unix split: option.splits)

lemma issues_append: "issues (xs @ ys) = issues xs + issues ys"
proof (induction xs)
  case (Cons x xs)
  then show ?case by (cases x) simp_all
qed simp

section \<open>Around the one publication\<close>

lemma race_history:
  assumes "foldl hist_step [] (es1 @ RecordIssued site d cmd # es2) = h" "issues (es1 @ RecordIssued site d cmd # es2) \<le> 200"
    and "\<forall>e \<in> set (es1 @ es2). names_only (c_CommandID cmd) (d_ID d) e"
  shows "\<exists>x. filter (\<lambda>x. rec_id x = c_CommandID cmd) h = [x] \<and> (r_Status x, r_Ack x) = outcome (answer (c_CommandID cmd) es2)"
proof -
  let ?i = "c_CommandID cmd" and ?P = "\<lambda>x. rec_id x = c_CommandID cmd" and ?h1 = "foldl hist_step [] es1"
  have len: "length ?h1 + Suc (issues es2) \<le> 200"
    using orderly_length [of "[]" es1] assms(2) by (simp add: issues_append)
  have "filter ?P ?h1 = []" using assms(3) by (intro hist_absent [of _ _ _ "d_ID d"]) auto
  then have "filter ?P (hist_step ?h1 (RecordIssued site d cmd)) = [issuedRecord 0 site d cmd]"
    using len by (simp add: issuedRecord_def)
  then show ?thesis
    unfolding assms(1) [symmetric] foldl_append foldl_Cons
    using hist_present [of ?i "hist_step ?h1 (RecordIssued site d cmd)" "issuedRecord 0 site d cmd" "d_ID d" None es2] assms(3) len
    by (auto simp: issuedRecord_def outcome_def split: option.splits)
qed

lemma race_table:
  assumes "\<forall>e \<in> set (es1 @ es2). names_only (c_CommandID cmd) (d_ID d) e"
    and "marshal_gmap (c_Params cmd) \<noteq> None" "\<forall>n. fst (out n)" "tb_commands r0 (c_CommandID cmd) = None"
  shows "row_shows (d_ID d) True cmd (answer (c_CommandID cmd) (es1 @ es2))
    (tb_commands (replay jsonb out 0 (es1 @ RecordIssued site d cmd # es2) r0) (c_CommandID cmd))"
proof -
  let ?i = "c_CommandID cmd" and ?r1 = "replay jsonb out 0 es1 r0"
  obtain now where out: "out (length es1) = (True, now)" using assms(3) by (metis prod.collapse)
  have "row_shows (d_ID d) False cmd None (tb_commands r0 ?i)" using assms(4) by (simp add: row_shows_def)
  then have "row_shows (d_ID d) False cmd (answer ?i es1) (tb_commands ?r1 ?i)"
    using row_replay [of "d_ID d" False cmd None r0 ?i es1 out jsonb 0] assms(1,3) by (auto split: option.splits)
  then have "row_shows (d_ID d) True cmd (answer ?i es1)
      (tb_commands (record_effect jsonb (out (length es1)) (RecordIssued site d cmd) ?r1) ?i)"
    unfolding out using assms(2) by (rule row_issue)
  then show ?thesis
    using row_replay [of "d_ID d" True cmd "answer ?i es1" _ ?i es2 out jsonb "Suc (length es1)"] assms(1,3)
    unfolding replay_append answer_append by auto
qed

section \<open>Property\<close>

text \<open>
  C13. A command and its acknowledgements in any order: when a command was issued once and only its
  device acknowledged its id, before or after the command was filed, the history in memory shows the
  last acknowledgement handled after that, the table the last one of all. So the two differ exactly
  when all acknowledgements came too early; the table is then right, the record in memory stays
  issued, and loading the table at a restart mends it.
\<close>
theorem command_race:
  assumes "(client_step env)\<^sup>*\<^sup>* c0 c" "mc_recorder c0" "mc_effects c0 = []" "Commands (mc_store c0) = []"
    and "mc_effects c = es1 @ RecordIssued site d cmd # es2" "issues (mc_effects c) \<le> 200"
    and "\<forall>e \<in> set (es1 @ es2). names_only (c_CommandID cmd) (d_ID d) e"
    and "marshal_gmap (c_Params cmd) \<noteq> None" "\<forall>n. fst (out n)" "tb_commands r0 (c_CommandID cmd) = None"
  shows "\<exists>x w. filter (\<lambda>x. rec_id x = c_CommandID cmd) (Commands (mc_store c)) = [x] \<and>
    tb_commands (replay jsonb out 0 (mc_effects c) r0) (c_CommandID cmd) = Some w \<and>
    (let y = scan_command unm (c_CommandID cmd, w) in
     (r_Status x, r_Ack x) = outcome (answer (c_CommandID cmd) es2) \<and>
     (r_Status y, r_Ack y) = outcome (answer (c_CommandID cmd) (es1 @ es2)) \<and> c_Action (r_Command y) = c_Action cmd \<and>
     ((r_Status x, r_Ack x) = (r_Status y, r_Ack y) \<longleftrightarrow>
        answer (c_CommandID cmd) es2 \<noteq> None \<or> answer (c_CommandID cmd) es1 = None))"
proof -
  let ?i = "c_CommandID cmd" and ?P = "\<lambda>x. rec_id x = c_CommandID cmd"
  have "logged c" using history.inv_steps [OF assms(1)] assms(2-4) by (simp add: logged_def)
  then have "foldl hist_step [] (es1 @ RecordIssued site d cmd # es2) = map unstamped (Commands (mc_store c))"
    using assms(5) by (simp add: logged_def)
  from race_history [OF this] assms(5-7) obtain x0 where x0: "filter ?P (map unstamped (Commands (mc_store c))) = [x0]"
    "(r_Status x0, r_Ack x0) = outcome (answer ?i es2)" by auto
  have "filter ?P (map unstamped (Commands (mc_store c))) = map unstamped (filter ?P (Commands (mc_store c)))"
    by (simp add: filter_map comp_def unstamped_def)
  with x0(1) obtain x where x: "filter ?P (Commands (mc_store c)) = [x]" "unstamped x = x0" by auto
  have mem: "(r_Status x, r_Ack x) = outcome (answer ?i es2)" using x0(2) x(2) by (auto simp: unstamped_def)
  from row_scan [OF race_table [OF assms(7-10), of jsonb site], of ?i unm] answer_id [of ?i "es1 @ es2"] obtain w where
    "tb_commands (replay jsonb out 0 (mc_effects c) r0) ?i = Some w"
    "(r_Status (scan_command unm (?i, w)), r_Ack (scan_command unm (?i, w))) = outcome (answer ?i (es1 @ es2))"
    "c_Action (r_Command (scan_command unm (?i, w))) = c_Action cmd" unfolding assms(5) by auto
  with x(1) mem show ?thesis
    by (intro exI [of _ x] exI [of _ w]) (auto simp: Let_def outcome_def answer_append split: option.splits)
qed

section \<open>Witness\<close>

text \<open>The device answers before the broker's confirmation has been handled.\<close>

definition cx_early :: Client where
  "cx_early = handleMessage ex_env True [] (\<lambda>_. 7) (topic_Command ''s1'' ''battery'' ''b1'' @ ''/ack'') ''x''
     (WithCommandRecorder ex_client)"

definition cx_late :: Client where
  "cx_late = fst (PublishCommand ex_env (\<lambda>_ _. None) 5 ''s1'' ex_dev ex_cmd cx_early)"

lemma cx_run: "(client_step ex_env)\<^sup>*\<^sup>* (WithCommandRecorder ex_client) cx_late"
  unfolding cx_late_def cx_early_def
  by (meson client_step.message client_step.publish r_into_rtranclp rtranclp.rtrancl_into_rtrancl)

abbreviation cx_ack :: client_effect where
  "cx_ack \<equiv> RecordAck ''s1'' ''battery'' ''b1'' \<lparr>a_CommandID = ''b1-1'', a_OK = True, a_Error = [], a_Timestamp = 2\<rparr>"

lemma cx_effects: "mc_effects cx_late = [cx_ack, RecordIssued ''s1'' ex_dev ex_cmd]"
proof -
  have p: "topic_Parse (topic_Command ''s1'' ''battery'' ''b1'' @ ''/ack'') =
      Some \<lparr>tp_SiteID = ''s1'', tp_DeviceType = ''battery'', tp_DeviceID = ''b1'', tp_Kind = ''command/ack''\<rparr>"
    using ack_topic [of "''s1''" ex_dev] by simp
  have "mc_effects cx_early = [cx_ack]" "mc_recorder cx_early"
    unfolding cx_early_def handleMessage_def p
    by (simp_all add: ex_client_def NewClient_def WithCommandRecorder_def VerifyPayload_def keys_Enabled_def
        handle_ack_def ex_env_def Let_def)
  then show ?thesis
    by (simp add: cx_late_def PublishCommand_def record_issued_def ex_env_def Let_def)
qed

theorem command_race_witness:
  "\<exists>x w. filter (\<lambda>x. rec_id x = ''b1-1'') (Commands (mc_store cx_late)) = [x] \<and> r_Status x = ''issued'' \<and>
    tb_commands (replay id (\<lambda>_. (True, 9)) 0 (mc_effects cx_late) rx_repo) ''b1-1'' = Some w \<and>
    r_Status (scan_command (\<lambda>_. None) (''b1-1'', w)) = ''acked''"
proof -
  have c0: "mc_recorder (WithCommandRecorder ex_client)" "mc_effects (WithCommandRecorder ex_client) = []"
    "Commands (mc_store (WithCommandRecorder ex_client)) = []"
    by (simp_all add: WithCommandRecorder_def ex_client_def NewClient_def NewStore_def Commands_def)
  have e: "mc_effects cx_late = [cx_ack] @ RecordIssued ''s1'' ex_dev ex_cmd # []" by (simp add: cx_effects)
  have n: "issues (mc_effects cx_late) \<le> 200" "\<forall>e \<in> set ([cx_ack] @ []). names_only (c_CommandID ex_cmd) (d_ID ex_dev) e"
    by (simp_all add: cx_effects ex_dev_def int64_ok_def)
  have m: "marshal_gmap (c_Params ex_cmd) \<noteq> None" "tb_commands rx_repo (c_CommandID ex_cmd) = None"
    by (simp_all add: ex_cmd_def marshal_gmap_def rx_repo_def)
  show ?thesis
    using command_race [OF cx_run c0 e n m(1) _ m(2), of "\<lambda>_. (True, 9)" id "\<lambda>_. None"]
    by (auto simp: Let_def outcome_def ex_cmd_def)
qed

end
