(* ===== verification/Control_Loop.thy ===== *)
theory Control_Loop
  imports Scheduler Simulator Platform_Config
begin

text \<open>
  The scheduler (internal/scheduler/scheduler.go) and the simulated devices (cmd/simulator/main.go) as
  one loop: the simulator turns and receives commands in any order, and the commands are those that
  some tick of the scheduler has published, whatever store, policy and time it saw.

  Contents: the events of the loop; the commands of a tick; what they cannot do; property.
\<close>

section \<open>Events\<close>

datatype loop_event =
    LTurn SimEnv "float64 \<Rightarrow> float64" zone "nat \<Rightarrow> time"
  | LMessage SimEnv "nat \<Rightarrow> time" string string

text \<open>A message that finds no client would end the process; the loop starts with a client.\<close>

fun loop_exec :: "loop_event \<Rightarrow> int \<times> simulator \<Rightarrow> int \<times> simulator" where
  "loop_exec (LTurn env math_Sin z clk) st = (case st of (seq, s) \<Rightarrow> sim_round env math_Sin z clk seq s)"
| "loop_exec (LMessage env clk topic payload) st =
     (case st of (seq, s) \<Rightarrow>
        (seq, case sim_handleCommand env clk topic payload s of None \<Rightarrow> s | Some s' \<Rightarrow> s'))"

fun is_turn :: "loop_event \<Rightarrow> bool" where
  "is_turn (LTurn env math_Sin z clk) = True"
| "is_turn (LMessage env clk topic payload) = False"

definition loop_run :: "loop_event list \<Rightarrow> int \<times> simulator \<Rightarrow> int \<times> simulator" where
  "loop_run evs st = foldl (\<lambda>st ev. loop_exec ev st) st evs"

definition turns :: "loop_event list \<Rightarrow> nat" where
  "turns evs = length (filter is_turn evs)"

section \<open>The commands of a tick\<close>

definition tick_command :: "Command \<Rightarrow> bool" where
  "tick_command cmd \<longleftrightarrow> (\<exists>clk cmdr orders store r. run_log r = [] \<and>
     cmd \<in> pc_Command ` set (run_log (Tick clk cmdr orders store r)))"

lemma tick_command_actions:
  assumes "tick_command cmd"
  shows "c_Action cmd = ''set_mode'' \<and> c_Params cmd \<in> {charging, discharging} \<or>
    c_Action cmd = ''set_relay'' \<and> c_Params cmd = relay_off"
proof -
  obtain clk cmdr ks1 ks2 ks3 store r c where c: "run_log r = []" "pc_Command c = cmd"
    "c \<in> set (run_log (Tick clk cmdr (ks1, ks2, ks3) store r))"
    using assms by (auto simp: tick_command_def)
  have "tick_allows (sc_siteID (run_sched r)) (sc_policy (run_sched r)) (s_NetPowerW (Summary ks1 store (sc_siteID (run_sched r))))
      (soc_of (TelemetryForSite ks3 store (sc_siteID (run_sched r)))) (pc_Device c) (c_Action (pc_Command c)) (c_Params (pc_Command c))"
    using c(1,3) Tick_log [of r ks1 store ks3 clk cmdr ks2] by (auto simp: log_extends_def)
  with c(2) show ?thesis by (auto simp: tick_allows_def)
qed

text \<open>A message that carries such a command, or no command; and one that orders a mode.\<close>

fun from_scheduler :: "loop_event \<Rightarrow> bool" where
  "from_scheduler (LTurn env math_Sin z clk) = True"
| "from_scheduler (LMessage env clk topic payload) =
     (case se_command env payload of None \<Rightarrow> True | Some cmd \<Rightarrow> tick_command cmd)"

fun orders :: "gmap \<Rightarrow> loop_event \<Rightarrow> bool" where
  "orders m (LTurn env math_Sin z clk) = False"
| "orders m (LMessage env clk topic payload) =
     (case se_command env payload of None \<Rightarrow> False | Some cmd \<Rightarrow> c_Action cmd = ''set_mode'' \<and> c_Params cmd = m)"

section \<open>What the commands do\<close>

lemma tick_action:
  assumes "tick_command cmd" "apply_action parsed cmd s = (err, s')"
  shows "sim_soc s' = sim_soc s" "sim_client s' = sim_client s" "relayOn s' i \<Longrightarrow> relayOn s i"
    "sim_batteryMode s' \<in> {sim_batteryMode s, ''charging'', ''discharging''}"
    "sim_batteryMode s' \<noteq> sim_batteryMode s \<Longrightarrow> c_Action cmd = ''set_mode'' \<and>
       c_Params cmd = (if sim_batteryMode s' = ''charging'' then charging else discharging)"
  using tick_command_actions [OF assms(1)] assms(2)
  by (auto simp: apply_action_def boolParam_def stringParam_def gmap_get_def relayOn_def split: if_splits)

lemma loop_message:
  assumes "from_scheduler (LMessage env clk topic payload)" "sim_client s"
  obtains s' where "loop_exec (LMessage env clk topic payload) (seq, s) = (seq, s')"
    "sim_soc s' = sim_soc s" "sim_client s'" "\<And>i. relayOn s' i \<Longrightarrow> relayOn s i"
    "sim_batteryMode s' = sim_batteryMode s \<or>
     sim_batteryMode s' = ''charging'' \<and> orders charging (LMessage env clk topic payload) \<or>
     sim_batteryMode s' = ''discharging'' \<and> orders discharging (LMessage env clk topic payload)"
proof (cases "sim_handleCommand env clk topic payload s = Some s \<or> sim_handleCommand env clk topic payload s = None")
  case True
  then have "loop_exec (LMessage env clk topic payload) (seq, s) = (seq, s)" by auto
  then show thesis by (rule that) (use assms in simp_all)
next
  case False
  then obtain parsed cmd where p: "topic_Parse topic = Some parsed" "tp_Kind parsed = ''command''" "se_command env payload = Some cmd"
    by (auto simp: sim_handleCommand_def split: option.splits if_splits)
  obtain err s1 where a: "apply_action parsed cmd s = (err, s1)" by force
  have t: "tick_command cmd" using assms(1) p(3) by simp
  note f = tick_action [OF t a]
  obtain t p' where s': "sim_handleCommand env clk topic payload s = Some (sim_publish t p' s1)"
    using p a assms(2) f(2) by (simp add: sim_handleCommand_def Let_def)
  show thesis
  proof (rule that [of "sim_publish t p' s1"])
    show "relayOn (sim_publish t p' s1) i \<Longrightarrow> relayOn s i" for i using f(3) by (simp add: relayOn_def)
  qed (use s' f assms(2) p(3) in auto)
qed

lemma loop_turn:
  "sim_soc (snd (sim_round env math_Sin z clk seq s)) = sim_soc (snd (batteryTelemetry s))"
  "sim_batteryMode (snd (sim_round env math_Sin z clk seq s)) = sim_batteryMode (snd (batteryTelemetry s))"
  "relayOn (snd (sim_round env math_Sin z clk seq s)) i = relayOn s i"
  "sim_client (snd (sim_round env math_Sin z clk seq s)) = sim_client s"
  by (simp_all only: round_battery relayOn_def)
    (simp add: sim_round_def batteryTelemetry_def publishBatterySOCEvent_def publishEvent_def Let_def split_beta split: option.split)

text \<open>
  A battery that charges, after \<open>k\<close> turns: still charging and far enough, or at the upper limit of
  the device. Likewise for one that discharges.
\<close>

definition charging_for :: "nat \<Rightarrow> simulator \<Rightarrow> bool" where
  "charging_for k s \<longleftrightarrow>
     sim_batteryMode s = ''charging'' \<and> (\<exists>q. sim_soc s = Fin q \<and> of_int (157286 + int k * 5242) / 2 ^ 20 \<le> q \<and> q \<le> soc_hi) \<or>
     sim_soc s = Fin soc_hi \<and> sim_batteryMode s \<in> {''idle'', ''charging''}"

definition discharging_for :: "nat \<Rightarrow> simulator \<Rightarrow> bool" where
  "discharging_for k s \<longleftrightarrow>
     sim_batteryMode s = ''discharging'' \<and> (\<exists>q. sim_soc s = Fin q \<and> q \<le> of_int (996148 - int k * 5242) / 2 ^ 20 \<and> soc_lo \<le> q) \<or>
     sim_soc s = Fin soc_lo \<and> sim_batteryMode s \<in> {''idle'', ''discharging''}"

lemma charging_for_turn:
  assumes "charging_for k s"
  shows "charging_for (Suc k) (snd (batteryTelemetry s))"
proof -
  consider (on) q where "sim_batteryMode s = ''charging''" "sim_soc s = Fin q"
      "of_int (157286 + int k * 5242) / 2 ^ 20 \<le> q" "q \<le> soc_hi"
    | (full) "sim_batteryMode s = ''charging''" "sim_soc s = Fin soc_hi"
    | (idle) "sim_batteryMode s = ''idle''" "sim_soc s = Fin soc_hi"
    using assms by (auto simp: charging_for_def)
  then show ?thesis
  proof cases
    case on
    from charge_once [OF this] show ?thesis
      by (simp add: Let_def charging_for_def algebra_simps) blast
  next
    case full
    from charge_once [OF full, of 996147] show ?thesis by (auto simp: Let_def charging_for_def)
  next
    case idle
    with idle_stays [of s soc_hi] show ?thesis by (simp add: charging_for_def)
  qed
qed

lemma discharging_for_turn:
  assumes "discharging_for k s"
  shows "discharging_for (Suc k) (snd (batteryTelemetry s))"
proof -
  consider (on) q where "sim_batteryMode s = ''discharging''" "sim_soc s = Fin q"
      "q \<le> of_int (996148 - int k * 5242) / 2 ^ 20" "soc_lo \<le> q"
    | (empty) "sim_batteryMode s = ''discharging''" "sim_soc s = Fin soc_lo"
    | (idle) "sim_batteryMode s = ''idle''" "sim_soc s = Fin soc_lo"
    using assms by (auto simp: discharging_for_def)
  then show ?thesis
  proof cases
    case on
    from discharge_once [OF this] show ?thesis
      by (simp add: Let_def discharging_for_def algebra_simps) blast
  next
    case empty
    from discharge_once [OF empty, of 157287] show ?thesis by (auto simp: Let_def discharging_for_def)
  next
    case idle
    with idle_stays [of s soc_lo] show ?thesis by (simp add: discharging_for_def)
  qed
qed

text \<open>What holds of a turn and of the allowed messages holds of every run.\<close>

lemma loop_run_induct:
  assumes turn: "\<And>k s s'. P k s \<Longrightarrow> sim_soc s' = sim_soc (snd (batteryTelemetry s)) \<Longrightarrow>
      sim_batteryMode s' = sim_batteryMode (snd (batteryTelemetry s)) \<Longrightarrow> (\<And>i. relayOn s' i = relayOn s i) \<Longrightarrow> P (Suc k) s'"
    and message: "\<And>k s s' ev. P k s \<Longrightarrow> ok ev \<Longrightarrow> sim_soc s' = sim_soc s \<Longrightarrow> (\<And>i. relayOn s' i \<Longrightarrow> relayOn s i) \<Longrightarrow>
      sim_batteryMode s' = sim_batteryMode s \<or> sim_batteryMode s' = ''charging'' \<and> orders charging ev \<or>
      sim_batteryMode s' = ''discharging'' \<and> orders discharging ev \<Longrightarrow> P k s'"
    and "P k s" "sim_client s" "\<forall>ev \<in> set evs. from_scheduler ev \<and> ok ev"
  shows "P (k + turns evs) (snd (loop_run evs (seq, s)))"
  using assms(3-5)
proof (induction evs arbitrary: k s seq)
  case (Cons ev evs)
  show ?case
  proof (cases ev)
    case (LTurn env math_Sin z clk)
    obtain seq' s' where r: "sim_round env math_Sin z clk seq s = (seq', s')" by force
    with loop_turn [of env math_Sin z clk seq s] Cons.prems have "P (Suc k) s'" "sim_client s'"
      by (auto intro: turn)
    with Cons.IH [of "Suc k" s' seq'] Cons.prems show ?thesis
      by (simp add: loop_run_def turns_def LTurn r)
  next
    case (LMessage env clk topic payload)
    from Cons.prems LMessage have f: "from_scheduler (LMessage env clk topic payload)" "ok ev" by auto
    obtain s' where s': "loop_exec (LMessage env clk topic payload) (seq, s) = (seq, s')" "sim_client s'" "P k s'"
      using loop_message [OF f(1) Cons.prems(2), of seq] message [OF Cons.prems(1) f(2)] LMessage by metis
    with Cons.IH [of k s' seq] Cons.prems show ?thesis
      by (simp add: loop_run_def turns_def LMessage del: loop_exec.simps)
  qed
qed (simp add: loop_run_def turns_def)

section \<open>Property\<close>

text \<open>
  C25. The limits of the policy only guard the start. No command of a tick stops a battery or
  switches a load on: whatever the policy and the measurements, as long as no tick orders the
  opposite mode, a charging battery goes on to the 0.95 of the device (with the default policy, past
  the 0.90 at which the scheduler would not have started it), a discharging one to 0.15, within 161
  turns, and a relay that is off stays off for ever.
\<close>
theorem policy_limits_guard_start_only:
  assumes "sim_inv s" "sim_client s" "\<forall>ev \<in> set evs. from_scheduler ev"
    and "(mode, opposite, limit) \<in>
      {(''charging'', discharging, f_lit (95/100)), (''discharging'', charging, f_lit (15/100))}"
  shows "(sim_batteryMode s = mode \<and> (\<forall>ev \<in> set evs. \<not> orders opposite ev) \<and> 161 \<le> turns evs \<longrightarrow>
      sim_soc (snd (loop_run evs (seq, s))) = limit) \<and>
    (\<forall>i. \<not> relayOn s i \<longrightarrow> \<not> relayOn (snd (loop_run evs (seq, s))) i) \<and>
    f_lt (cf_BatteryMaxSOC (config_Load (\<lambda>_. []))) (f_lit (95/100)) \<and>
    f_lt (f_lit (15/100)) (cf_BatteryMinSOC (config_Load (\<lambda>_. [])))"
proof (intro conjI allI impI)
  obtain q where q: "sim_soc s = Fin q" "soc_lo \<le> q" "q \<le> soc_hi"
    using assms(1) soc_range [of "sim_soc s"] by (auto simp: sim_inv_def)
  assume *: "sim_batteryMode s = mode \<and> (\<forall>ev \<in> set evs. \<not> orders opposite ev) \<and> 161 \<le> turns evs"
  show "sim_soc (snd (loop_run evs (seq, s))) = limit"
  proof (cases "mode = ''charging''")
    case True
    with assms(4) have o: "opposite = discharging" "limit = f_lit (95/100)" by auto
    have "charging_for (0 + turns evs) (snd (loop_run evs (seq, s)))"
    proof (rule loop_run_induct [where P = charging_for and ok = "\<lambda>ev. \<not> orders discharging ev"])
      show "charging_for 0 s" using True * q by (auto simp: charging_for_def)
    qed (use charging_for_turn * o assms(2,3) in \<open>auto simp: charging_for_def\<close>)
    moreover have "(of_int (157286 + int 161 * 5242) / 2 ^ 20 :: rat) \<le> of_int (157286 + int (turns evs) * 5242) / 2 ^ 20"
      using * by (intro divide_right_mono) (simp_all only: of_int_le_iff, simp_all)
    ultimately show ?thesis unfolding o soc_literals by (auto simp: charging_for_def)
  next
    case False
    with assms(4) have o: "mode = ''discharging''" "opposite = charging" "limit = f_lit (15/100)" by auto
    have "discharging_for (0 + turns evs) (snd (loop_run evs (seq, s)))"
    proof (rule loop_run_induct [where P = discharging_for and ok = "\<lambda>ev. \<not> orders charging ev"])
      show "discharging_for 0 s" using o * q by (auto simp: discharging_for_def)
    qed (use discharging_for_turn * o assms(2,3) in \<open>auto simp: discharging_for_def\<close>)
    moreover have "of_int (996148 - int (turns evs) * 5242) / 2 ^ 20 \<le> (of_int (996148 - int 161 * 5242) / 2 ^ 20 :: rat)"
      using * by (intro divide_right_mono) (simp_all only: of_int_le_iff, simp_all)
    ultimately show ?thesis unfolding o soc_literals by (auto simp: discharging_for_def)
  qed
next
  fix i assume off: "\<not> relayOn s i"
  have "(\<lambda>k s. \<not> relayOn s i) (0 + turns evs) (snd (loop_run evs (seq, s)))"
    by (rule loop_run_induct [where P = "\<lambda>k s. \<not> relayOn s i" and ok = "\<lambda>_. True"]) (use off assms(2,3) in auto)
  then show "\<not> relayOn (snd (loop_run evs (seq, s))) i" .
next
  have "cf_BatteryMaxSOC (config_Load (\<lambda>_. [])) = f_lit (9/10)" "cf_BatteryMinSOC (config_Load (\<lambda>_. [])) = Fin (1/4)"
    by (simp_all add: config_Load_def getfloat_def f_lit_def f64_eval rne_def)
  then show "f_lt (cf_BatteryMaxSOC (config_Load (\<lambda>_. []))) (f_lit (95/100))"
    "f_lt (f_lit (15/100)) (cf_BatteryMinSOC (config_Load (\<lambda>_. [])))"
    unfolding soc_literals by (simp_all add: f_lit_09)
qed

theorem policy_limits_guard_start_only_witness:
  "sim_soc (snd (loop_run (replicate 161 (LTurn sx_env (\<lambda>x. x) (\<lambda>_. 0) (\<lambda>_. 5)))
     (0, (sim_connect (newSimulator ''s1'' Map.empty))\<lparr>sim_batteryMode := ''charging''\<rparr>))) = f_lit (95/100)"
proof -
  let ?s = "(sim_connect (newSimulator ''s1'' Map.empty))\<lparr>sim_batteryMode := ''charging''\<rparr>"
  have "sim_inv ?s" using sim_inv_new [of "''s1''" Map.empty] by (simp add: sim_inv_def sim_connect_def)
  moreover have "sim_client ?s" by (simp add: sim_connect_def)
  moreover have "turns (replicate 161 (LTurn sx_env (\<lambda>x. x) (\<lambda>_. 0) (\<lambda>_. 5))) = 161" by (simp add: turns_def filter_replicate)
  ultimately show ?thesis
    using policy_limits_guard_start_only [of ?s "replicate 161 (LTurn sx_env (\<lambda>x. x) (\<lambda>_. 0) (\<lambda>_. 5))" "''charging''"
        discharging "f_lit (95/100)" 0] by simp
qed

end
