(* ===== verification/Telemetry_Loop.thy ===== *)
theory Telemetry_Loop
  imports Edge_Uplink Scheduler Simulator
begin

text \<open>
  From the devices back to the scheduler: one turn of the simulator's loop
  (cmd/simulator/main.go) publishes the state of its four devices, the platform's MQTT client
  (internal/mqtt/client.go) files it in the store (internal/state/state.go), and the next tick
  (internal/scheduler/scheduler.go) decides on it.

  Contents: what a turn publishes; what the platform has filed after it has handled these messages;
  what a lookup per site returns; property.
\<close>

section \<open>What a turn publishes\<close>

text \<open>
  The states of the four devices with the times at which their messages are signed, and the message
  made of one.
\<close>

definition round_states ::
  "(float64 \<Rightarrow> float64) \<Rightarrow> zone \<Rightarrow> (nat \<Rightarrow> time) \<Rightarrow> int \<Rightarrow> simulator \<Rightarrow> (DeviceType \<times> time \<times> Telemetry) list" where
  "round_states math_Sin z clk seq0 s =
     (let k = wrap64 (seq0 + 1);
          pv = sim_pv math_Sin z (clk 0);
          load1 = (if relayOn s ''load_01'' then sim_load math_Sin 25 5 10 k else Fin 0);
          load2 = (if relayOn s ''load_02'' then sim_load math_Sin 45 10 7 k else Fin 0);
          ((soc, power, mode), s') = batteryTelemetry s;
          state = (\<lambda>i stamp st metrics. zero_Telemetry\<lparr>t_DeviceID := i, t_Timestamp := time_unix_sec stamp, t_Metrics := metrics,
                     t_State := st, t_Seq := k\<rparr>) in
      [(DevicePV, clk 2, state ''pv_01'' (clk 1) (if f_eq pv (Fin 0) then ''off'' else ''on'')
          [''voltage'' \<mapsto> Fin 18, ''current'' \<mapsto> f_div pv (Fin 18), ''power'' \<mapsto> pv]),
       (DeviceBattery, clk 4, state ''battery_01'' (clk 3) mode
          [''voltage'' \<mapsto> f_lit (124/10), ''current'' \<mapsto> f_div power (f_lit (124/10)),
           ''power'' \<mapsto> power, ''soc'' \<mapsto> soc, ''temperature'' \<mapsto> Fin 25]),
       (DeviceLoad, clk 9, state ''load_01'' (clk 8) (if relayOn s ''load_01'' then ''on'' else ''off'')
          [''voltage'' \<mapsto> Fin 12, ''current'' \<mapsto> f_div load1 (Fin 12), ''power'' \<mapsto> load1]),
       (DeviceLoad, clk 11, state ''load_02'' (clk 10) (if relayOn s ''load_02'' then ''on'' else ''off'')
          [''voltage'' \<mapsto> Fin 12, ''current'' \<mapsto> f_div load2 (Fin 12), ''power'' \<mapsto> load2])])"

definition state_topic :: "simulator \<Rightarrow> DeviceType \<times> time \<times> Telemetry \<Rightarrow> string" where
  "state_topic s x = (case x of (ty, signedAt, t) \<Rightarrow> topic_Telemetry (sim_siteID s) ty (t_DeviceID t))"

definition state_msg :: "SimEnv \<Rightarrow> simulator \<Rightarrow> DeviceType \<times> time \<times> Telemetry \<Rightarrow> string \<times> string" where
  "state_msg env s x =
     (case x of (ty, signedAt, t) \<Rightarrow> (state_topic s x,
        signPayload env signedAt (state_topic s x) (t_DeviceID t) (or_empty (me_marshal_telemetry (se_mqtt env) t)) (sim_keys s)))"

lemma publishState_out:
  "publishState env stamped signedAt ty i k st metrics s = s\<lparr>sim_out := sim_out s @ [state_msg env s (ty, signedAt,
     zero_Telemetry\<lparr>t_DeviceID := i, t_Timestamp := time_unix_sec stamped, t_Metrics := metrics, t_State := st, t_Seq := k\<rparr>)]\<rparr>"
  by (simp add: publishState_def state_msg_def state_topic_def sim_publish_def Let_def zero_Telemetry_def)

lemma publishEvent_out:
  obtains p where "publishEvent env z clk i severity code message details s =
    s\<lparr>sim_out := sim_out s @ [(''vpp/'' @ sim_siteID s @ ''/'' @ DeviceBattery @ ''/'' @ i @ ''/event'', p)]\<rparr>"
  by (simp add: publishEvent_def sim_publish_def Let_def)

lemma publishBatterySOCEvent_out:
  obtains evs low where "publishBatterySOCEvent env z clk soc s = s\<lparr>sim_lowSOCOpen := low, sim_out := sim_out s @ evs\<rparr>"
    "\<forall>e \<in> set evs. fst e = ''vpp/'' @ sim_siteID s @ ''/'' @ DeviceBattery @ ''/battery_01/event''" "length evs \<le> 1"
proof -
  obtain due low where d: "soc_event soc (sim_lowSOCOpen s) = (due, low)" by force
  let ?s = "s\<lparr>sim_lowSOCOpen := low\<rparr>" and ?details = "Some [(''soc'', GNum soc)]"
  obtain p where p: "publishEvent env z clk ''battery_01'' ''warning'' ''low_soc'' ''battery SOC is below 20%'' ?details ?s =
      ?s\<lparr>sim_out := sim_out s @ [(''vpp/'' @ sim_siteID s @ ''/'' @ DeviceBattery @ ''/battery_01/event'', p)]\<rparr>"
    using publishEvent_out [of env z clk "''battery_01''" "''warning''" "''low_soc''" "''battery SOC is below 20%''" ?details ?s]
    by auto
  obtain p' where p': "publishEvent env z clk ''battery_01'' ''info'' ''soc_recovered'' ''battery SOC recovered above 30%'' ?details ?s =
      ?s\<lparr>sim_out := sim_out s @ [(''vpp/'' @ sim_siteID s @ ''/'' @ DeviceBattery @ ''/battery_01/event'', p')]\<rparr>"
    using publishEvent_out [of env z clk "''battery_01''" "''info''" "''soc_recovered''" "''battery SOC recovered above 30%''" ?details ?s]
    by auto
  have due: "due \<in> {None, Some ''low_soc'', Some ''soc_recovered''}"
    using d by (auto simp: soc_event_def Let_def split: if_splits)
  show thesis
  proof (cases "sim_client s \<and> due \<noteq> None")
    case True
    with due have "publishBatterySOCEvent env z clk soc s =
        ?s\<lparr>sim_out := sim_out s @ [(''vpp/'' @ sim_siteID s @ ''/'' @ DeviceBattery @ ''/battery_01/event'', if due = Some ''low_soc'' then p else p')]\<rparr>"
      by (auto simp only: publishBatterySOCEvent_def d Let_def prod.case p p' option.case simp_thms if_True if_False) simp_all
    then show thesis by (rule that) simp_all
  next
    case False
    then have "publishBatterySOCEvent env z clk soc s = s\<lparr>sim_lowSOCOpen := (if sim_client s then low else sim_lowSOCOpen s), sim_out := sim_out s @ []\<rparr>"
      by (auto simp: publishBatterySOCEvent_def d)
    then show thesis by (rule that) simp_all
  qed
qed

lemma state_msg_frame:
  "state_msg env (s\<lparr>sim_out := out\<rparr>) = state_msg env s" "state_msg env (s\<lparr>sim_lowSOCOpen := low\<rparr>) = state_msg env s"
  "state_msg env (snd (batteryTelemetry s)) = state_msg env s"
  by (auto simp: fun_eq_iff state_msg_def state_topic_def batteryTelemetry_def Let_def split_beta)

lemma round_out:
  assumes "round_states math_Sin z clk k s = [x1, x2, x3, x4]"
  obtains evs where "sim_out (snd (sim_round env math_Sin z clk k s)) =
      sim_out s @ [state_msg env s x1, state_msg env s x2] @ evs @ [state_msg env s x3, state_msg env s x4]"
    "\<forall>e \<in> set evs. fst e = ''vpp/'' @ sim_siteID s @ ''/'' @ DeviceBattery @ ''/battery_01/event''" "length evs \<le> 1"
proof -
  obtain soc power mode s1 where b: "batteryTelemetry s = ((soc, power, mode), s1)" by (cases "batteryTelemetry s") auto
  have s1: "sim_out s1 = sim_out s" "sim_siteID s1 = sim_siteID s" "sim_relays s1 = sim_relays s" "state_msg env s1 = state_msg env s"
    using b state_msg_frame(3) [of env s] by (auto simp: batteryTelemetry_def Let_def split_beta)
  let ?s3 = "s1\<lparr>sim_out := sim_out s @ [state_msg env s x1, state_msg env s x2]\<rparr>"
  have id: "sim_siteID ?s3 = sim_siteID s" using s1(2) by simp
  obtain evs low where e: "publishBatterySOCEvent env z (\<lambda>i. clk (5 + i)) soc ?s3 =
      ?s3\<lparr>sim_lowSOCOpen := low, sim_out := sim_out ?s3 @ evs\<rparr>"
    "\<forall>e \<in> set evs. fst e = ''vpp/'' @ sim_siteID s @ ''/'' @ DeviceBattery @ ''/battery_01/event''" "length evs \<le> 1"
    using publishBatterySOCEvent_out [of env z "\<lambda>i. clk (5 + i)" soc ?s3] s1(2) unfolding id by blast
  show thesis
  proof (rule that [OF _ e(2,3)])
    show "sim_out (snd (sim_round env math_Sin z clk k s)) =
      sim_out s @ [state_msg env s x1, state_msg env s x2] @ evs @ [state_msg env s x3, state_msg env s x4]"
      using assms e(1)
      by (auto simp: sim_round_def round_states_def b Let_def publishState_out state_msg_frame s1 relayOn_def)
  qed
qed

section \<open>What the platform files\<close>

text \<open>
  The message of a state arrives: the telemetry survives JSON, and the payload the signature, if
  there are keys, whenever it is handled.
\<close>

definition state_arrives :: "SimEnv \<Rightarrow> simulator \<Rightarrow> Client \<Rightarrow> (nat \<Rightarrow> arrival) \<Rightarrow> DeviceType \<times> time \<times> Telemetry \<Rightarrow> bool" where
  "state_arrives env s c arr x \<longleftrightarrow>
     (case x of (ty, signedAt, t) \<Rightarrow> t_Timestamp t \<noteq> 0 \<and>
        (\<exists>payload p. me_marshal_telemetry (se_mqtt env) t = Some payload \<and> me_telemetry (se_mqtt env) p = Some t \<and>
           (\<forall>j. answer_travels env signedAt (snd (snd (arr j)) 0) (sim_keys s) (mc_keys c) (mc_maxSkew c)
                  (state_topic s x) (t_DeviceID t) payload p)))"

lemma uplink_telemetry:
  assumes "\<forall>j < length ms. \<forall>parsed. topic_Parse (fst (ms ! j)) = Some parsed \<and> tp_Kind parsed = ''telemetry'' \<longrightarrow>
      verified env c (arr (n + j)) (ms ! j) \<and> dated env (ms ! j)"
  shows "telemetry (mc_store (uplink env arr n ms c)) = foldl (tele_file env) (telemetry (mc_store c)) ms"
  using assms
proof (induction ms arbitrary: n c)
  case (Cons m ms)
  obtain ok ks clk where a: "arr n = (ok, ks, clk)" by (metis prod_cases3)
  let ?c = "handleMessage env ok ks clk (fst m) (snd m) c"
  have m: "telemetry (mc_store ?c) = tele_file env (telemetry (mc_store c)) m"
  proof (cases "\<exists>parsed. topic_Parse (fst m) = Some parsed \<and> tp_Kind parsed = ''telemetry''")
    case True
    then have "verified env c (ok, ks, clk) m \<and> dated env m" using Cons.prems a by force
    then show ?thesis by (simp add: handleMessage_telemetry)
  next
    case False
    then show ?thesis
      by (auto simp: handleMessage_def tele_file_def handle_ack_def handle_event_def incrementRejected_def Let_def
          store_PutCommandAck_def PutEvent_def split: option.split)
  qed
  have "\<forall>j < length ms. \<forall>parsed. topic_Parse (fst (ms ! j)) = Some parsed \<and> tp_Kind parsed = ''telemetry'' \<longrightarrow>
      verified env ?c (arr (Suc n + j)) (ms ! j) \<and> dated env (ms ! j)"
    using Cons.prems by (force simp: verified_def handleMessage_frame)
  from Cons.IH [OF this] show ?case by (simp add: a m)
qed simp

lemma uplink_steps: "(client_step env)\<^sup>*\<^sup>* c (uplink env arr n ms c)"
proof (induction ms arbitrary: n c)
  case (Cons m ms)
  obtain ok ks clk where a: "arr n = (ok, ks, clk)" by (metis prod_cases3)
  have "client_step env c (handleMessage env ok ks clk (fst m) (snd m) c)" by (rule client_step.message)
  with Cons [of "handleMessage env ok ks clk (fst m) (snd m) c" "Suc n"] show ?case
    by (simp add: a converse_rtranclp_into_rtranclp)
qed simp

definition filed_as :: "simulator \<Rightarrow> DeviceType \<times> time \<times> Telemetry \<Rightarrow> Telemetry" where
  "filed_as s x = (case x of (ty, signedAt, t) \<Rightarrow> t\<lparr>t_SiteID := sim_siteID s, t_Type := ty\<rparr>)"

lemma state_msg_filed:
  assumes "state_arrives env s c arr x" "x = (ty, signedAt, t)"
    and "slash_free (sim_siteID s)" "sim_siteID s \<noteq> []" "slash_free ty" "slash_free (t_DeviceID t)"
  shows "tele_file (se_mqtt env) tm (state_msg env s x) = tm(stateKey (sim_siteID s) (t_DeviceID t) \<mapsto> filed_as s x)"
    and "verified (se_mqtt env) c (arr j) (state_msg env s x)" "dated (se_mqtt env) (state_msg env s x)"
proof -
  obtain payload p where p: "me_marshal_telemetry (se_mqtt env) t = Some payload" "me_telemetry (se_mqtt env) p = Some t"
    and travels: "\<And>j. answer_travels env signedAt (snd (snd (arr j)) 0) (sim_keys s) (mc_keys c) (mc_maxSkew c)
                  (state_topic s x) (t_DeviceID t) payload p" and stamp: "t_Timestamp t \<noteq> 0"
    using assms(1) by (auto simp: state_arrives_def assms(2))
  have m: "state_msg env s x = (state_topic s x, p)"
    using answer_verified(1) [OF travels] p(1) by (simp add: state_msg_def assms(2) or_empty_def)
  have t: "topic_Parse (state_topic s x) =
      Some \<lparr>tp_SiteID = sim_siteID s, tp_DeviceType = ty, tp_DeviceID = t_DeviceID t, tp_Kind = ''telemetry''\<rparr>"
    using topic_Parse_kind [OF assms(3,5,6), of "''telemetry''"] by (simp add: state_topic_def assms(2) topic_Telemetry_def)
  show "tele_file (se_mqtt env) tm (state_msg env s x) = tm(stateKey (sim_siteID s) (t_DeviceID t) \<mapsto> filed_as s x)"
    unfolding tele_file_def m fst_conv snd_conv t option.case p(2) by (simp add: filed_as_def assms(2))
  show "verified (se_mqtt env) c (arr j) (state_msg env s x)"
    using answer_verified(2) [OF travels [of j]] by (simp add: verified_def m t)
  show "dated (se_mqtt env) (state_msg env s x)"
    using assms(4) stamp by (simp add: dated_def m t p(2))
qed

text \<open>A lookup per site finds what is filed under site and device.\<close>

lemma foldl_last_wins:
  assumes "set (filter (\<lambda>u. P u \<and> key u = i) ts) \<subseteq> {t}" "P t" "key t = i"
  shows "foldl (\<lambda>out t. if P t then out(key t \<mapsto> t) else out) m ts i = (if t \<in> set ts then Some t else m i)"
  using assms(1)
proof (induction ts arbitrary: m)
  case (Cons u ts)
  show ?case
  proof (cases "P u \<and> key u = i")
    case True
    with Cons.prems have "u = t" by simp
    with True Cons show ?thesis by simp
  next
    case False
    then have "u \<noteq> t" using assms(2,3) by blast
    with False Cons show ?thesis by auto
  qed
qed simp

lemma TelemetryForSite_lookup:
  assumes "store_inv s" "range_order (telemetry s) ks" "telemetry s (stateKey site i) = Some t" "t_SiteID t = site" "t_DeviceID t = i"
  shows "TelemetryForSite ks s site i = Some t"
proof -
  have "u = t" if u: "u \<in> set (range_vals (telemetry s) ks)" "t_SiteID u = site \<and> t_DeviceID u = i" for u
  proof -
    obtain k where k: "telemetry s k = Some u" using u(1) set_range_vals [OF assms(2)] by (auto simp: ran_def)
    then have "k = stateKey (t_SiteID u) (t_DeviceID u)" using assms(1) unfolding store_inv_def by blast
    with k u(2) assms(3) show ?thesis by simp
  qed
  then have "set (filter (\<lambda>u. t_SiteID u = site \<and> t_DeviceID u = i) (range_vals (telemetry s) ks)) \<subseteq> {t}"
    by (auto simp only: set_filter)
  moreover have "t \<in> set (range_vals (telemetry s) ks)" using set_range_vals [OF assms(2)] assms(3) by (auto simp: ran_def)
  ultimately show ?thesis
    unfolding TelemetryForSite_def by (simp only: foldl_last_wins assms(4,5) if_True)
qed

section \<open>A turn as the platform sees it\<close>

lemma round_states_shape:
  obtains t1 t2 t3 t4 where "round_states math_Sin z clk k s =
      [(DevicePV, clk 2, t1), (DeviceBattery, clk 4, t2), (DeviceLoad, clk 9, t3), (DeviceLoad, clk 11, t4)]"
    "t_DeviceID t1 = ''pv_01''" "t_DeviceID t2 = ''battery_01''" "t_DeviceID t3 = ''load_01''" "t_DeviceID t4 = ''load_02''"
    "t_Metrics t2 ''soc'' = Some (sim_soc (snd (batteryTelemetry s)))"
  by (simp add: round_states_def Let_def split_beta batteryTelemetry_def)

lemma round_filed:
  assumes "sim_out (snd (sim_round env math_Sin z clk k s)) = sim_out s @ msgs"
    and "slash_free (sim_siteID s)" "sim_siteID s \<noteq> []"
    and "\<forall>x \<in> set (round_states math_Sin z clk k s). state_arrives env s c arr x"
  shows "telemetry (mc_store (uplink (se_mqtt env) arr 0 msgs c)) =
    foldl (\<lambda>tm x. tm(stateKey (sim_siteID s) (t_DeviceID (snd (snd x))) \<mapsto> filed_as s x)) (telemetry (mc_store c))
      (round_states math_Sin z clk k s)"
proof -
  obtain t1 t2 t3 t4 where xs: "round_states math_Sin z clk k s =
      [(DevicePV, clk 2, t1), (DeviceBattery, clk 4, t2), (DeviceLoad, clk 9, t3), (DeviceLoad, clk 11, t4)]"
    and i: "t_DeviceID t1 = ''pv_01''" "t_DeviceID t2 = ''battery_01''" "t_DeviceID t3 = ''load_01''" "t_DeviceID t4 = ''load_02''"
    by (rule round_states_shape)
  let ?msg = "state_msg env s" and ?xs = "round_states math_Sin z clk k s"
  obtain evs where out: "msgs = [?msg (DevicePV, clk 2, t1), ?msg (DeviceBattery, clk 4, t2)] @ evs @
      [?msg (DeviceLoad, clk 9, t3), ?msg (DeviceLoad, clk 11, t4)]"
    and evs: "\<forall>e \<in> set evs. fst e = ''vpp/'' @ sim_siteID s @ ''/'' @ DeviceBattery @ ''/battery_01/event''"
    using round_out [OF xs, of env] assms(1) by (metis same_append_eq)
  then have msgs: "msgs = map ?msg (take 2 ?xs) @ evs @ map ?msg (drop 2 ?xs)" by (simp add: xs)
  have ev: "\<forall>e \<in> set evs. topic_Parse (fst e) =
      Some \<lparr>tp_SiteID = sim_siteID s, tp_DeviceType = DeviceBattery, tp_DeviceID = ''battery_01'', tp_Kind = ''event''\<rparr>"
    using evs topic_Parse_kind [OF assms(2), of DeviceBattery "''battery_01''" "''event''"] by (simp add: DeviceBattery_def)
  have filed: "tele_file (se_mqtt env) tm (?msg x) = tm(stateKey (sim_siteID s) (t_DeviceID (snd (snd x))) \<mapsto> filed_as s x)"
    "verified (se_mqtt env) c (arr j) (?msg x)" "dated (se_mqtt env) (?msg x)" if "x \<in> set ?xs" for x tm j
  proof -
    obtain ty signedAt t where x: "x = (ty, signedAt, t)" by (metis prod_cases3)
    have "slash_free ty" "slash_free (t_DeviceID t)"
      using that unfolding xs x by (auto simp: i DevicePV_def DeviceBattery_def DeviceLoad_def)
    note f = state_msg_filed [OF bspec [OF assms(4) that] x assms(2,3) this]
    show "tele_file (se_mqtt env) tm (?msg x) = tm(stateKey (sim_siteID s) (t_DeviceID (snd (snd x))) \<mapsto> filed_as s x)"
      using f(1) by (simp add: x)
    show "verified (se_mqtt env) c (arr j) (?msg x)" "dated (se_mqtt env) (?msg x)" by (rule f(2,3))+
  qed
  have "verified (se_mqtt env) c (arr j) m \<and> dated (se_mqtt env) m"
    if "m \<in> set msgs" "topic_Parse (fst m) = Some parsed" "tp_Kind parsed = ''telemetry''" for m j parsed
  proof -
    have "m \<notin> set evs" using that(2,3) ev by fastforce
    with that(1) obtain x where "m = ?msg x" "x \<in> set ?xs" unfolding msgs by (auto dest: in_set_takeD in_set_dropD)
    then show ?thesis using filed(2,3) by simp
  qed
  then have "telemetry (mc_store (uplink (se_mqtt env) arr 0 msgs c)) =
      foldl (tele_file (se_mqtt env)) (telemetry (mc_store c)) msgs"
    by (intro uplink_telemetry) auto
  moreover have "foldl (tele_file (se_mqtt env)) tm evs = tm" for tm
    using ev by (induction evs) (auto simp: tele_file_def)
  ultimately show ?thesis using filed(1) by (simp add: msgs xs)
qed

lemma round_seen:
  assumes "sim_out (snd (sim_round env math_Sin z clk k s)) = sim_out s @ msgs"
    and "slash_free (sim_siteID s)" "sim_siteID s \<noteq> []" "client_inv c"
    and "\<forall>x \<in> set (round_states math_Sin z clk k s). state_arrives env s c arr x"
    and "store = mc_store (uplink (se_mqtt env) arr 0 msgs c)" "range_order (telemetry store) ks"
    and "x \<in> set (round_states math_Sin z clk k s)"
  shows "TelemetryForSite ks store (sim_siteID s) (t_DeviceID (snd (snd x))) = Some (filed_as s x)"
proof -
  obtain t1 t2 t3 t4 where xs: "round_states math_Sin z clk k s =
      [(DevicePV, clk 2, t1), (DeviceBattery, clk 4, t2), (DeviceLoad, clk 9, t3), (DeviceLoad, clk 11, t4)]"
    and i: "t_DeviceID t1 = ''pv_01''" "t_DeviceID t2 = ''battery_01''" "t_DeviceID t3 = ''load_01''" "t_DeviceID t4 = ''load_02''"
    by (rule round_states_shape)
  have key: "stateKey (sim_siteID s) j = stateKey (sim_siteID s) j' \<longleftrightarrow> j = j'" for j j' by (simp add: stateKey_def)
  have "store_inv store" using client.inv_steps [OF uplink_steps] assms(4,6) by (simp add: client_inv_def)
  moreover have "telemetry store (stateKey (sim_siteID s) (t_DeviceID (snd (snd x)))) = Some (filed_as s x)"
    using assms(8) unfolding assms(6) round_filed [OF assms(1-3,5)] by (auto simp: xs i key)
  ultimately show ?thesis
    using assms(7) by (intro TelemetryForSite_lookup) (auto simp: filed_as_def split: prod.split)
qed

section \<open>Property\<close>

text \<open>
  C26. A tick decides on the devices as they are: after a turn of the simulator whose messages the
  platform has handled, the lookup of its site returns for each of the four devices what the turn
  has published, the state of charge of the battery is that of the simulator, and a tick orders
  charging only while this is below the upper limit of the policy, discharging only while it is
  above the lower.
\<close>
theorem tick_decides_on_device_state:
  assumes "sim_out (snd (sim_round env math_Sin z clk k s)) = sim_out s @ msgs"
    and "slash_free (sim_siteID s)" "sim_siteID s \<noteq> []" "client_inv c"
    and "\<forall>x \<in> set (round_states math_Sin z clk k s). state_arrives env s c arr x"
    and "store = mc_store (uplink (se_mqtt env) arr 0 msgs c)" "range_order (telemetry store) ks3"
    and "run_log r = []" "sc_siteID (run_sched r) = sim_siteID s"
  shows "(\<forall>(ty, signedAt, t) \<in> set (round_states math_Sin z clk k s).
      TelemetryForSite ks3 store (sim_siteID s) (t_DeviceID t) = Some (t\<lparr>t_SiteID := sim_siteID s, t_Type := ty\<rparr>)) \<and>
    (\<forall>b. d_ID b = ''battery_01'' \<longrightarrow>
      soc_of (TelemetryForSite ks3 store (sim_siteID s)) b = sim_soc (snd (sim_round env math_Sin z clk k s))) \<and>
    (\<forall>call \<in> set (run_log (Tick tclk cmdr (ks1, ks2, ks3) store r)). d_ID (pc_Device call) = ''battery_01'' \<longrightarrow>
      (c_Params (pc_Command call) = charging \<longrightarrow>
        f_lt (sim_soc (snd (sim_round env math_Sin z clk k s))) (p_BatteryMaxSOC (sc_policy (run_sched r)))) \<and>
      (c_Params (pc_Command call) = discharging \<longrightarrow>
        f_lt (p_BatteryMinSOC (sc_policy (run_sched r))) (sim_soc (snd (sim_round env math_Sin z clk k s)))))"
proof -
  let ?soc = "sim_soc (snd (sim_round env math_Sin z clk k s))" and ?tele = "TelemetryForSite ks3 store (sim_siteID s)"
  note seen = round_seen [OF assms(1-7)]
  have battery: "soc_of ?tele b = ?soc" if "d_ID b = ''battery_01''" for b
  proof (rule round_states_shape [of math_Sin z clk k s])
    fix t1 t2 t3 t4
    assume xs: "round_states math_Sin z clk k s =
        [(DevicePV, clk 2, t1), (DeviceBattery, clk 4, t2), (DeviceLoad, clk 9, t3), (DeviceLoad, clk 11, t4)]"
      and t2: "t_DeviceID t2 = ''battery_01''" "t_Metrics t2 ''soc'' = Some (sim_soc (snd (batteryTelemetry s)))"
    from seen [of "(DeviceBattery, clk 4, t2)"] show ?thesis
      using that t2 by (simp add: xs soc_of_def metric_def filed_as_def round_battery)
  qed
  have decides: "tick_allows (sim_siteID s) (sc_policy (run_sched r)) (s_NetPowerW (Summary ks1 store (sim_siteID s)))
      (soc_of ?tele) (pc_Device call) (c_Action (pc_Command call)) (c_Params (pc_Command call))"
    if "call \<in> set (run_log (Tick tclk cmdr (ks1, ks2, ks3) store r))" for call
    using that assms(8,9) Tick_log [of r ks1 store ks3 tclk cmdr ks2] by (auto simp: log_extends_def)
  have "(c_Params (pc_Command call) = charging \<longrightarrow> f_lt ?soc (p_BatteryMaxSOC (sc_policy (run_sched r)))) \<and>
      (c_Params (pc_Command call) = discharging \<longrightarrow> f_lt (p_BatteryMinSOC (sc_policy (run_sched r))) ?soc)"
    if "call \<in> set (run_log (Tick tclk cmdr (ks1, ks2, ks3) store r))" "d_ID (pc_Device call) = ''battery_01''" for call
    using decides [OF that(1)] battery [OF that(2)] by (auto simp: tick_allows_def)
  moreover have "?tele (t_DeviceID t) = Some (t\<lparr>t_SiteID := sim_siteID s, t_Type := ty\<rparr>)"
    if "(ty, signedAt, t) \<in> set (round_states math_Sin z clk k s)" for ty signedAt t
    using seen [OF that] by (simp add: filed_as_def)
  ultimately show ?thesis using battery by auto
qed

section \<open>Witness\<close>

text \<open>
  A JSON codec that is right on what the turn publishes: it names a state by its device. The battery
  has been told to charge.
\<close>

abbreviation tx_clk :: "nat \<Rightarrow> time" where
  "tx_clk \<equiv> \<lambda>_. time_Unix 5"

definition tx_sim :: simulator where
  "tx_sim = (sim_connect (newSimulator ''s1'' Map.empty))\<lparr>sim_batteryMode := ''charging''\<rparr>"

definition tx_env :: SimEnv where
  "tx_env = sx_env\<lparr>se_mqtt := ex_env\<lparr>me_marshal_telemetry := (\<lambda>t. Some (t_DeviceID t)),
     me_telemetry := map_of (map (\<lambda>(ty, signedAt, t). (t_DeviceID t, t)) (round_states (\<lambda>_. Fin 0) (\<lambda>_. 0) tx_clk 0 tx_sim))\<rparr>\<rparr>"

theorem tick_decides_on_device_state_witness:
  "\<exists>msgs store ks. sim_out (snd (sim_round tx_env (\<lambda>_. Fin 0) (\<lambda>_. 0) tx_clk 0 tx_sim)) = msgs \<and>
     store = mc_store (uplink (se_mqtt tx_env) (\<lambda>_. (True, [], tx_clk)) 0 msgs ex_client) \<and> range_order (telemetry store) ks \<and>
     map_option t_State (TelemetryForSite ks store ''s1'' ''load_01'') = Some ''on'' \<and>
     soc_of (TelemetryForSite ks store ''s1'') (zero_Device\<lparr>d_ID := ''battery_01''\<rparr>) =
       sim_soc (snd (sim_round tx_env (\<lambda>_. Fin 0) (\<lambda>_. 0) tx_clk 0 tx_sim))"
proof -
  let ?xs = "round_states (\<lambda>_. Fin 0) (\<lambda>_. 0) tx_clk 0 tx_sim" and ?round = "sim_round tx_env (\<lambda>_. Fin 0) (\<lambda>_. 0) tx_clk 0 tx_sim"
  let ?store = "mc_store (uplink (se_mqtt tx_env) (\<lambda>_. (True, [], tx_clk)) 0 (sim_out (snd ?round)) ex_client)"
  have out: "sim_out (snd ?round) = sim_out tx_sim @ sim_out (snd ?round)"
    by (simp add: tx_sim_def sim_connect_def newSimulator_def)
  have site: "slash_free (sim_siteID tx_sim)" "sim_siteID tx_sim \<noteq> []" "sim_keys tx_sim = Map.empty"
    by (simp_all add: tx_sim_def sim_connect_def newSimulator_def)
  have c: "client_inv ex_client" "mc_keys ex_client = Map.empty"
    by (simp_all add: client_inv_def ex_client_def NewClient_def NewStore_def store_inv_def)
  have ids: "distinct (map (\<lambda>x. t_DeviceID (snd (snd x))) ?xs)" "\<forall>(ty, signedAt, t) \<in> set ?xs. t_Timestamp t = 5"
    by (simp_all add: round_states_def Let_def split_beta time_unix_sec_def time_Unix_def wrap64_def)
  have env: "me_marshal_telemetry (se_mqtt tx_env) t = Some (t_DeviceID t)"
    "me_telemetry (se_mqtt tx_env) = map_of (map (\<lambda>(ty, signedAt, t). (t_DeviceID t, t)) ?xs)" for t
    by (simp_all add: tx_env_def)
  have arrives: "\<forall>x \<in> set ?xs. state_arrives tx_env tx_sim ex_client (\<lambda>_. (True, [], tx_clk)) x"
  proof
    fix x assume x: "x \<in> set ?xs"
    obtain ty signedAt t where x3: "x = (ty, signedAt, t)" by (metis prod_cases3)
    have "me_telemetry (se_mqtt tx_env) (t_DeviceID t) = Some t"
      using ids(1) imageI [OF x, of "\<lambda>(ty, signedAt, t). (t_DeviceID t, t)"] x3
      unfolding env(2) by (intro map_of_is_SomeI) (simp_all add: comp_def split_beta)
    with x x3 ids(2) show "state_arrives tx_env tx_sim ex_client (\<lambda>_. (True, [], tx_clk)) x"
      by (auto simp: state_arrives_def env(1) answer_travels_def site(3) c(2))
  qed
  have "store_inv ?store" using client.inv_steps [OF uplink_steps c(1)] by (simp add: client_inv_def)
  then have "finite (dom (telemetry ?store))" by (simp add: store_inv_def)
  then obtain ks where ks: "range_order (telemetry ?store) ks"
    using finite_distinct_list [of "dom (telemetry ?store)"] by (auto simp: range_order_def)
  note seen = tick_decides_on_device_state [OF out site(1,2) c(1) arrives refl ks, of "ex_run\<lparr>run_log := []\<rparr>"]
  let ?x = "?xs ! 2"
  have x: "?x \<in> set ?xs" "t_DeviceID (snd (snd ?x)) = ''load_01''" "t_State (snd (snd ?x)) = ''on''"
    by (simp_all add: round_states_def Let_def split_beta tx_sim_def relayOn_def sim_connect_def newSimulator_def)
  have run: "run_log (ex_run\<lparr>run_log := []\<rparr>) = []" "sc_siteID (run_sched (ex_run\<lparr>run_log := []\<rparr>)) = sim_siteID tx_sim"
    by (simp_all add: ex_run_def scheduler_New_def tx_sim_def sim_connect_def newSimulator_def)
  have s1: "sim_siteID tx_sim = ''s1''" by (simp add: tx_sim_def sim_connect_def newSimulator_def)
  have "map_option t_State (TelemetryForSite ks ?store ''s1'' ''load_01'') = Some ''on''"
    using bspec [OF conjunct1 [OF seen [OF run]] x(1)] x(2,3) by (simp add: split_beta s1)
  moreover have "soc_of (TelemetryForSite ks ?store ''s1'') (zero_Device\<lparr>d_ID := ''battery_01''\<rparr>) = sim_soc (snd ?round)"
    using conjunct1 [OF conjunct2 [OF seen [OF run]]] by (simp add: s1)
  ultimately show ?thesis using ks by (intro exI conjI refl) simp_all
qed

end
