(* ===== verification/Spec2Isabelle.thy ===== *)
theory Spec2Isabelle
  imports Timeseries Topic Store Scheduler Optimizer Dispatch Edge_Cache Edge_Gateway Device_Auth Mqtt_Client
    Repository Command_History Metrics Api_Server Simulator Platform Edge_Service Edge_Uplink
    Command_Race Control_Loop Telemetry_Loop
begin

text \<open>
  Verification of vpp-lab, a small virtual power plant: a platform that collects telemetry of
  photovoltaics, batteries and loads over MQTT, plans and dispatches battery power, and offers an
  HTTP API; an edge gateway that buffers messages while the uplink is down; a simulator of devices.

  \<^bold>\<open>The program.\<close> The platform (src/cmd/vpp-lab/main.go) starts from the
  environment (src/internal/config), opens the state store (src/internal/state, optionally mirrored
  to Redis) and the database (src/internal/repository), and then runs three activities over the same
  state: the MQTT client (src/internal/mqtt) files what devices send, after checking signatures
  (src/internal/deviceauth); the scheduler (src/internal/scheduler) ticks and commands devices
  through the client; the HTTP API (src/internal/api) reads the state, plans
  (src/internal/optimizer), previews and applies a dispatch (src/internal/dispatch) and renders
  metrics (src/internal/metrics). A published command is filed in the store and the database; its
  acknowledgement updates both; a restart loads them back. The edge gateway (src/cmd/edge-gateway,
  src/internal/edge) captures messages into SQLite and forwards them. The simulator
  (src/cmd/simulator) answers commands and publishes telemetry.

  \<^bold>\<open>Theories and code.\<close>
  \<^item> Prelude, Go_Float, Go_Time, Go_Strings, Go_Strconv, Go_Json: what the program uses of the
    language and its standard library: wrapping 64-bit integers, IEEE binary64 on exact rationals,
    instants and durations, strings and formats, parsers of settings, dynamic JSON values. Prelude
    also holds the locale \<open>keeps_invariant\<close> (a step relation and a predicate it
    preserves), which every component with a step relation interprets.
  \<^item> Model: src/internal/model/model.go. Topic: src/internal/topic/topic.go. Store: state.go,
    the record \<open>Store\<close> with one function per method. Its locales
    \<open>site_index\<close> (what a lookup returns after an insert) and \<open>bounded_log\<close>
    (newest first, at most 200) are interpreted on devices, telemetry, events and commands.
  \<^item> Repository: postgres.go, commands.go, events.go, audit.go; a table is a map from its
    primary key to the row. Command_History: the recorder calls of the client replayed on the
    tables, and loading them. Command_Race: what history and table hold when acknowledgements are
    handled before their command is filed.
  \<^item> Scheduler: scheduler.go; a run is the record \<open>SchedRun\<close> (scheduler, clock,
    log of publish calls). Optimizer: plan.go. Dispatch: preview.go.
  \<^item> Device_Auth: auth.go. Mqtt_Client: client.go and tls.go; the record \<open>Client\<close>
    holds the store, the keys, the reject counters and a log of the calls to the recorder and to
    InfluxDB. Its locale \<open>commander\<close> states what the scheduler and the API rely on when
    they publish. Timeseries: influx.go.
  \<^item> Metrics: prometheus.go. Api_Server: server.go; the record \<open>Server\<close> is all
    the handlers reach.
  \<^item> Edge_Cache: cache.go. Edge_Gateway and Edge_Service: src/cmd/edge-gateway/main.go (loops
    and local command; settings, start, metrics page). Edge_Uplink: the gateway in front of a
    platform.
  \<^item> Simulator: src/cmd/simulator/main.go. Platform_Config: config.go. Platform:
    src/cmd/vpp-lab/main.go, with start-up as \<open>platform_main\<close> and the running process
    as \<open>platform_step\<close> over messages, requests, ticks.
    Control_Loop: the simulator's turns interleaved with commands of the scheduler. Telemetry_Loop:
    what a turn publishes, filed by the platform and read by the next tick.
  \<^item> This theory imports all of them and holds the property that joins the scheduler and the
    simulator.

  \<^bold>\<open>What the lemmas show.\<close> Scheduler: only allowed commands, cooldown over every
  run, a tick equals its rules. Optimizer and Dispatch: slots tile the horizon, state of charge
  within limits, power bounds, what may be applied. Store and Repository: well-formed maps,
  acknowledgements meet their commands, the history in memory and the table agree and survive a
  restart in whichever order a command and its acknowledgement are recorded; for every order it is
  stated what both sides show of a command. Mqtt_Client,
  Device_Auth: nothing unverified acts, signing and verifying round trip. Api_Server: the control
  token is a gate, control requests are audited, what dispatch/apply has published when it says so.
  Metrics: a line reads back to its labels. Edge: messages are delivered in order, at least once,
  and exactly once while no mark is lost; a platform behind the gateway ends with the telemetry
  and the command history it would have without it, unless signed messages waited for longer than
  they are valid. Simulator: its invariant, charging ends, a command closes the loop through the
  simulator to the history; no command of the scheduler ends what an earlier one started,
  and a tick decides on the state the devices have published last.
  Platform: in every reachable state the policy is valid and the store well-formed, and a command is
  issued only by a request with the control token or by a tick whose rule allows it.
  Platform_Config: settings written into the environment are read back. Several
  theorems without a number state where the code departs from its intent.

  \<^bold>\<open>Inputs and bounds.\<close> Every reading of the clock is an argument, in the order
  the code makes them; the order of a loop over a Go map is a list argument with
  \<open>range_order\<close>, and theorems hold for every order. Arguments too: the JSON codecs of
  structs, the MAC, \<open>math.Sin\<close>, the time zone, what Redis, PostgreSQL, SQLite, the
  broker and the file system answer, the text of a jsonb value and the collation. A method under a
  mutex, a handler of a message or request and a tick are atomic steps; a request path is its
  decoded segments without empty or dot segments. All functions terminate; no fuel is used except a
  length bound in the reader of label lists. Bounds in statements: a horizon of at most 2562047
  hours (292 years, the range of a Duration), a plan of at most 2^41 slots (beyond,
  \<open>make\<close> panics), histories of 200 records, flush batches of 100 messages, ages up to
  2^22 seconds where an age is compared as a float, 161 turns of the simulator's loop (0.80 divided
  by 0.005, plus rounding).

  \<^bold>\<open>Not modelled.\<close> Logging; listening, shutting down on a signal and closing
  connections, which change no state of the program; the bytes of JSON replies (a reply is the value
  that is encoded); the options of the paho client beyond those of \<open>newMQTTClient\<close>;
  firmware, dashboards, scripts and documentation, which are not Go. Races between two handlers
  inside one event are outside the step relation; where one matters (Redis writes of two messages,
  an acknowledgement before its command is recorded) a comment or a theorem says so.

  \<^bold>\<open>Plan.\<close> Next: the gateway and the platform as one step relation, with
  publishes of the platform between the forwarded messages; the effect of a restart between a
  publish and its acknowledgement; the net power of a site as the sum over the simulated devices.
\<close>

section \<open>The scheduler and the simulator\<close>

text \<open>
  C24. The scheduler and the simulated devices understand each other: every command a tick of the
  scheduler decides on is carried out by the simulator, in whatever state it is, when it arrives
  for its device: the battery takes the mode and the relay is off afterwards.
\<close>
theorem scheduled_commands_understood:
  assumes "c \<in> set (run_log (Tick clk cmdr (ks1, ks2, ks3) store r))" "run_log r = []"
    and "tp_DeviceType parsed = d_Type (pc_Device c)"
  shows "\<exists>s'. apply_action parsed (pc_Command c) s = (None, s') \<and>
    (if d_Type (pc_Device c) = DeviceLoad then \<not> relayOn s' (tp_DeviceID parsed)
     else sim_batteryMode s' \<in> {''charging'', ''discharging''})"
proof -
  have "tick_allows (sc_siteID (run_sched r)) (sc_policy (run_sched r)) (s_NetPowerW (Summary ks1 store (sc_siteID (run_sched r))))
      (soc_of (TelemetryForSite ks3 store (sc_siteID (run_sched r)))) (pc_Device c) (c_Action (pc_Command c)) (c_Params (pc_Command c))"
    using assms(1,2) Tick_log [of r ks1 store ks3 clk cmdr ks2] by (auto simp: log_extends_def)
  then show ?thesis
    using assms(3)
    by (auto simp: tick_allows_def apply_action_def boolParam_def stringParam_def gmap_get_def relayOn_def)
qed

theorem scheduled_commands_understood_witness:
  "\<exists>c s'. run_log (Tick ex_clk (\<lambda>_ _ _ _. None) (ex_keys, ex_keys, ex_keys) ex_store ex_run) = [c] \<and>
     apply_action \<lparr>tp_SiteID = ''s1'', tp_DeviceType = d_Type (pc_Device c), tp_DeviceID = ''b1'', tp_Kind = ''command''\<rparr>
       (pc_Command c) (newSimulator ''s1'' Map.empty) = (None, s')"
proof -
  have "map sent (run_log (Tick ex_clk (\<lambda>_ _ _ _. None) (ex_keys, ex_keys, ex_keys) ex_store ex_run)) =
      [(ex_battery, ''set_mode'', discharging)]"
    by (simp add: ex_tick Tick_def sched_Policy_def Let_def publish_eq blocked_def in_cooldown_def call_of_def sent_def sched_cmd_def)
  then obtain c where c: "run_log (Tick ex_clk (\<lambda>_ _ _ _. None) (ex_keys, ex_keys, ex_keys) ex_store ex_run) = [c]" by auto
  have "run_log ex_run = []" by (simp add: ex_run_def)
  with c scheduled_commands_understood [of c ex_clk "\<lambda>_ _ _ _. None" ex_keys ex_keys ex_keys ex_store ex_run
      "\<lparr>tp_SiteID = ''s1'', tp_DeviceType = d_Type (pc_Device c), tp_DeviceID = ''b1'', tp_Kind = ''command''\<rparr>"
      "newSimulator ''s1'' Map.empty"]
  show ?thesis by auto
qed

end
